(* ===== verification/Prelude.thy ===== *)
theory Prelude
  imports Complex_Main "HOL-Library.Extended_Nat" "HOL-Library.Multiset"
begin

text \<open>
  Shared vocabulary of the development. The JavaScript sources keep bits as
  plain numbers in arrays (\<open>[0, 1, 1, 0]\<close>); the model keeps them as \<open>int list\<close>,
  so that a malformed array (a \<open>2\<close>, a wrong length) is representable and the
  validation code has something to reject. \<open>^\<close> on such numbers is the
  integer \<open>XOR\<close> (the operands are small, so the 32-bit conversion of
  JavaScript's \<open>^\<close> changes nothing). The two error kinds of the core are a
  datatype, and \<open>Math.random\<close> is an explicit random source threaded through
  the calls that draw from it.
\<close>

unbundle bit_operations_syntax

named_theorems bit_simps "facts on 0/1 integers and XOR used by the component proofs"
named_theorems validity_defs "definitions of the input validators, unfolded together"

datatype error = InvalidInput | InvalidParameter

text \<open>
  Exceptions of the JavaScript runtime that the utilities and the application
  can raise: \<open>RangeError\<close> from \<open>toFixed\<close> or \<open>toExponential\<close> with a
  digit count outside 0..100, \<open>TypeError\<close> from a property read or a call on
  \<open>undefined\<close>, \<open>Error\<close> from a \<open>throw new Error(...)\<close> of the
  program itself.
\<close>

datatype js_exception = RangeError | TypeError | Error

text \<open>JavaScript numbers that may be \<open>Infinity\<close>, \<open>-Infinity\<close> or \<open>NaN\<close>.\<close>

datatype js_real = JNum real | JPosInf | JNegInf | JNaN

text \<open>
  \<open>Number.prototype.toString(radix)\<close> of a non-negative integer: its digits
  in the radix, lower-case letters beyond 9; \<open>String(i)\<close> of an integer; and
  the digit reading that inverts them (\<open>parseInt\<close> of a string of digits).
\<close>

definition digit_char :: "nat \<Rightarrow> char" where
  "digit_char d = (if d < 10 then char_of (48 + d) else char_of (87 + d))"

definition digit_value :: "char \<Rightarrow> nat option" where
  "digit_value c =
     (let k = of_char c :: nat in
      if 48 \<le> k \<and> k \<le> 57 then Some (k - 48)
      else if 97 \<le> k \<and> k \<le> 122 then Some (k - 87)
      else if 65 \<le> k \<and> k \<le> 90 then Some (k - 55) else None)"

fun radix_digits :: "nat \<Rightarrow> nat \<Rightarrow> string" where
  "radix_digits r n =
     (if r \<le> 1 \<or> n < r then [digit_char n] else radix_digits r (n div r) @ [digit_char (n mod r)])"

declare radix_digits.simps [simp del]

definition digits_value :: "nat \<Rightarrow> string \<Rightarrow> nat" where
  "digits_value r s = foldl (\<lambda>acc c. acc * r + the (digit_value c)) 0 s"

definition int_to_string :: "int \<Rightarrow> string" where
  "int_to_string i = (if i < 0 then CHR ''-'' # radix_digits 10 (nat (- i)) else radix_digits 10 (nat i))"

text \<open>\<open>ToString\<close> of an integral number, the only numbers the read-outs show.\<close>

fun number_string :: "js_real \<Rightarrow> string" where
  "number_string (JNum x) = int_to_string \<lfloor>x\<rfloor>"
| "number_string JNaN = ''NaN''"
| "number_string JPosInf = ''Infinity''"
| "number_string JNegInf = ''-Infinity''"

text \<open>
  \<open>parseInt(s, 2)\<close>: white space, an optional sign, then the longest run of
  binary digits; no digit gives \<open>NaN\<close>.
\<close>

definition js_space :: "char \<Rightarrow> bool" where
  "js_space c \<longleftrightarrow> c \<in> {CHR '' '', CHR 0x09, CHR 0x0A, CHR 0x0B, CHR 0x0C, CHR 0x0D}"

definition parseInt2 :: "string \<Rightarrow> js_real" where
  "parseInt2 s =
     (let t = dropWhile js_space s;
          (neg, u) = (case t of CHR ''-'' # r \<Rightarrow> (True, r) | CHR ''+'' # r \<Rightarrow> (False, r) | _ \<Rightarrow> (False, t));
          ds = takeWhile (\<lambda>c. c = CHR ''0'' \<or> c = CHR ''1'') u
      in if ds = [] then JNaN else JNum ((if neg then -1 else 1) * real (digits_value 2 ds)))"

text \<open>\<open>Math.round\<close>: the nearest integer, halves rounded up.\<close>

definition js_round :: "real \<Rightarrow> int" where
  "js_round x = \<lfloor>x + 1 / 2\<rfloor>"

text \<open>\<open>bit === 0 || bit === 1\<close>, the element test of every bit-array validator.\<close>

definition is_bit :: "int \<Rightarrow> bool" where
  "is_bit b \<longleftrightarrow> b = 0 \<or> b = 1"

definition bits_of_length :: "nat \<Rightarrow> int list \<Rightarrow> bool" where
  "bits_of_length n xs \<longleftrightarrow> length xs = n \<and> list_all is_bit xs"

text \<open>
  The random source: \<open>Math.random()\<close> yields the next value of an infinite
  sequence of draws. The record holds the sequence and the position of the
  next draw; every function that draws takes the source and returns it
  advanced, so the order of draws is part of the model.
\<close>

record rng =
  draws :: "nat \<Rightarrow> real"
  cursor :: nat

definition next_random :: "rng \<Rightarrow> real \<times> rng" where
  "next_random g = (draws g (cursor g), g\<lparr>cursor := Suc (cursor g)\<rparr>)"

definition valid_rng :: "rng \<Rightarrow> bool" where
  "valid_rng g \<longleftrightarrow> (\<forall>n. 0 \<le> draws g n \<and> draws g n < 1)"

definition const_rng :: "real \<Rightarrow> rng" where
  "const_rng r = \<lparr>draws = (\<lambda>_. r), cursor = 0\<rparr>"

subsection \<open>Digits\<close>

lemma digit_value_char: "d < 36 \<Longrightarrow> digit_value (digit_char d) = Some d"
  by (auto simp: digit_char_def digit_value_def Let_def)

lemma radix_digits_value:
  "2 \<le> r \<Longrightarrow> r \<le> 36 \<Longrightarrow>
     digits_value r (radix_digits r n) = n \<and> radix_digits r n \<noteq> [] \<and>
     (\<forall>c\<in>set (radix_digits r n). \<exists>d<r. c = digit_char d)"
proof (induction r n rule: radix_digits.induct)
  case (1 r n)
  show ?case
  proof (cases "n < r")
    case True
    then have eq: "radix_digits r n = [digit_char n]"
      by (subst radix_digits.simps) simp
    have "n < 36" using True "1.prems" by linarith
    then show ?thesis using True
      by (auto simp: eq digits_value_def digit_value_char)
  next
    case False
    then have IH: "digits_value r (radix_digits r (n div r)) = n div r" "radix_digits r (n div r) \<noteq> []"
        "\<forall>c\<in>set (radix_digits r (n div r)). \<exists>d<r. c = digit_char d"
      using "1.IH" "1.prems" by auto
    have m: "n mod r < r" using "1.prems" by simp
    then have "n mod r < 36" using "1.prems" by linarith
    then have "digits_value r (radix_digits r (n div r) @ [digit_char (n mod r)]) = n div r * r + n mod r"
      using IH(1) by (simp add: digits_value_def digit_value_char)
    moreover have eq: "radix_digits r n = radix_digits r (n div r) @ [digit_char (n mod r)]"
      using False "1.prems" by (subst radix_digits.simps) simp
    ultimately show ?thesis using m IH(2,3)
      by (auto simp: eq)
  qed
qed

lemma int_to_string_bits [simp]: "int_to_string 0 = ''0''" "int_to_string 1 = ''1''"
  by code_simp+

lemma digits_value_append:
  "digits_value r (a @ b) = digits_value r a * r ^ length b + digits_value r b"
proof (induction b rule: rev_induct)
  case (snoc c b)
  then show ?case by (simp add: digits_value_def algebra_simps)
qed (simp add: digits_value_def)

lemma digits_value_zeros [simp]: "digits_value r (replicate k CHR ''0'') = 0"
proof (induction k)
  case (Suc k)
  have "replicate (Suc k) CHR ''0'' = replicate k CHR ''0'' @ [CHR ''0'']"
    by (simp add: replicate_append_same)
  moreover have "digits_value r [CHR ''0''] = 0"
    by (simp add: digits_value_def digit_value_def)
  ultimately show ?case
    using Suc by (simp only: digits_value_append)
qed (simp add: digits_value_def)

subsection \<open>Bits\<close>

lemma is_bit_cases [bit_simps]: "is_bit b \<longleftrightarrow> b = 0 \<or> b = 1"
  by (simp add: is_bit_def)

lemma is_bit_xor [bit_simps]: "is_bit a \<Longrightarrow> is_bit b \<Longrightarrow> is_bit (a XOR b)"
  by (auto simp: is_bit_def)

lemma is_bit_flip [bit_simps]: "is_bit b \<Longrightarrow> is_bit (b XOR 1)"
  by (auto simp: is_bit_def)

lemma flip_flip [bit_simps]: "is_bit b \<Longrightarrow> (b XOR 1) XOR 1 = b"
  by (auto simp: is_bit_def)

lemma flip_neq [bit_simps]: "is_bit b \<Longrightarrow> b XOR 1 \<noteq> b"
  by (auto simp: is_bit_def)

lemma xor_cancel [bit_simps]: "(x::int) XOR x = 0" "x XOR (x XOR y) = y"
  by (simp_all add: xor.assoc [symmetric])

lemmas xor_ac = xor.assoc xor.commute xor.left_commute

lemma xor_eq_0_iff [bit_simps]: "((x::int) XOR y = 0) \<longleftrightarrow> x = y"
  by (metis xor_cancel(1) xor_cancel(2) xor.right_neutral)

lemma is_bit_xor_witness: "is_bit a \<Longrightarrow> is_bit a' \<Longrightarrow> \<exists>u. is_bit u \<and> a' = a XOR u"
  by (rule exI [of _ "a XOR a'"]) (auto simp: is_bit_xor xor_cancel xor_ac)

lemma bits_of_length_Cons [simp]:
  "bits_of_length (Suc n) (x # xs) \<longleftrightarrow> is_bit x \<and> bits_of_length n xs"
  by (auto simp: bits_of_length_def)

lemma bits_of_length_Nil [simp]: "bits_of_length n [] \<longleftrightarrow> n = 0"
  by (auto simp: bits_of_length_def)

lemma bits_of_length_update:
  "bits_of_length n xs \<Longrightarrow> is_bit v \<Longrightarrow> bits_of_length n (xs[i := v])"
  by (auto simp: bits_of_length_def list_all_iff dest: set_update_subset_insert [THEN subsetD])

lemma bits_of_length_nth:
  "bits_of_length n xs \<Longrightarrow> i < n \<Longrightarrow> is_bit (xs ! i)"
  by (auto simp: bits_of_length_def list_all_length)

text \<open>A valid word of length four is one of sixteen lists, named by its bits.\<close>

lemma bits_of_length_4_cases:
  assumes "bits_of_length 4 d"
  obtains a b c e where "d = [a, b, c, e]" and "is_bit a" "is_bit b" "is_bit c" "is_bit e"
proof -
  from assms have "length d = 4" by (simp add: bits_of_length_def)
  then obtain a b c e where d: "d = [a, b, c, e]"
    by (auto simp: numeral_eq_Suc length_Suc_conv)
  with assms show ?thesis
    by (intro that [OF d]) (simp_all add: numeral_eq_Suc)
qed

lemma bits_of_length_7_cases:
  assumes "bits_of_length 7 c"
  obtains c0 c1 c2 c3 c4 c5 c6 where "c = [c0, c1, c2, c3, c4, c5, c6]"
    and "is_bit c0" "is_bit c1" "is_bit c2" "is_bit c3" "is_bit c4" "is_bit c5" "is_bit c6"
proof -
  from assms have "length c = 7" by (simp add: bits_of_length_def)
  then obtain c0 c1 c2 c3 c4 c5 c6 where c: "c = [c0, c1, c2, c3, c4, c5, c6]"
    by (auto simp: numeral_eq_Suc length_Suc_conv)
  with assms show ?thesis
    by (intro that [OF c]) (simp_all add: numeral_eq_Suc)
qed

subsection \<open>Index ranges of the fixed-size loops\<close>

lemma upt_4: "[0..<4] = [0, 1, 2, 3 :: nat]"
  by (simp add: upt_rec)

lemma upt_7: "[0..<7] = [0, 1, 2, 3, 4, 5, 6 :: nat]"
  by (simp add: upt_rec)

lemma upt_3: "[0..<3] = [0, 1, 2 :: nat]"
  by (simp add: upt_rec)

lemmas loop_ranges = upt_3 upt_4 upt_7

lemma upt_Suc_Cons: "[k..<Suc (k + n)] = k # [Suc k..<Suc (k + n)]"
  by (rule upt_conv_Cons) simp

subsection \<open>The random source\<close>

lemma next_random_valid:
  "valid_rng g \<Longrightarrow> next_random g = (r, g') \<Longrightarrow> valid_rng g' \<and> 0 \<le> r \<and> r < 1"
  by (auto simp: next_random_def valid_rng_def)

lemma next_random_draws [simp]: "draws (snd (next_random g)) = draws g"
  by (simp add: next_random_def)

lemma valid_const_rng: "0 \<le> r \<Longrightarrow> r < 1 \<Longrightarrow> valid_rng (const_rng r)"
  by (simp add: valid_rng_def const_rng_def)

end
