(* ===== verification/Hamming.thy ===== *)
theory Hamming
  imports Prelude
begin

text \<open>
  The block code engine, \<open>src/js/hamming.js\<close>, class \<open>HammingCode\<close>: the
  generator and parity-check matrices of the constructor, \<open>encode\<close>,
  \<open>decode\<close> with its syndrome helpers, \<open>injectErrors\<close>, the codebook and its
  minimum distance, and the validators. Arrays of numbers are \<open>int list\<close>; a
  thrown \<open>Error\<close> is \<open>Inl InvalidInput\<close>.
\<close>

section \<open>Definitions\<close>

definition generatorMatrix :: "int list list" where
  "generatorMatrix =
     [[1, 1, 0, 1], [1, 0, 1, 1], [1, 0, 0, 0], [0, 1, 1, 1],
      [0, 1, 0, 0], [0, 0, 1, 0], [0, 0, 0, 1]]"

definition parityCheckMatrix :: "int list list" where
  "parityCheckMatrix =
     [[1, 0, 1, 0, 1, 0, 1], [0, 1, 1, 0, 0, 1, 1], [0, 0, 0, 1, 1, 1, 1]]"

text \<open>The object literal from syndrome value to array index; \<open>-1\<close> is "no error".\<close>

definition syndromeToErrorPosition :: "int \<rightharpoonup> int" where
  "syndromeToErrorPosition =
     map_of [(0, -1), (1, 0), (2, 1), (3, 2), (4, 3), (5, 4), (6, 5), (7, 6)]"

definition validateDataBits :: "int list \<Rightarrow> bool" where
  [validity_defs]: "validateDataBits d \<longleftrightarrow> bits_of_length 4 d"

definition validateCodeword :: "int list \<Rightarrow> bool" where
  [validity_defs]: "validateCodeword c \<longleftrightarrow> bits_of_length 7 c"

text \<open>
  The inner loop shared by \<open>encode\<close> and \<open>calculateSyndrome\<close>:
  \<open>let bit = 0; for (j = 0; j < n; j++) bit ^= row[j] * v[j];\<close>
\<close>

definition gf2_dot :: "int list \<Rightarrow> int list \<Rightarrow> nat \<Rightarrow> int" where
  "gf2_dot row v n = foldl (\<lambda>bit j. bit XOR (row ! j * v ! j)) 0 [0..<n]"

definition encode :: "int list \<Rightarrow> error + int list" where
  "encode d =
     (if \<not> validateDataBits d then Inl InvalidInput
      else Inr (map (\<lambda>i. gf2_dot (generatorMatrix ! i) d 4) [0..<7]))"

definition calculateSyndrome :: "int list \<Rightarrow> int list" where
  "calculateSyndrome c = map (\<lambda>i. gf2_dot (parityCheckMatrix ! i) c 7) [0..<3]"

definition syndromeToInteger :: "int list \<Rightarrow> int" where
  "syndromeToInteger s = s ! 0 * 1 + s ! 1 * 2 + s ! 2 * 4"

text \<open>
  The object \<open>decode\<close> returns. \<open>errorPosition\<close> is the value read from
  \<open>syndromeToErrorPosition\<close>: \<open>None\<close> stands for JavaScript's
  \<open>undefined\<close>, which a key outside the table would give (for a validated
  codeword it never happens, see \<open>syndrome_position_defined\<close>).
\<close>

record decode_result =
  dataBits :: "int list"
  correctedCodeword :: "int list"
  errorDetected :: bool
  errorPosition :: "int option"
  syndrome :: "int list"
  syndromeValue :: int

text \<open>
  Step 3 of \<open>decode\<close>: \<open>correctedCodeword[errorPosition] ^= 1\<close> when an error
  was detected. With an \<open>undefined\<close> position the assignment creates a
  property named "undefined" and leaves every index unchanged.
\<close>

definition correct_at :: "int list \<Rightarrow> bool \<Rightarrow> int option \<Rightarrow> int list" where
  "correct_at c detected pos =
     (if detected then (case pos of Some p \<Rightarrow> c[nat p := c ! nat p XOR 1] | None \<Rightarrow> c)
      else c)"

definition decode :: "int list \<Rightarrow> error + decode_result" where
  "decode c =
     (if \<not> validateCodeword c then Inl InvalidInput
      else
        (let s = calculateSyndrome c;
             sv = syndromeToInteger s;
             pos = syndromeToErrorPosition sv;
             detected = (pos \<noteq> Some (-1));
             cc = correct_at c detected pos
         in Inr \<lparr>dataBits = [cc ! 2, cc ! 4, cc ! 5, cc ! 6], correctedCodeword = cc,
                 errorDetected = detected, errorPosition = pos,
                 syndrome = s, syndromeValue = sv\<rparr>))"

text \<open>
  \<open>injectErrors\<close>: copy the array, then for each index in order draw
  \<open>Math.random()\<close> and flip the bit when the draw is below the rate. The
  rate is not checked.
\<close>

fun injectErrors :: "int list \<Rightarrow> real \<Rightarrow> rng \<Rightarrow> int list \<times> rng" where
  "injectErrors [] errorRate g = ([], g)"
| "injectErrors (b # bs) errorRate g =
     (case next_random g of
        (r, g1) \<Rightarrow>
          (case injectErrors bs errorRate g1 of
             (bs', g2) \<Rightarrow> ((if r < errorRate then b XOR 1 else b) # bs', g2)))"

text \<open>
  \<open>hammingDistance\<close> of the class: it walks \<open>word1\<close> only, and a missing
  \<open>word2[i]\<close> (\<open>undefined\<close>) differs from every number.
\<close>

definition hammingDistance :: "int list \<Rightarrow> int list \<Rightarrow> nat" where
  "hammingDistance w1 w2 =
     length (filter (\<lambda>i. length w2 \<le> i \<or> w1 ! i \<noteq> w2 ! i) [0..<length w1])"

record codebook_entry =
  input :: "int list"
  codeword :: "int list"

text \<open>\<open>[(i >> 3) & 1, (i >> 2) & 1, (i >> 1) & 1, i & 1]\<close>.\<close>

definition index_bits :: "int \<Rightarrow> int list" where
  "index_bits i =
     [drop_bit 3 i AND 1, drop_bit 2 i AND 1, drop_bit 1 i AND 1, i AND 1]"

fun codebook_from :: "int list \<Rightarrow> error + codebook_entry list" where
  "codebook_from [] = Inr []"
| "codebook_from (i # is) =
     (case encode (index_bits i) of
        Inl e \<Rightarrow> Inl e
      | Inr cw \<Rightarrow>
          (case codebook_from is of
             Inl e \<Rightarrow> Inl e
           | Inr es \<Rightarrow> Inr (\<lparr>input = index_bits i, codeword = cw\<rparr> # es)))"

definition generateCodebook :: "error + codebook_entry list" where
  "generateCodebook = codebook_from [0..15]"

text \<open>
  The pairs \<open>i < j\<close> of the nested loop, in the loop's order, and the running
  minimum from \<open>Infinity\<close> (an extended natural).
\<close>

definition index_pairs :: "nat \<Rightarrow> (nat \<times> nat) list" where
  "index_pairs n = concat (map (\<lambda>i. map (\<lambda>j. (i, j)) [Suc i..<n]) [0..<n])"

definition min_pair_distance :: "codebook_entry list \<Rightarrow> enat" where
  "min_pair_distance cb =
     foldl (\<lambda>m (i, j). min m (enat (hammingDistance (codeword (cb ! i)) (codeword (cb ! j)))))
       \<infinity> (index_pairs (length cb))"

definition calculateMinimumDistance :: "error + enat" where
  "calculateMinimumDistance =
     (case generateCodebook of Inl e \<Rightarrow> Inl e | Inr cb \<Rightarrow> Inr (min_pair_distance cb))"

record code_properties =
  cp_n :: nat
  cp_k :: nat
  cp_r :: nat
  codeRate :: real
  minimumDistance :: nat
  errorCorrectionCapability :: nat
  errorDetectionCapability :: nat
  totalCodewords :: nat
  redundancy :: real

definition getCodeProperties :: code_properties where
  "getCodeProperties =
     \<lparr>cp_n = 7, cp_k = 4, cp_r = 3, codeRate = 4 / 7, minimumDistance = 3,
      errorCorrectionCapability = 1, errorDetectionCapability = 2,
      totalCodewords = 16, redundancy = 3 / 7\<rparr>"

text \<open>Column \<open>p\<close> of the parity-check matrix: the syndrome of a flip at index \<open>p\<close>.\<close>

definition column :: "nat \<Rightarrow> int list" where
  "column p = map (\<lambda>row. row ! p) parityCheckMatrix"

text \<open>All sixteen 4-bit words, in the codebook's order.\<close>

definition all_data_words :: "int list list" where
  "all_data_words = [[a, b, c, e]. a \<leftarrow> [0, 1], b \<leftarrow> [0, 1], c \<leftarrow> [0, 1], e \<leftarrow> [0, 1]]"

section \<open>Encoding and syndromes in closed form\<close>

lemmas hamming_defs = encode_def decode_def validity_defs calculateSyndrome_def gf2_dot_def
  loop_ranges generatorMatrix_def parityCheckMatrix_def syndromeToInteger_def
  syndromeToErrorPosition_def correct_at_def

lemma less_7_cases: "(p::nat) < 7 \<Longrightarrow> p = 0 \<or> p = 1 \<or> p = 2 \<or> p = 3 \<or> p = 4 \<or> p = 5 \<or> p = 6"
  by arith

lemma encode_bits:
  assumes "is_bit a" "is_bit b" "is_bit c" "is_bit e"
  shows "encode [a, b, c, e] =
           Inr [(a XOR b) XOR e, (a XOR c) XOR e, a, (b XOR c) XOR e, b, c, e]"
  using assms
  by (simp add: encode_def validity_defs bits_of_length_def gf2_dot_def loop_ranges
      generatorMatrix_def)

lemma syndrome_bits:
  "calculateSyndrome [c0, c1, c2, c3, c4, c5, c6] =
     [((c0 XOR c2) XOR c4) XOR c6, ((c1 XOR c2) XOR c5) XOR c6, ((c3 XOR c4) XOR c5) XOR c6]"
  by (simp add: calculateSyndrome_def gf2_dot_def loop_ranges parityCheckMatrix_def)

lemma encode_cases:
  assumes "validateDataBits d"
  obtains a b c e where "d = [a, b, c, e]" "is_bit a" "is_bit b" "is_bit c" "is_bit e"
    and "encode d = Inr [(a XOR b) XOR e, (a XOR c) XOR e, a, (b XOR c) XOR e, b, c, e]"
proof -
  from assms obtain a b c e where d: "d = [a, b, c, e]"
    and bits: "is_bit a" "is_bit b" "is_bit c" "is_bit e"
    unfolding validateDataBits_def by (rule bits_of_length_4_cases)
  show ?thesis by (rule that [OF d bits]) (simp add: d encode_bits bits)
qed

lemma encode_valid:
  assumes "validateDataBits d" and "encode d = Inr c"
  shows "validateCodeword c" and "calculateSyndrome c = [0, 0, 0]"
    and "[c ! 2, c ! 4, c ! 5, c ! 6] = d"
proof -
  from assms(1) obtain a b c' e where d: "d = [a, b, c', e]"
    and bits: "is_bit a" "is_bit b" "is_bit c'" "is_bit e"
    and enc: "encode d = Inr [(a XOR b) XOR e, (a XOR c') XOR e, a, (b XOR c') XOR e, b, c', e]"
    by (rule encode_cases)
  from enc assms(2) have c: "c = [(a XOR b) XOR e, (a XOR c') XOR e, a, (b XOR c') XOR e, b, c', e]"
    by simp
  show "validateCodeword c"
    using bits by (simp add: c validateCodeword_def numeral_eq_Suc is_bit_xor)
  show "calculateSyndrome c = [0, 0, 0]"
    by (simp add: c syndrome_bits xor_ac xor_cancel)
  show "[c ! 2, c ! 4, c ! 5, c ! 6] = d"
    by (simp add: c d)
qed

lemma syndrome_flip:
  assumes "length cw = 7" and "p < 7"
  shows "calculateSyndrome (cw[p := cw ! p XOR 1]) = map2 (XOR) (calculateSyndrome cw) (column p)"
proof -
  from assms(1) obtain c0 c1 c2 c3 c4 c5 c6 where cw: "cw = [c0, c1, c2, c3, c4, c5, c6]"
    by (auto simp: numeral_eq_Suc length_Suc_conv)
  from assms(2) show ?thesis unfolding cw
    by (auto dest!: less_7_cases simp: syndrome_bits column_def parityCheckMatrix_def xor_ac)
qed

lemma column_bits: "p < 7 \<Longrightarrow> list_all is_bit (column p)"
  by (auto dest!: less_7_cases simp: column_def parityCheckMatrix_def is_bit_def)

lemma column_position:
  "p < 7 \<Longrightarrow> syndromeToErrorPosition (syndromeToInteger (column p)) = Some (int p)"
  by (auto dest!: less_7_cases simp: column_def parityCheckMatrix_def syndromeToInteger_def
      syndromeToErrorPosition_def)

lemma column_value: "p < 7 \<Longrightarrow> syndromeToInteger (column p) = int p + 1"
  by (auto dest!: less_7_cases simp: column_def parityCheckMatrix_def syndromeToInteger_def)

section \<open>Decoding\<close>

text \<open>Every syndrome of a well-formed codeword is a key of the position table.\<close>

lemma syndrome_bits_valid:
  assumes "validateCodeword c"
  shows "length (calculateSyndrome c) = 3" and "list_all is_bit (calculateSyndrome c)"
proof -
  from assms obtain c0 c1 c2 c3 c4 c5 c6 where cw: "c = [c0, c1, c2, c3, c4, c5, c6]"
    and "is_bit c0" "is_bit c1" "is_bit c2" "is_bit c3" "is_bit c4" "is_bit c5" "is_bit c6"
    unfolding validateCodeword_def by (rule bits_of_length_7_cases)
  then show "length (calculateSyndrome c) = 3" and "list_all is_bit (calculateSyndrome c)"
    by (simp_all add: syndrome_bits is_bit_xor)
qed

lemma position_table_total:
  assumes "length s = 3" and "list_all is_bit s"
  shows "\<exists>p. syndromeToErrorPosition (syndromeToInteger s) = Some p \<and> -1 \<le> p \<and> p < 7
           \<and> (p = -1 \<longleftrightarrow> s = [0, 0, 0])"
proof -
  from assms obtain s0 s1 s2 where "s = [s0, s1, s2]" "is_bit s0" "is_bit s1" "is_bit s2"
    by (auto simp: numeral_eq_Suc length_Suc_conv)
  then show ?thesis
    by (auto simp: is_bit_def syndromeToInteger_def syndromeToErrorPosition_def)
qed

lemma decode_clean:
  assumes "validateCodeword c" and "calculateSyndrome c = [0, 0, 0]"
  shows "decode c = Inr \<lparr>dataBits = [c ! 2, c ! 4, c ! 5, c ! 6], correctedCodeword = c,
           errorDetected = False, errorPosition = Some (-1), syndrome = [0, 0, 0],
           syndromeValue = 0\<rparr>"
  using assms
  by (simp add: decode_def Let_def syndromeToInteger_def syndromeToErrorPosition_def correct_at_def)

lemma decode_flipped:
  assumes "validateCodeword c" and "calculateSyndrome c = [0, 0, 0]" and "p < 7"
  shows "decode (c[p := c ! p XOR 1]) = Inr \<lparr>dataBits = [c ! 2, c ! 4, c ! 5, c ! 6],
           correctedCodeword = c, errorDetected = True, errorPosition = Some (int p),
           syndrome = column p, syndromeValue = int p + 1\<rparr>"
proof -
  let ?c' = "c[p := c ! p XOR 1]"
  from assms(1) have len: "length c = 7" and bit: "is_bit (c ! p)"
    using assms(3) by (auto simp: validateCodeword_def bits_of_length_def list_all_length)
  have valid': "validateCodeword ?c'"
    using assms(1) bit by (simp add: validateCodeword_def bits_of_length_update is_bit_flip)
  have syn: "calculateSyndrome ?c' = column p"
    using syndrome_flip [OF len assms(3)] assms(2)
    by (simp add: column_def parityCheckMatrix_def)
  have restored: "correct_at ?c' True (Some (int p)) = c"
    using bit assms(3) len by (simp add: correct_at_def flip_flip)
  show ?thesis
    using valid' syn restored column_position [OF assms(3)] column_value [OF assms(3)]
    by (simp add: decode_def Let_def)
qed

lemma injectErrors_valid:
  "validateCodeword c \<Longrightarrow> validateCodeword (fst (injectErrors c rate g))"
proof -
  have "bits_of_length n c \<Longrightarrow> bits_of_length n (fst (injectErrors c rate g))" for n
  proof (induction c arbitrary: n g)
    case (Cons b bs)
    then obtain m where n: "n = Suc m" by (cases n) (auto simp: bits_of_length_def)
    with Cons.prems have "is_bit b" "bits_of_length m bs" by simp_all
    with Cons.IH [of m] show ?case
      by (simp add: n next_random_def case_prod_beta is_bit_flip)
  qed simp
  then show "validateCodeword c \<Longrightarrow> ?thesis" by (simp add: validateCodeword_def)
qed

lemma injectErrors_no_flip:
  assumes "valid_rng g" and "rate \<le> 0"
  shows "fst (injectErrors c rate g) = c"
proof -
  have all: "valid_rng g \<Longrightarrow> fst (injectErrors c rate g) = c" for g
  proof (induction c arbitrary: g)
    case (Cons b bs)
    then have "\<not> draws g (cursor g) < rate" and "valid_rng (g\<lparr>cursor := Suc (cursor g)\<rparr>)"
      using assms(2) by (auto simp: valid_rng_def not_less intro: order_trans)
    with Cons.IH show ?case
      by (simp add: next_random_def case_prod_beta)
  qed simp
  from all [OF assms(1)] show ?thesis .
qed

lemma correct_at_valid:
  assumes "validateCodeword c" and "-1 \<le> p" and "p < 7"
  shows "validateCodeword (correct_at c (p \<noteq> -1) (Some p))"
proof (cases "p = -1")
  case False
  with assms(2,3) have "nat p < 7" by simp
  with assms(1) have "is_bit (c ! nat p)"
    by (simp add: validateCodeword_def bits_of_length_nth)
  with assms(1) False show ?thesis
    by (simp add: correct_at_def validateCodeword_def bits_of_length_update is_bit_flip)
qed (simp add: correct_at_def assms(1))

lemma data_positions_valid:
  "validateCodeword cc \<Longrightarrow> validateDataBits [cc ! 2, cc ! 4, cc ! 5, cc ! 6]"
  by (simp add: validateCodeword_def validateDataBits_def bits_of_length_nth numeral_eq_Suc)

lemma decode_data_valid:
  assumes "validateCodeword c"
  shows "\<exists>r. decode c = Inr r \<and> validateDataBits (dataBits r)"
proof -
  obtain p where p: "syndromeToErrorPosition (syndromeToInteger (calculateSyndrome c)) = Some p"
    and range: "-1 \<le> p" "p < 7"
    using position_table_total [OF syndrome_bits_valid [OF assms]] by blast
  with assms show ?thesis
    using data_positions_valid [OF correct_at_valid [OF assms range]]
    by (simp add: decode_def Let_def)
qed

section \<open>Distances, the codebook, noise\<close>

lemma hammingDistance_xor:
  assumes "length w1 = length w2"
  shows "hammingDistance w1 w2 = length (filter (\<lambda>x. x \<noteq> 0) (map2 (XOR) w1 w2))"
proof -
  have "hammingDistance w1 w2 = card {i. i < length w1 \<and> w1 ! i \<noteq> w2 ! i}"
    using assms
    by (auto simp: hammingDistance_def length_filter_conv_card intro!: arg_cong [where f = card])
  also have "\<dots> = length (filter (\<lambda>x. x \<noteq> 0) (map2 (XOR) w1 w2))"
    using assms
    by (auto simp: length_filter_conv_card xor_eq_0_iff intro!: arg_cong [where f = card])
  finally show ?thesis .
qed

lemma all_data_words_list:
  "all_data_words =
     [[0, 0, 0, 0], [0, 0, 0, 1], [0, 0, 1, 0], [0, 0, 1, 1], [0, 1, 0, 0], [0, 1, 0, 1],
      [0, 1, 1, 0], [0, 1, 1, 1], [1, 0, 0, 0], [1, 0, 0, 1], [1, 0, 1, 0], [1, 0, 1, 1],
      [1, 1, 0, 0], [1, 1, 0, 1], [1, 1, 1, 0], [1, 1, 1, 1]]"
  by (simp add: all_data_words_def)

lemma all_data_words_valid: "d \<in> set all_data_words \<longleftrightarrow> validateDataBits d"
proof
  have "list_all validateDataBits all_data_words"
    by (simp add: all_data_words_list validateDataBits_def bits_of_length_def is_bit_def)
  then show "d \<in> set all_data_words \<Longrightarrow> validateDataBits d"
    by (simp add: list_all_iff)
next
  assume "validateDataBits d"
  then obtain a b c e where "d = [a, b, c, e]" "is_bit a" "is_bit b" "is_bit c" "is_bit e"
    unfolding validateDataBits_def by (rule bits_of_length_4_cases)
  then show "d \<in> set all_data_words"
    unfolding is_bit_def all_data_words_list by (elim disjE) simp_all
qed

lemma codebook_inputs:
  obtains cb where "generateCodebook = Inr cb" and "map input cb = all_data_words"
proof -
  have "case generateCodebook of Inl _ \<Rightarrow> False | Inr cb \<Rightarrow> map input cb = all_data_words"
    by code_simp
  then show ?thesis using that by (auto split: sum.splits)
qed

lemma codebook_encoded:
  "generateCodebook = Inr cb \<Longrightarrow> list_all (\<lambda>e. encode (input e) = Inr (codeword e)) cb"
proof -
  have "codebook_from is = Inr cb \<Longrightarrow> list_all (\<lambda>e. encode (input e) = Inr (codeword e)) cb" for "is"
    by (induction "is" arbitrary: cb) (auto split: sum.splits)
  then show "generateCodebook = Inr cb \<Longrightarrow> ?thesis" by (simp add: generateCodebook_def)
qed

lemma injectErrors_cursor [simp]:
  "snd (injectErrors c rate g) = g\<lparr>cursor := cursor g + length c\<rparr>"
  by (induction c arbitrary: g) (simp_all add: next_random_def case_prod_beta)

lemma min_distance_3: "calculateMinimumDistance = Inr 3"
  by code_simp

section \<open>Properties\<close>

text \<open>
  C1. Round trip: encoding a well-formed data word and decoding the codeword
  gives the data word back, with no error detected, the codeword unchanged,
  position \<open>-1\<close> and syndrome zero.
\<close>

theorem decode_encode_roundtrip:
  assumes "validateDataBits d"
  shows "\<exists>c. encode d = Inr c \<and>
           decode c = Inr \<lparr>dataBits = d, correctedCodeword = c, errorDetected = False,
                            errorPosition = Some (-1), syndrome = [0, 0, 0], syndromeValue = 0\<rparr>"
proof -
  from assms obtain a b c' e where enc: "encode d = Inr [(a XOR b) XOR e, (a XOR c') XOR e, a,
      (b XOR c') XOR e, b, c', e]"
    by (rule encode_cases)
  let ?c = "[(a XOR b) XOR e, (a XOR c') XOR e, a, (b XOR c') XOR e, b, c', e]"
  from encode_valid [OF assms enc] decode_clean [of ?c] show ?thesis
    by (simp add: enc)
qed

theorem decode_encode_roundtrip_witness:
  "\<exists>c. encode [1, 0, 1, 1] = Inr c \<and>
     decode c = Inr \<lparr>dataBits = [1, 0, 1, 1], correctedCodeword = c, errorDetected = False,
                      errorPosition = Some (-1), syndrome = [0, 0, 0], syndromeValue = 0\<rparr>"
  by (rule decode_encode_roundtrip) (simp add: validateDataBits_def is_bit_def numeral_eq_Suc)

text \<open>
  C2. Single-error correction: flipping any one of the seven bits of a valid
  codeword and decoding recovers the data word, reports the error, names the
  flipped index (syndrome value = index + 1) and restores the codeword.
\<close>

theorem decode_single_error:
  assumes "validateDataBits d" and "encode d = Inr c" and "p < 7"
  shows "decode (c[p := c ! p XOR 1]) =
           Inr \<lparr>dataBits = d, correctedCodeword = c, errorDetected = True,
                errorPosition = Some (int p), syndrome = column p, syndromeValue = int p + 1\<rparr>"
  using decode_flipped [OF encode_valid(1,2) [OF assms(1,2)] assms(3)]
    encode_valid(3) [OF assms(1,2)]
  by simp

theorem decode_single_error_witness:
  "decode ([0, 1, 1, 0, 0, 1, 1][4 := [0, 1, 1, 0, 0, 1, 1] ! 4 XOR 1]) =
     Inr \<lparr>dataBits = [1, 0, 1, 1], correctedCodeword = [0, 1, 1, 0, 0, 1, 1], errorDetected = True,
          errorPosition = Some 4, syndrome = column 4, syndromeValue = 5\<rparr>"
proof -
  have v: "validateDataBits [1, 0, 1, 1]"
    by (simp add: validateDataBits_def is_bit_def numeral_eq_Suc)
  have e: "encode [1, 0, 1, 1] = Inr [0, 1, 1, 0, 0, 1, 1]"
    by (simp add: encode_bits is_bit_def)
  show ?thesis
    using decode_single_error [OF v e, of 4] by simp
qed

text \<open>
  C3. Minimum distance: the codewords of two different well-formed data words
  differ in at least three positions.
\<close>

theorem codewords_distance:
  assumes "validateDataBits d1" and "validateDataBits d2" and "d1 \<noteq> d2"
    and "encode d1 = Inr c1" and "encode d2 = Inr c2"
  shows "3 \<le> hammingDistance c1 c2"
proof -
  from assms(1) obtain a b c e where d1: "d1 = [a, b, c, e]"
    and bits1: "is_bit a" "is_bit b" "is_bit c" "is_bit e"
    and enc1: "encode d1 = Inr [(a XOR b) XOR e, (a XOR c) XOR e, a, (b XOR c) XOR e, b, c, e]"
    by (rule encode_cases)
  from assms(2) obtain a' b' c' e' where d2: "d2 = [a', b', c', e']"
    and bits2: "is_bit a'" "is_bit b'" "is_bit c'" "is_bit e'"
    and enc2: "encode d2 = Inr [(a' XOR b') XOR e', (a' XOR c') XOR e', a', (b' XOR c') XOR e',
      b', c', e']"
    by (rule encode_cases)
  obtain u v w x where uvwx: "is_bit u" "is_bit v" "is_bit w" "is_bit x"
    and a': "a' = a XOR u" and b': "b' = b XOR v" and c': "c' = c XOR w" and e': "e' = e XOR x"
    using is_bit_xor_witness bits1 bits2 by metis
  have nz: "\<not> (u = 0 \<and> v = 0 \<and> w = 0 \<and> x = 0)"
    using assms(3) unfolding d1 d2 a' b' c' e' by auto
  from assms(4) enc1 have c1: "c1 = [(a XOR b) XOR e, (a XOR c) XOR e, a, (b XOR c) XOR e, b, c, e]"
    by simp
  from assms(5) enc2 have c2: "c2 = [(a' XOR b') XOR e', (a' XOR c') XOR e', a',
      (b' XOR c') XOR e', b', c', e']"
    by simp
  have diff: "map2 (XOR) c1 c2 = [(u XOR v) XOR x, (u XOR w) XOR x, u, (v XOR w) XOR x, v, w, x]"
    unfolding c1 c2 a' b' c' e' by (simp add: xor_ac xor_cancel)
  have "hammingDistance c1 c2 = length (filter (\<lambda>x. x \<noteq> 0)
      [(u XOR v) XOR x, (u XOR w) XOR x, u, (v XOR w) XOR x, v, w, x])"
    using hammingDistance_xor [of c1 c2] diff by (simp add: c1 c2)
  also have "\<dots> \<ge> 3"
    using uvwx nz by (auto simp: is_bit_def)
  finally show ?thesis .
qed

theorem codewords_distance_witness:
  "3 \<le> hammingDistance [0, 0, 0, 0, 0, 0, 0] [1, 1, 1, 0, 0, 0, 0]"
proof -
  have v0: "validateDataBits [0, 0, 0, 0]" and v1: "validateDataBits [1, 0, 0, 0]"
    by (simp_all add: validateDataBits_def is_bit_def numeral_eq_Suc)
  have e0: "encode [0, 0, 0, 0] = Inr [0, 0, 0, 0, 0, 0, 0]"
    and e1: "encode [1, 0, 0, 0] = Inr [1, 1, 1, 0, 0, 0, 0]"
    by (simp_all add: encode_bits is_bit_def)
  show ?thesis
    using codewords_distance [OF v0 v1 _ e0 e1] by simp
qed

text \<open>
  C4. Input errors: \<open>encode\<close> throws \<open>InvalidInput\<close> exactly when its
  argument is not a list of four numbers each 0 or 1, and otherwise returns
  seven bits; \<open>decode\<close> throws exactly when its argument is not seven
  numbers each 0 or 1.
\<close>

theorem encode_decode_reject:
  "(case encode d of
      Inl e \<Rightarrow> e = InvalidInput \<and> \<not> (length d = 4 \<and> list_all (\<lambda>x. x = 0 \<or> x = 1) d)
    | Inr cw \<Rightarrow> length d = 4 \<and> list_all (\<lambda>x. x = 0 \<or> x = 1) d \<and> length cw = 7) \<and>
   (case decode c of
      Inl e \<Rightarrow> e = InvalidInput \<and> \<not> (length c = 7 \<and> list_all (\<lambda>x. x = 0 \<or> x = 1) c)
    | Inr r \<Rightarrow> length c = 7 \<and> list_all (\<lambda>x. x = 0 \<or> x = 1) c)"
  by (simp add: encode_def decode_def Let_def validity_defs bits_of_length_def is_bit_def [abs_def]
      split: sum.splits)

text \<open>
  C5. Output well-formedness: on a well-formed codeword \<open>decode\<close> always
  succeeds, reads a defined table entry, returns four 0/1 data bits and a
  well-formed corrected codeword, and reports an error exactly when the
  syndrome is non-zero.
\<close>

theorem decode_valid_output:
  assumes "validateCodeword c"
  shows "\<exists>r. decode c = Inr r \<and> validateDataBits (dataBits r) \<and>
           validateCodeword (correctedCodeword r) \<and> errorPosition r \<noteq> None \<and>
           (errorDetected r \<longleftrightarrow> syndrome r \<noteq> [0, 0, 0])"
proof -
  obtain p where p: "syndromeToErrorPosition (syndromeToInteger (calculateSyndrome c)) = Some p"
    and range: "-1 \<le> p" "p < 7" and none: "p = -1 \<longleftrightarrow> calculateSyndrome c = [0, 0, 0]"
    using position_table_total [OF syndrome_bits_valid [OF assms]] by blast
  have cc: "validateCodeword (correct_at c (p \<noteq> -1) (Some p))"
    by (rule correct_at_valid [OF assms range])
  with assms p none show ?thesis
    using data_positions_valid [OF cc] by (simp add: decode_def Let_def)
qed

theorem decode_valid_output_witness:
  "\<exists>r. decode [1, 1, 1, 1, 1, 1, 0] = Inr r \<and> validateDataBits (dataBits r) \<and>
     validateCodeword (correctedCodeword r) \<and> errorPosition r \<noteq> None \<and>
     (errorDetected r \<longleftrightarrow> syndrome r \<noteq> [0, 0, 0])"
  by (rule decode_valid_output) (simp add: validateCodeword_def is_bit_def numeral_eq_Suc)

text \<open>
  Noise injection reads one draw per bit, in index order, and flips bit
  \<open>i\<close> exactly when its draw is below the rate; the source advances by the
  length of the codeword.
\<close>

theorem injectErrors_draws:
  "injectErrors c rate g =
     (map (\<lambda>(b, i). if draws g i < rate then b XOR 1 else b) (zip c [cursor g..<cursor g + length c]),
      g\<lparr>cursor := cursor g + length c\<rparr>)"
proof (induction c arbitrary: g)
  case Nil
  then show ?case by simp
next
  case (Cons b bs)
  from Cons.IH [of "g\<lparr>cursor := Suc (cursor g)\<rparr>"] show ?case
    by (simp del: upt_Suc add: next_random_def upt_Suc_Cons)
qed

text \<open>
  Extreme rates: with draws in [0, 1), a rate of at most 0 leaves the
  codeword unchanged and a rate of at least 1 flips every bit. Neither case
  raises: the rate is never validated.
\<close>

theorem injectErrors_extreme_rates:
  assumes "valid_rng g"
  shows "(rate \<le> 0 \<longrightarrow> fst (injectErrors c rate g) = c) \<and>
         (1 \<le> rate \<longrightarrow> fst (injectErrors c rate g) = map (\<lambda>b. b XOR 1) c)"
proof -
  have draw: "0 \<le> draws g i \<and> draws g i < 1" for i
    using assms by (simp add: valid_rng_def)
  let ?flips = "\<lambda>k c. map (\<lambda>(b, i). if draws g i < rate then b XOR 1 else b) (zip c [k..<k + length c])"
  have low: "rate \<le> 0 \<Longrightarrow> ?flips k c = c" for k
  proof (induction c arbitrary: k)
    case (Cons b bs)
    with Cons.IH [of "Suc k"] draw [of k] show ?case by (simp del: upt_Suc add: upt_Suc_Cons)
  qed simp
  have high: "1 \<le> rate \<Longrightarrow> ?flips k c = map (\<lambda>b. b XOR 1) c" for k
  proof (induction c arbitrary: k)
    case (Cons b bs)
    with Cons.IH [of "Suc k"] draw [of k] show ?case by (simp del: upt_Suc add: upt_Suc_Cons)
  qed simp
  show ?thesis
    using low high by (simp add: injectErrors_draws)
qed

theorem injectErrors_extreme_rates_witness:
  "fst (injectErrors [1, 0, 1] 0 (const_rng (1 / 2))) = [1, 0, 1] \<and>
   fst (injectErrors [1, 0, 1] (3 / 2) (const_rng (1 / 2))) = [0, 1, 0]"
  using injectErrors_extreme_rates [OF valid_const_rng [of "1 / 2"], of 0 "[1, 0, 1]"]
    injectErrors_extreme_rates [OF valid_const_rng [of "1 / 2"], of "3 / 2" "[1, 0, 1]"]
  by simp

text \<open>
  C6. Double errors are detected: flipping two different bits of a valid
  codeword always yields a non-zero syndrome (the XOR of the two columns),
  so \<open>decode\<close> reports an error.
\<close>

theorem decode_double_error_detected:
  assumes "validateDataBits d" and "encode d = Inr c" and "p < 7" and "q < 7" and "p \<noteq> q"
  shows "\<exists>r. decode (c[q := c ! q XOR 1, p := c ! p XOR 1]) = Inr r \<and> errorDetected r \<and>
           syndrome r = map2 (XOR) (column q) (column p)"
proof -
  have v: "validateCodeword c" and z: "calculateSyndrome c = [0, 0, 0]"
    using encode_valid [OF assms(1,2)] by simp_all
  let ?c1 = "c[q := c ! q XOR 1]"
  have len: "length c = 7" using v by (simp add: validateCodeword_def bits_of_length_def)
  have bq: "is_bit (c ! q)" and bp: "is_bit (c ! p)"
    using v assms(3,4) by (simp_all add: validateCodeword_def bits_of_length_nth)
  have v1: "validateCodeword ?c1"
    using v bq by (simp add: validateCodeword_def bits_of_length_update is_bit_flip)
  have s1: "calculateSyndrome ?c1 = column q"
    using syndrome_flip [OF len assms(4)] z by (simp add: column_def parityCheckMatrix_def)
  have nth1: "?c1 ! p = c ! p"
    using assms(5) by simp
  have "calculateSyndrome (?c1[p := ?c1 ! p XOR 1]) = map2 (XOR) (column q) (column p)"
    using syndrome_flip [of ?c1 p] len assms(3) s1 by simp
  moreover have "map2 (XOR) (column q) (column p) \<noteq> [0, 0, 0]"
    using assms(3,4,5)
    by (auto dest!: less_7_cases simp: column_def parityCheckMatrix_def)
  moreover have "validateCodeword (?c1[p := ?c1 ! p XOR 1])"
    using v1 bp nth1 by (simp add: validateCodeword_def bits_of_length_update is_bit_flip)
  ultimately show ?thesis
    using position_table_total [OF syndrome_bits_valid [of "?c1[p := ?c1 ! p XOR 1]"]] nth1
    by (auto simp: decode_def Let_def)
qed

theorem decode_double_error_detected_witness:
  "\<exists>r. decode ([0, 0, 0, 0, 0, 0, 0][1 := 1, 0 := 1]) = Inr r \<and> errorDetected r \<and>
     syndrome r = map2 (XOR) (column 1) (column 0)"
proof -
  have v: "validateDataBits [0, 0, 0, 0]"
    by (simp add: validateDataBits_def is_bit_def numeral_eq_Suc)
  have e: "encode [0, 0, 0, 0] = Inr [0, 0, 0, 0, 0, 0, 0]"
    by (simp add: encode_bits is_bit_def)
  show ?thesis
    using decode_double_error_detected [OF v e, of 0 1] by simp
qed

text \<open>
  Double errors are not corrected: two flipped bits can make
  \<open>decode\<close> "correct" a third bit and return the wrong data word while
  claiming success (the accepted limitation of a distance-3 code).
\<close>

theorem decode_double_error_miscorrects:
  "encode [0, 0, 0, 0] = Inr [0, 0, 0, 0, 0, 0, 0] \<and>
   (\<exists>r. decode [1, 1, 0, 0, 0, 0, 0] = Inr r \<and> errorDetected r \<and>
        errorPosition r = Some 2 \<and> dataBits r = [1, 0, 0, 0])"
  by (simp add: hamming_defs bits_of_length_def is_bit_def)

text \<open>
  The advertised code properties agree with the code: the computed
  minimum distance is the advertised one, the codebook has the advertised
  number of distinct codewords of the advertised lengths, lists every
  well-formed data word exactly once, and the capabilities and rate follow
  from distance and lengths.
\<close>

theorem code_properties_consistent:
  "calculateMinimumDistance = Inr (enat (minimumDistance getCodeProperties)) \<and>
   (\<exists>cb. generateCodebook = Inr cb \<and> length cb = totalCodewords getCodeProperties \<and>
        distinct (map codeword cb) \<and> distinct (map input cb) \<and>
        set (map input cb) = {d. validateDataBits d} \<and>
        list_all (\<lambda>e. length (codeword e) = cp_n getCodeProperties \<and>
                      encode (input e) = Inr (codeword e)) cb) \<and>
   errorCorrectionCapability getCodeProperties = (minimumDistance getCodeProperties - 1) div 2 \<and>
   errorDetectionCapability getCodeProperties = minimumDistance getCodeProperties - 1 \<and>
   cp_r getCodeProperties = cp_n getCodeProperties - cp_k getCodeProperties \<and>
   codeRate getCodeProperties = real (cp_k getCodeProperties) / real (cp_n getCodeProperties)"
proof -
  obtain cb where cb: "generateCodebook = Inr cb" and inputs: "map input cb = all_data_words"
    by (rule codebook_inputs)
  have "case generateCodebook of Inl _ \<Rightarrow> False
          | Inr cb \<Rightarrow> distinct (map codeword cb) \<and> list_all (\<lambda>e. length (codeword e) = 7) cb"
    by code_simp
  then have dist: "distinct (map codeword cb)" and lens: "list_all (\<lambda>e. length (codeword e) = 7) cb"
    unfolding cb by simp_all
  have "length cb = 16"
    using arg_cong [OF inputs, of length] by (simp add: all_data_words_list)
  moreover have "set (map input cb) = {d. validateDataBits d}"
    using inputs all_data_words_valid by auto
  moreover have "distinct (map input cb)"
    using inputs by (simp add: all_data_words_list)
  moreover have "list_all (\<lambda>e. length (codeword e) = 7 \<and> encode (input e) = Inr (codeword e)) cb"
    using lens codebook_encoded [OF cb] by (simp add: list_all_iff)
  ultimately show ?thesis
    using cb dist
    by (simp add: getCodeProperties_def numeral_eq_enat min_distance_3) (rule exI [of _ cb], simp)
qed

end
