(* ===== verification/UtilsMath.thy ===== *)
theory UtilsMath
  imports Hamming
begin

text \<open>
  The numeric helpers of \<open>RetrocausalUtils.math\<close> (\<open>src/js/utils.js\<close>,
  lines 24-171): entropy, the checked Hamming distance, mutual information,
  random bit arrays, the binomial coefficient and the exponential moving
  average. JavaScript numbers are modelled as exact reals (\<open>Math.log2\<close> is
  \<open>log 2\<close>, \<open>Math.round\<close> is \<open>round\<close>, both \<open>floor (x + 1/2)\<close>); the
  \<open>Array.isArray\<close> guards have no counterpart because the model's arguments are
  lists by type.
\<close>

text \<open>\<open>vonNeumannEntropy\<close>: \<open>-\<Sum> \<lambda> log2 \<lambda>\<close> over the positive eigenvalues.\<close>

definition vonNeumannEntropy :: "real list \<Rightarrow> real" where
  "vonNeumannEntropy eigenvalues =
     foldl (\<lambda>entropy lambda. if lambda > 0 then entropy - lambda * log 2 lambda else entropy)
       0 eigenvalues"

text \<open>
  \<open>math.hammingDistance\<close>: unlike the engine's method of the same name
  (\<open>Hamming.hammingDistance\<close>) it rejects arrays of different lengths.
\<close>

definition hammingDistance_utils :: "int list \<Rightarrow> int list \<Rightarrow> error + nat" where
  "hammingDistance_utils bits1 bits2 =
     (if length bits1 \<noteq> length bits2 then Inl InvalidInput
      else Inr (foldl (\<lambda>distance i. if bits1 ! i \<noteq> bits2 ! i then Suc distance else distance)
                  0 [0..<length bits1]))"

text \<open>
  \<open>mutualInformation(jointProb)\<close>: the marginals are the row and column sums of
  the \<open>rows \<times> cols\<close> matrix (\<open>cols\<close> read from the first row), then the
  double loop adds \<open>pxy log2 (pxy / (px py))\<close> over the cells where all three
  are positive. A row shorter than the first reads \<open>undefined\<close> in the source
  (a \<open>NaN\<close> result); the model's lemmas assume a rectangular matrix.
\<close>

definition mutualInformation :: "real list list \<Rightarrow> real" where
  "mutualInformation jointProb =
     (if jointProb = [] then 0
      else let rows = length jointProb; cols = length (jointProb ! 0);
               marginalX = map (\<lambda>i. foldl (\<lambda>acc j. acc + jointProb ! i ! j) 0 [0..<cols]) [0..<rows];
               marginalY = map (\<lambda>j. foldl (\<lambda>acc i. acc + jointProb ! i ! j) 0 [0..<rows]) [0..<cols]
           in foldl (\<lambda>mutualInfo (i, j).
                       let pxy = jointProb ! i ! j; px = marginalX ! i; py = marginalY ! j
                       in if pxy > 0 \<and> px > 0 \<and> py > 0
                          then mutualInfo + pxy * log 2 (pxy / (px * py)) else mutualInfo)
                0 (List.product [0..<rows] [0..<cols]))"

text \<open>
  \<open>randomBits(length, probability)\<close>: \<open>Array.from\<close> calls its generator once per
  index in increasing order, each call drawing once.
\<close>

fun randomBits :: "nat \<Rightarrow> real \<Rightarrow> rng \<Rightarrow> int list \<times> rng" where
  "randomBits 0 probability g = ([], g)"
| "randomBits (Suc n) probability g =
     (case next_random g of
        (r, g1) \<Rightarrow> (case randomBits n probability g1 of
                      (bs, g2) \<Rightarrow> ((if r < probability then 1 else 0) # bs, g2)))"

text \<open>
  \<open>binomialCoefficient(n, k)\<close>: the range guards, the symmetry step
  \<open>k := n - k\<close>, then the product loop \<open>result *= (n - i); result /= (i + 1)\<close>
  and a final \<open>Math.round\<close>. The loop runs on exact reals here; the doubles
  of the source agree with it only while every intermediate product stays an
  exact integer below \<open>2^53\<close>, and overflow to \<open>Infinity\<close> for large \<open>n\<close>,
  so the exact result below (\<open>binomialCoefficient_in_range\<close>) holds of the
  model and not of every call of the program.
\<close>

definition binom_loop :: "int \<Rightarrow> int \<Rightarrow> real" where
  "binom_loop n k =
     foldl (\<lambda>result i. result * of_int (n - int i) / of_int (int i + 1)) 1 [0..<nat k]"

definition binomialCoefficient :: "int \<Rightarrow> int \<Rightarrow> int" where
  "binomialCoefficient n k =
     (if k > n \<or> k < 0 then 0
      else if k = 0 \<or> k = n then 1
      else let k' = (if k > n - k then n - k else k) in round (binom_loop n k'))"

text \<open>
  \<open>exponentialMovingAverage(values, alpha)\<close>: the first value is kept, every
  later one is \<open>alpha * v + (1 - alpha) * previous\<close>.
\<close>

fun ema_from :: "real \<Rightarrow> real \<Rightarrow> real list \<Rightarrow> real list" where
  "ema_from alpha prev [] = []"
| "ema_from alpha prev (v # vs) =
     (let ema = alpha * v + (1 - alpha) * prev in ema # ema_from alpha ema vs)"

definition exponentialMovingAverage :: "real list \<Rightarrow> real \<Rightarrow> real list" where
  "exponentialMovingAverage values alpha =
     (case values of [] \<Rightarrow> [] | v # vs \<Rightarrow> v # ema_from alpha v vs)"

section \<open>Lemmas\<close>

subsection \<open>Entropy terms\<close>

lemma entropy_term_nonpos: "0 < l \<Longrightarrow> l \<le> (1::real) \<Longrightarrow> l * log 2 l \<le> 0"
  by (simp add: mult_nonneg_nonpos)

lemma entropy_loop_mono:
  "\<forall>l\<in>set ls. l \<le> 1 \<Longrightarrow>
   e0 \<le> foldl (\<lambda>entropy lambda. if lambda > 0 then entropy - lambda * log 2 lambda else entropy) e0 ls"
proof (induction ls arbitrary: e0)
  case Nil
  then show ?case by simp
next
  case (Cons l ls)
  define e1 where "e1 = (if l > 0 then e0 - l * log 2 l else e0)"
  have "e0 \<le> e1" using entropy_term_nonpos [of l] Cons.prems by (simp add: e1_def)
  also have "e1 \<le> foldl (\<lambda>entropy lambda. if lambda > 0 then entropy - lambda * log 2 lambda else entropy) e1 ls"
    using Cons by simp
  finally show ?case by (simp add: e1_def)
qed

subsection \<open>Sums along the loops\<close>

lemma foldl_add_scaled:
  "foldl (\<lambda>acc j. acc + f j) a0 xs = a0 + sum_list (map f xs)"
  by (induction xs arbitrary: a0) (simp_all add: algebra_simps)

lemma sum_list_scale:
  "sum_list (map (\<lambda>x. c * x) xs) = c * sum_list (xs :: real list)"
  "sum_list (map (\<lambda>x. x * c) xs) = sum_list xs * c"
  by (induction xs) (simp_all add: algebra_simps)

lemma sum_list_upt_nth:
  "sum_list (map (\<lambda>j. c * (q ! j)) [0..<length q]) = c * sum_list (q :: real list)"
  "sum_list (map (\<lambda>j. (q ! j) * c) [0..<length q]) = sum_list q * c"
proof -
  have "map (\<lambda>j. c * (q ! j)) [0..<length q] = map (\<lambda>x. c * x) q"
       "map (\<lambda>j. (q ! j) * c) [0..<length q] = map (\<lambda>x. x * c) q"
    by (rule nth_equalityI; simp)+
  then show "sum_list (map (\<lambda>j. c * (q ! j)) [0..<length q]) = c * sum_list q"
    "sum_list (map (\<lambda>j. (q ! j) * c) [0..<length q]) = sum_list q * c"
    by (simp_all add: sum_list_scale)
qed

lemma foldl_unchanged: "\<forall>x\<in>set xs. \<forall>m. f m x = m \<Longrightarrow> foldl f m0 xs = m0"
  by (induction xs arbitrary: m0) simp_all

text \<open>The marginals of a product distribution are its factors.\<close>

lemma product_marginals:
  fixes p q :: "real list"
  assumes "sum_list p = 1" "sum_list q = 1"
  shows "i < length p \<Longrightarrow>
           foldl (\<lambda>acc j. acc + map (\<lambda>pi. map (\<lambda>qj. pi * qj) q) p ! i ! j) 0 [0..<length q] = p ! i"
    and "j < length q \<Longrightarrow>
           foldl (\<lambda>acc i. acc + map (\<lambda>pi. map (\<lambda>qj. pi * qj) q) p ! i ! j) 0 [0..<length p] = q ! j"
proof -
  assume i: "i < length p"
  have eq: "map (\<lambda>j. map (\<lambda>pi. map (\<lambda>qj. pi * qj) q) p ! i ! j) [0..<length q]
              = map (\<lambda>j. p ! i * q ! j) [0..<length q]"
    using i by simp
  show "foldl (\<lambda>acc j. acc + map (\<lambda>pi. map (\<lambda>qj. pi * qj) q) p ! i ! j) 0 [0..<length q] = p ! i"
    unfolding foldl_add_scaled eq sum_list_upt_nth using assms by simp
next
  assume j: "j < length q"
  have eq: "map (\<lambda>i. map (\<lambda>pi. map (\<lambda>qj. pi * qj) q) p ! i ! j) [0..<length p]
              = map (\<lambda>i. p ! i * q ! j) [0..<length p]"
    using j by simp
  show "foldl (\<lambda>acc i. acc + map (\<lambda>pi. map (\<lambda>qj. pi * qj) q) p ! i ! j) 0 [0..<length p] = q ! j"
    unfolding foldl_add_scaled eq sum_list_upt_nth using assms by simp
qed

subsection \<open>Counting differences\<close>

text \<open>The distance loop counts the differing indices.\<close>

lemma count_loop:
  "foldl (\<lambda>d i. if P i then Suc d else d) d0 xs = d0 + length (filter P xs)"
  by (induction xs arbitrary: d0) auto

lemma diff_count_card:
  "length (filter P [0..<n]) = card {i. i < n \<and> P i}"
proof -
  have "length (filter P [0..<n]) = card (set (filter P [0..<n]))"
    by (simp add: distinct_card [symmetric])
  also have "set (filter P [0..<n]) = {i. i < n \<and> P i}" by auto
  finally show ?thesis .
qed

lemma hammingDistance_utils_card:
  "length a = length b \<Longrightarrow>
   hammingDistance_utils a b = Inr (card {i. i < length a \<and> a ! i \<noteq> b ! i})"
  by (simp add: hammingDistance_utils_def count_loop diff_count_card)

lemma card_diff_sym: "card {i. i < n \<and> a ! i \<noteq> b ! i} = card {i. i < n \<and> b ! i \<noteq> a ! i}"
  by (rule arg_cong [where f = card]) auto

lemma card_diff_zero:
  "length a = n \<Longrightarrow> length b = n \<Longrightarrow> card {i. i < n \<and> a ! i \<noteq> b ! i} = 0 \<longleftrightarrow> a = b"
  by (auto simp: nth_equalityI)

lemma card_diff_triangle:
  "card {i. i < n \<and> a ! i \<noteq> c ! i}
     \<le> card {i. i < n \<and> a ! i \<noteq> b ! i} + card {i. i < n \<and> b ! i \<noteq> c ! i}"
proof -
  have "{i. i < n \<and> a ! i \<noteq> c ! i} \<subseteq> {i. i < n \<and> a ! i \<noteq> b ! i} \<union> {i. i < n \<and> b ! i \<noteq> c ! i}"
    by auto
  then have "card {i. i < n \<and> a ! i \<noteq> c ! i}
               \<le> card ({i. i < n \<and> a ! i \<noteq> b ! i} \<union> {i. i < n \<and> b ! i \<noteq> c ! i})"
    by (rule card_mono [rotated]) simp
  also have "\<dots> \<le> card {i. i < n \<and> a ! i \<noteq> b ! i} + card {i. i < n \<and> b ! i \<noteq> c ! i}"
    by (rule card_Un_le)
  finally show ?thesis .
qed

lemma hammingDistance_card:
  "length a = length b \<Longrightarrow>
   Hamming.hammingDistance a b = card {i. i < length a \<and> a ! i \<noteq> b ! i}"
proof -
  assume len: "length a = length b"
  have "filter (\<lambda>i. length b \<le> i \<or> a ! i \<noteq> b ! i) [0..<length a]
          = filter (\<lambda>i. a ! i \<noteq> b ! i) [0..<length a]"
    using len by (intro filter_cong) auto
  then show ?thesis by (simp add: hammingDistance_def diff_count_card)
qed

subsection \<open>The binomial loop\<close>

lemma choose_step_real:
  "m < N \<Longrightarrow> real (N choose m) * real (N - m) / real (Suc m) = real (N choose Suc m)"
proof -
  assume "m < N"
  have "Suc m * (N choose Suc m) = (N - m) * (N choose m)"
    by (simp only: binomial_absorption binomial_absorb_comp)
  then have "real (Suc m) * real (N choose Suc m) = real (N - m) * real (N choose m)"
    by (metis of_nat_mult)
  then show ?thesis
    by (simp add: field_simps del: of_nat_Suc)
qed

lemma binom_loop_upto:
  "m \<le> N \<Longrightarrow>
   foldl (\<lambda>result i. result * of_int (int N - int i) / of_int (int i + 1)) 1 [0..<m]
     = real (N choose m)"
proof (induction m)
  case 0
  then show ?case by simp
next
  case (Suc m)
  then have "m < N" by simp
  then have "of_int (int N - int m) = real (N - m)" by (simp add: of_nat_diff)
  with Suc show ?case
    using choose_step_real [OF \<open>m < N\<close>] by (simp add: add.commute)
qed

lemma binom_loop_choose:
  "0 \<le> k \<Longrightarrow> k \<le> n \<Longrightarrow> binom_loop n k = real (nat n choose nat k)"
  using binom_loop_upto [of "nat k" "nat n"] by (simp add: binom_loop_def)

subsection \<open>Moving average\<close>

lemma convex_bounds:
  fixes a x y lo hi :: real
  assumes "0 \<le> a" "a \<le> 1" "lo \<le> x" "x \<le> hi" "lo \<le> y" "y \<le> hi"
  shows "lo \<le> a * x + (1 - a) * y \<and> a * x + (1 - a) * y \<le> hi"
proof
  have "a * lo \<le> a * x" "(1 - a) * lo \<le> (1 - a) * y"
    using assms by (simp_all add: mult_left_mono)
  then show "lo \<le> a * x + (1 - a) * y" by (simp add: algebra_simps)
next
  have "a * x \<le> a * hi" "(1 - a) * y \<le> (1 - a) * hi"
    using assms by (simp_all add: mult_left_mono)
  then show "a * x + (1 - a) * y \<le> hi" by (simp add: algebra_simps)
qed

lemma ema_from_length [simp]: "length (ema_from alpha prev vs) = length vs"
  by (induction vs arbitrary: prev) (simp_all add: Let_def)

lemma ema_from_bounds:
  "0 \<le> alpha \<Longrightarrow> alpha \<le> 1 \<Longrightarrow> lo \<le> prev \<Longrightarrow> prev \<le> hi \<Longrightarrow>
   \<forall>v\<in>set vs. lo \<le> v \<and> v \<le> hi \<Longrightarrow> \<forall>e\<in>set (ema_from alpha prev vs). lo \<le> e \<and> e \<le> hi"
proof (induction vs arbitrary: prev)
  case Nil
  then show ?case by simp
next
  case (Cons v vs)
  define e where "e = alpha * v + (1 - alpha) * prev"
  have v: "lo \<le> v" "v \<le> hi" and vs: "\<forall>v\<in>set vs. lo \<le> v \<and> v \<le> hi"
    using Cons.prems(5) by simp_all
  have e: "lo \<le> e \<and> e \<le> hi"
    unfolding e_def using convex_bounds [OF Cons.prems(1,2) v Cons.prems(3,4)] .
  have "\<forall>x\<in>set (ema_from alpha e vs). lo \<le> x \<and> x \<le> hi"
    using e by (intro Cons.IH [OF Cons.prems(1,2) _ _ vs]) simp_all
  with e show ?case by (simp add: e_def [symmetric])
qed

subsection \<open>Random bits\<close>

lemma randomBits_draws:
  "randomBits n p g = (bs, g') \<Longrightarrow>
   length bs = n \<and> draws g' = draws g \<and> cursor g' = cursor g + n \<and>
   (\<forall>i<n. bs ! i = (if draws g (cursor g + i) < p then 1 else 0))"
proof (induction n p g arbitrary: bs g' rule: randomBits.induct)
  case (1 probability g)
  then show ?case by simp
next
  case (2 n probability g)
  obtain bs1 g2 where r: "randomBits n probability (snd (next_random g)) = (bs1, g2)"
    by fastforce
  from "2.prems" r have bs: "bs = (if draws g (cursor g) < probability then 1 else 0) # bs1"
    and g': "g' = g2"
    by (simp_all add: next_random_def split: prod.splits)
  have ih: "length bs1 = n \<and> draws g2 = draws g \<and> cursor g2 = Suc (cursor g) + n \<and>
            (\<forall>i<n. bs1 ! i = (if draws g (Suc (cursor g) + i) < probability then 1 else 0))"
    using "2.IH" [OF prod.collapse r] by (simp add: next_random_def)
  show ?case
  proof (intro conjI allI impI)
    fix i assume "i < Suc n"
    then show "bs ! i = (if draws g (cursor g + i) < probability then 1 else 0)"
      using ih by (cases i) (simp_all add: bs)
  qed (use ih bs g' in simp_all)
qed

lemma randomBits_valid: "bits_of_length n (fst (randomBits n p g))"
proof -
  obtain bs g' where r: "randomBits n p g = (bs, g')" by fastforce
  show ?thesis
    using randomBits_draws [OF r] by (simp add: r bits_of_length_def list_all_length is_bit_def)
qed

lemma round_nat [simp]: "round (real m) = int m"
  by (metis of_int_of_nat_eq round_of_int)

lemma binomialCoefficient_in_range:
  assumes "0 \<le> k" "k \<le> n"
  shows "binomialCoefficient n k = int (nat n choose nat k)"
proof (cases "k = 0 \<or> k = n")
  case True
  then show ?thesis using assms by (auto simp: binomialCoefficient_def)
next
  case False
  define k' where "k' = (if k > n - k then n - k else k)"
  have k': "0 \<le> k'" "k' \<le> n" using assms by (simp_all add: k'_def)
  have sym: "nat n choose nat k' = nat n choose nat k"
  proof (cases "k > n - k")
    case True
    then have "nat k' = nat n - nat k" using assms by (simp add: k'_def nat_diff_distrib)
    then show ?thesis using assms by (simp add: binomial_symmetric [symmetric] nat_le_eq_zle)
  qed (simp add: k'_def)
  have "binomialCoefficient n k = round (binom_loop n k')"
    using assms False by (simp add: binomialCoefficient_def k'_def Let_def)
  also have "\<dots> = int (nat n choose nat k)"
    by (simp add: binom_loop_choose [OF k'] sym)
  finally show ?thesis .
qed

lemma mutualInformation_product:
  fixes p q :: "real list"
  assumes "p \<noteq> []" "q \<noteq> []" "sum_list p = 1" "sum_list q = 1"
  shows "mutualInformation (map (\<lambda>pi. map (\<lambda>qj. pi * qj) q) p) = 0"
proof -
  define J where "J = map (\<lambda>pi. map (\<lambda>qj. pi * qj) q) p"
  have J0: "length (J ! 0) = length q" and J: "J \<noteq> []" and lenJ: "length J = length p"
    using assms(1) by (simp_all add: J_def)
  define mX where "mX = map (\<lambda>i. foldl (\<lambda>acc j. acc + J ! i ! j) 0 [0..<length (J ! 0)]) [0..<length J]"
  define mY where "mY = map (\<lambda>j. foldl (\<lambda>acc i. acc + J ! i ! j) 0 [0..<length J]) [0..<length (J ! 0)]"
  have mX: "i < length p \<Longrightarrow> mX ! i = p ! i" for i
    using product_marginals(1) [OF assms(3,4)] by (simp add: mX_def J0 lenJ) (simp add: J_def)
  have mY: "j < length q \<Longrightarrow> mY ! j = q ! j" for j
    using product_marginals(2) [OF assms(3,4)] by (simp add: mY_def J0 lenJ) (simp add: J_def)
  define f where "f = (\<lambda>m x. case x of (i, j) \<Rightarrow>
      if 0 < J ! i ! j \<and> 0 < mX ! i \<and> 0 < mY ! j
      then m + J ! i ! j * log 2 (J ! i ! j / (mX ! i * mY ! j)) else (m::real))"
  have step: "\<forall>x\<in>set (List.product [0..<length J] [0..<length (J ! 0)]). \<forall>m. f m x = m"
    unfolding J0 lenJ by (auto simp: f_def mX mY J_def)
  have "mutualInformation J = foldl f 0 (List.product [0..<length J] [0..<length (J ! 0)])"
    using J unfolding f_def mutualInformation_def Let_def mX_def mY_def by simp
  also have "\<dots> = 0" by (rule foldl_unchanged [OF step])
  finally show ?thesis by (simp add: J_def)
qed

section \<open>Properties\<close>

text \<open>
  The checked distance of \<open>utils.js\<close> agrees with the engine's
  \<open>hammingDistance\<close> on arrays of equal length and rejects arrays of
  different lengths, where the engine silently counts the missing positions.
\<close>

theorem hammingDistance_utils_engine:
  "hammingDistance_utils a b =
     (if length a = length b then Inr (Hamming.hammingDistance a b) else Inl InvalidInput)"
  by (simp add: hammingDistance_utils_def count_loop diff_count_card hammingDistance_card)

text \<open>
  On arrays of one length the checked distance is a metric: defined,
  symmetric, zero exactly on equal arrays, and it satisfies the triangle
  inequality.
\<close>

theorem hammingDistance_utils_metric:
  assumes "length a = n" "length b = n" "length c = n"
  shows "\<exists>x y z. hammingDistance_utils a b = Inr x \<and> hammingDistance_utils b a = Inr x \<and>
           hammingDistance_utils b c = Inr y \<and> hammingDistance_utils a c = Inr z \<and>
           (x = 0 \<longleftrightarrow> a = b) \<and> z \<le> x + y"
  using assms card_diff_triangle [of n a c b] card_diff_zero [of a n b] card_diff_sym [of n a b]
  by (simp add: hammingDistance_utils_card)

theorem hammingDistance_utils_metric_witness:
  "\<exists>x y z. hammingDistance_utils [0, 1, 1] [1, 1, 0] = Inr x \<and>
     hammingDistance_utils [1, 1, 0] [0, 1, 1] = Inr x \<and>
     hammingDistance_utils [1, 1, 0] [1, 0, 0] = Inr y \<and>
     hammingDistance_utils [0, 1, 1] [1, 0, 0] = Inr z \<and>
     (x = 0 \<longleftrightarrow> [0, 1, 1 :: int] = [1, 1, 0]) \<and> z \<le> x + y"
  by (rule hammingDistance_utils_metric [of _ 3]) simp_all

text \<open>
  The moving average keeps the length of the series and, for a smoothing
  parameter in [0, 1], never leaves the range of the input values.
\<close>

theorem exponentialMovingAverage_bounds:
  assumes "0 \<le> alpha" "alpha \<le> 1" "\<forall>v\<in>set vals. lo \<le> v \<and> v \<le> hi"
  shows "length (exponentialMovingAverage vals alpha) = length vals \<and>
         (\<forall>e\<in>set (exponentialMovingAverage vals alpha). lo \<le> e \<and> e \<le> hi)"
proof (cases vals)
  case (Cons v vs)
  then have "\<forall>e\<in>set (ema_from alpha v vs). lo \<le> e \<and> e \<le> hi"
    using assms by (intro ema_from_bounds) simp_all
  with Cons assms show ?thesis by (simp add: exponentialMovingAverage_def)
qed (simp add: exponentialMovingAverage_def)

theorem exponentialMovingAverage_bounds_witness:
  "length (exponentialMovingAverage [0, 1, 1 / 2] (1 / 10)) = 3 \<and>
   list_all (\<lambda>e. 0 \<le> e \<and> e \<le> 1) (exponentialMovingAverage [0, 1, 1 / 2] (1 / 10))"
  using exponentialMovingAverage_bounds [of "1 / 10" "[0, 1, 1 / 2]" 0 1]
  by (simp add: list_all_iff)

text \<open>
  Mutual information vanishes on independent variables: for a joint
  distribution that is the product of two distributions (each summing to 1),
  the marginals the code computes are the two factors and every term of the sum
  is \<open>pxy log2 1 = 0\<close>.
\<close>

theorem mutualInformation_independent:
  fixes p q :: "real list"
  assumes "p \<noteq> []" "q \<noteq> []" "sum_list p = 1" "sum_list q = 1"
  shows "mutualInformation (map (\<lambda>pi. map (\<lambda>qj. pi * qj) q) p) = 0"
  using mutualInformation_product [OF assms] .

theorem mutualInformation_independent_witness:
  "mutualInformation [[1 / 8, 3 / 8], [1 / 8, 3 / 8]] = 0"
  using mutualInformation_independent [of "[1 / 2, 1 / 2]" "[1 / 4, 3 / 4]"] by simp

text \<open>
  The von Neumann entropy of eigenvalues at most 1 is nonnegative: each
  positive eigenvalue contributes \<open>-\<lambda> log2 \<lambda> \<ge> 0\<close> and the others nothing.
\<close>

theorem vonNeumannEntropy_nonneg:
  assumes "\<forall>l\<in>set eigenvalues. l \<le> 1"
  shows "0 \<le> vonNeumannEntropy eigenvalues"
  using entropy_loop_mono [OF assms, of 0] by (simp add: vonNeumannEntropy_def)

theorem vonNeumannEntropy_nonneg_witness:
  "0 \<le> vonNeumannEntropy [1 / 2, 1 / 4, 1 / 4, 0]"
  using vonNeumannEntropy_nonneg [of "[1 / 2, 1 / 4, 1 / 4, 0]"] by simp

text \<open>
  \<open>randomBits(n, p)\<close> returns \<open>n\<close> bits, consumes exactly \<open>n\<close> draws, and
  its bit \<open>i\<close> is 1 exactly when draw \<open>i\<close> is below \<open>p\<close>; in particular a
  4-bit result is always accepted by the encoder.
\<close>

theorem randomBits_behaviour:
  assumes "randomBits n p g = (bs, g')"
  shows "bits_of_length n bs \<and> draws g' = draws g \<and> cursor g' = cursor g + n \<and>
         (\<forall>i<n. bs ! i = (if draws g (cursor g + i) < p then 1 else 0)) \<and>
         (n = 4 \<longrightarrow> (\<exists>c. encode bs = Inr c))"
proof -
  have v: "bits_of_length n bs" using randomBits_valid [of n p g] assms by simp
  moreover have "n = 4 \<longrightarrow> (\<exists>c. encode bs = Inr c)"
    using v by (auto simp: encode_def validateDataBits_def)
  ultimately show ?thesis using randomBits_draws [OF assms] by simp
qed

theorem randomBits_behaviour_witness:
  "randomBits 3 (1 / 2) (const_rng (1 / 4)) = ([1, 1, 1], (const_rng (1 / 4))\<lparr>cursor := 3\<rparr>) \<and>
   bits_of_length 3 [1, 1, 1]"
proof -
  have r: "randomBits 3 (1 / 2) (const_rng (1 / 4)) = ([1, 1, 1], (const_rng (1 / 4))\<lparr>cursor := 3\<rparr>)"
    by (simp add: numeral_3_eq_3 next_random_def const_rng_def)
  show ?thesis using randomBits_behaviour [OF r] r by simp
qed
end
