(* ===== verification/UtilsStats.thy ===== *)
theory UtilsStats
  imports UtilsMath
begin

text \<open>
  The statistics helpers of \<open>RetrocausalUtils.stats\<close> (\<open>src/js/utils.js\<close>,
  lines 366-541): descriptive statistics, Pearson correlation, least-squares
  regression, confidence intervals with their t-table, and the inverse normal
  approximation. Numbers are exact reals. A JavaScript division whose divisor
  can be 0 yields \<open>NaN\<close> or \<open>Infinity\<close>, where HOL's division yields 0; such
  divisions are \<open>js_divide\<close>, which returns \<open>None\<close> for a non-finite
  result, and a non-finite value stays non-finite through the arithmetic that
  follows.
\<close>

definition js_divide :: "real \<Rightarrow> real \<Rightarrow> real option" where
  "js_divide a b = (if b = 0 then None else Some (a / b))"

text \<open>
  \<open>descriptive(values)\<close>: the empty case returns an object without
  \<open>q25\<close>/\<open>q75\<close>, hence the options. \<open>[...values].sort((a, b) => a - b)\<close>
  is the ascending sort of the values.
\<close>

record desc_stats =
  ds_count :: nat
  ds_mean :: real
  ds_std :: real
  ds_min :: real
  ds_max :: real
  ds_median :: real
  ds_q25 :: "real option"
  ds_q75 :: "real option"

definition descriptive :: "real list \<Rightarrow> desc_stats" where
  "descriptive values =
     (if values = [] then
        \<lparr>ds_count = 0, ds_mean = 0, ds_std = 0, ds_min = 0, ds_max = 0, ds_median = 0,
         ds_q25 = None, ds_q75 = None\<rparr>
      else
        let sorted = sort values;
            sum = foldl (\<lambda>acc val. acc + val) 0 values;
            mean = sum / real (length values);
            variance = foldl (\<lambda>acc val. acc + (val - mean)\<^sup>2) 0 values / real (length values);
            std = sqrt variance
        in \<lparr>ds_count = length values, ds_mean = mean, ds_std = std,
            ds_min = sorted ! 0, ds_max = sorted ! (length sorted - 1),
            ds_median = sorted ! nat \<lfloor>real (length sorted) / 2\<rfloor>,
            ds_q25 = Some (sorted ! nat \<lfloor>real (length sorted) * 0.25\<rfloor>),
            ds_q75 = Some (sorted ! nat \<lfloor>real (length sorted) * 0.75\<rfloor>)\<rparr>)"

text \<open>\<open>correlation(x, y)\<close>: one loop accumulating the three sums.\<close>

definition correlation :: "real list \<Rightarrow> real list \<Rightarrow> real" where
  "correlation x y =
     (if length x \<noteq> length y \<or> length x = 0 then 0
      else let n = length x;
               meanX = foldl (\<lambda>sum val. sum + val) 0 x / real n;
               meanY = foldl (\<lambda>sum val. sum + val) 0 y / real n;
               (numerator, denomX, denomY) =
                 foldl (\<lambda>(nu, dx, dy) i.
                          let deltaX = x ! i - meanX; deltaY = y ! i - meanY
                          in (nu + deltaX * deltaY, dx + deltaX * deltaX, dy + deltaY * deltaY))
                   (0, 0, 0) [0..<n];
               denominator = sqrt (denomX * denomY)
           in if denominator = 0 then 0 else numerator / denominator)"

text \<open>\<open>linearRegression(x, y)\<close>: slope, intercept and R squared.\<close>

record regression =
  slope :: "real option"
  intercept :: "real option"
  r2 :: "real option"

definition linearRegression :: "real list \<Rightarrow> real list \<Rightarrow> regression" where
  "linearRegression x y =
     (if length x \<noteq> length y \<or> length x < 2 then
        \<lparr>slope = Some 0, intercept = Some 0, r2 = Some 0\<rparr>
      else
        let n = real (length x);
            sumX = foldl (\<lambda>sum val. sum + val) 0 x;
            sumY = foldl (\<lambda>sum val. sum + val) 0 y;
            sumXY = foldl (\<lambda>sum i. sum + x ! i * y ! i) 0 [0..<length x];
            sumXX = foldl (\<lambda>sum val. sum + val * val) 0 x;
            sumYY = foldl (\<lambda>sum val. sum + val * val) 0 y;
            sl = js_divide (n * sumXY - sumX * sumY) (n * sumXX - sumX * sumX);
            ic = map_option (\<lambda>s. (sumY - s * sumX) / n) sl;
            meanY = sumY / n;
            ssTotal = sumYY - n * meanY * meanY
        in \<lparr>slope = sl, intercept = ic,
            r2 = (case (sl, ic) of
                    (Some s, Some b) \<Rightarrow>
                      let ssRes = foldl (\<lambda>sum i. sum + (y ! i - (s * x ! i + b))\<^sup>2) 0 [0..<length x]
                      in map_option (\<lambda>q. 1 - q) (js_divide ssRes ssTotal)
                  | _ \<Rightarrow> None)\<rparr>)"

text \<open>
  \<open>normalInverse(p)\<close>: the rational approximation with coefficient arrays
  \<open>a\<close> and \<open>b\<close> and the loop \<open>for (i = 5; i >= 1; i--)\<close>.
\<close>

definition bsm_a :: "real list" where
  "bsm_a = [0, -39.69683028665376, 220.9460984245205, -275.9285104469687,
            138.3577518672690, -30.66479806614716, 2.506628277459239]"

definition bsm_b :: "real list" where
  "bsm_b = [0, -54.47609879822406, 161.5858368580409, -155.6989798598866,
            66.80131188771972, -13.28068155288572]"

definition normalInverse :: "real \<Rightarrow> real option" where
  "normalInverse p =
     (if p \<le> 0 \<or> p \<ge> 1 then Some 0
      else let q = (if p < 0.5 then p else 1 - p);
               t = sqrt (-2 * ln q);
               (numerator, denominator) =
                 foldl (\<lambda>(nu, de) i. (nu * t + bsm_a ! i, de * t + bsm_b ! (i - 1)))
                   (bsm_a ! 6, bsm_b ! 5) [5, 4, 3, 2, 1]
           in map_option (\<lambda>r. if p < 0.5 then - r else r)
                (map_option (\<lambda>v. t - v) (js_divide numerator denominator)))"

text \<open>
  \<open>tDistribution(df, alpha)\<close>: the table object \<open>tTable[d][a]\<close> as nested
  association lists; a missing row or entry is \<open>undefined\<close>, replaced by
  \<open>2.0\<close> through \<open>|| 2.0\<close> (no entry of the table is 0).
\<close>

definition tTable :: "(int \<times> (real \<times> real) list) list" where
  "tTable = [(1, [(0.05, 6.314), (0.025, 12.706), (0.005, 63.657)]),
             (2, [(0.05, 2.920), (0.025, 4.303), (0.005, 9.925)]),
             (3, [(0.05, 2.353), (0.025, 3.182), (0.005, 5.841)]),
             (4, [(0.05, 2.132), (0.025, 2.776), (0.005, 4.604)]),
             (5, [(0.05, 2.015), (0.025, 2.571), (0.005, 4.032)])]"

definition tDistribution :: "int \<Rightarrow> real \<Rightarrow> real option" where
  "tDistribution df alpha =
     (if df \<ge> 30 then normalInverse (1 - alpha)
      else let closestDf = min df 5;
               closestAlpha = (if alpha \<le> 0.005 then 0.005 else if alpha \<le> 0.025 then 0.025 else 0.05)
           in Some (case map_of tTable closestDf of
                      None \<Rightarrow> 2.0
                    | Some row \<Rightarrow> (case map_of row closestAlpha of None \<Rightarrow> 2.0 | Some v \<Rightarrow> v)))"

text \<open>\<open>confidenceInterval(values, confidence = 0.95)\<close>.\<close>

record interval =
  ci_lower :: "real option"
  ci_upper :: "real option"
  ci_margin :: "real option"

definition confidenceInterval :: "real list \<Rightarrow> real \<Rightarrow> interval" where
  "confidenceInterval values confidence =
     (let stats = descriptive values;
          alpha = 1 - confidence;
          marginOfError =
            (case tDistribution (int (ds_count stats) - 1) (alpha / 2) of
               None \<Rightarrow> None
             | Some tValue \<Rightarrow> js_divide (tValue * ds_std stats) (sqrt (real (ds_count stats))))
      in \<lparr>ci_lower = map_option (\<lambda>m. ds_mean stats - m) marginOfError,
          ci_upper = map_option (\<lambda>m. ds_mean stats + m) marginOfError,
          ci_margin = marginOfError\<rparr>)"

section \<open>Lemmas\<close>

subsection \<open>Sums\<close>

lemma sum_list_map_upt: "sum_list (map f [0..<n]) = (\<Sum>i<n. f i)"
  by (induction n) simp_all

lemma sum_list_nth: "sum_list xs = (\<Sum>i<length xs. xs ! i)"
  by (simp add: sum_list_sum_nth atLeast0LessThan)

lemma foldl_sum_list: "foldl (\<lambda>acc v. acc + v) 0 xs = sum_list (xs :: real list)"
  using foldl_add_scaled [of "\<lambda>v. v" 0 xs] by simp

lemma foldl_sum_idx: "foldl (\<lambda>acc i. acc + f i) 0 [0..<n] = (\<Sum>i<n. f i :: real)"
  by (simp add: foldl_add_scaled sum_list_map_upt)

lemma foldl_sum_map: "foldl (\<lambda>acc v. acc + f v) 0 xs = (\<Sum>i<length xs. f (xs ! i) :: real)"
  by (simp add: foldl_add_scaled sum_list_nth)

lemma lagrange_identity:
  fixes f g :: "nat \<Rightarrow> real"
  shows "2 * ((\<Sum>i\<in>A. (f i)\<^sup>2) * (\<Sum>i\<in>A. (g i)\<^sup>2) - (\<Sum>i\<in>A. f i * g i)\<^sup>2)
           = (\<Sum>i\<in>A. \<Sum>j\<in>A. (f i * g j - f j * g i)\<^sup>2)"
proof -
  have pt: "(f i * g j - f j * g i)\<^sup>2
            = (f i)\<^sup>2 * (g j)\<^sup>2 + (g i)\<^sup>2 * (f j)\<^sup>2 - 2 * ((f i * g i) * (f j * g j))" for i j
    by (simp add: power2_eq_square algebra_simps)
  have a: "(\<Sum>i\<in>A. \<Sum>j\<in>A. (f i)\<^sup>2 * (g j)\<^sup>2) = (\<Sum>i\<in>A. (f i)\<^sup>2) * (\<Sum>i\<in>A. (g i)\<^sup>2)"
    by (simp add: sum_product)
  have b: "(\<Sum>i\<in>A. \<Sum>j\<in>A. (g i)\<^sup>2 * (f j)\<^sup>2) = (\<Sum>i\<in>A. (f i)\<^sup>2) * (\<Sum>i\<in>A. (g i)\<^sup>2)"
    unfolding sum_product [symmetric] by (rule mult.commute)
  have "2 * (\<Sum>i\<in>A. f i * g i)\<^sup>2 = 2 * (\<Sum>i\<in>A. \<Sum>j\<in>A. (f i * g i) * (f j * g j))"
    unfolding power2_eq_square sum_product ..
  also have "\<dots> = (\<Sum>i\<in>A. \<Sum>j\<in>A. 2 * ((f i * g i) * (f j * g j)))"
    by (simp add: sum_distrib_left)
  finally have c: "(\<Sum>i\<in>A. \<Sum>j\<in>A. 2 * ((f i * g i) * (f j * g j))) = 2 * (\<Sum>i\<in>A. f i * g i)\<^sup>2" ..
  have "(\<Sum>i\<in>A. \<Sum>j\<in>A. (f i * g j - f j * g i)\<^sup>2)
        = (\<Sum>i\<in>A. \<Sum>j\<in>A. (f i)\<^sup>2 * (g j)\<^sup>2) + (\<Sum>i\<in>A. \<Sum>j\<in>A. (g i)\<^sup>2 * (f j)\<^sup>2)
          - (\<Sum>i\<in>A. \<Sum>j\<in>A. 2 * ((f i * g i) * (f j * g j)))"
    by (simp only: pt sum.distrib sum_subtractf)
  also have "\<dots> = 2 * ((\<Sum>i\<in>A. (f i)\<^sup>2) * (\<Sum>i\<in>A. (g i)\<^sup>2) - (\<Sum>i\<in>A. f i * g i)\<^sup>2)"
    unfolding a b c by simp
  finally show ?thesis ..
qed

lemma cauchy_schwarz:
  fixes f g :: "nat \<Rightarrow> real"
  shows "(\<Sum>i\<in>A. f i * g i)\<^sup>2 \<le> (\<Sum>i\<in>A. (f i)\<^sup>2) * (\<Sum>i\<in>A. (g i)\<^sup>2)"
proof -
  have "0 \<le> (\<Sum>i\<in>A. \<Sum>j\<in>A. (f i * g j - f j * g i)\<^sup>2)"
    by (intro sum_nonneg) simp
  then show ?thesis using lagrange_identity [of f A g] by simp
qed

text \<open>With \<open>g = 1\<close>: \<open>n \<Sum>x\<^sup>2 - (\<Sum>x)\<^sup>2\<close> is positive unless all values coincide.\<close>

lemma spread_pos:
  fixes f :: "nat \<Rightarrow> real"
  assumes "finite A" "i \<in> A" "j \<in> A" "f i \<noteq> f j"
  shows "0 < real (card A) * (\<Sum>k\<in>A. (f k)\<^sup>2) - (\<Sum>k\<in>A. f k)\<^sup>2"
proof -
  let ?g = "\<lambda>k. \<Sum>l\<in>A. (f k * 1 - f l * 1)\<^sup>2"
  have "0 < ?g i"
    by (rule sum_pos2 [OF assms(1) assms(3)]) (use assms(4) in simp_all)
  then have "0 < sum ?g A"
    by (rule sum_pos2 [OF assms(1) assms(2)]) (simp add: sum_nonneg)
  then show ?thesis
    using lagrange_identity [of f A "\<lambda>_. 1"] by (simp add: mult.commute)
qed

subsection \<open>Descriptive statistics\<close>

lemma floor_fractions:
  "nat \<lfloor>real n / 2\<rfloor> = n div 2" "nat \<lfloor>real n / 4\<rfloor> = n div 4"
  "nat \<lfloor>real n * 3 / 4\<rfloor> = 3 * n div 4"
proof -
  have "real n * 3 / 4 = real (3 * n) / 4" by simp
  then show "nat \<lfloor>real n / 2\<rfloor> = n div 2" "nat \<lfloor>real n / 4\<rfloor> = n div 4"
    "nat \<lfloor>real n * 3 / 4\<rfloor> = 3 * n div 4"
    using floor_divide_of_nat_eq [where 'a = real, of n 2] floor_divide_of_nat_eq [where 'a = real, of n 4]
      floor_divide_of_nat_eq [where 'a = real, of "3 * n" 4] by (simp_all only: of_nat_numeral nat_int)
qed

lemma descriptive_fields:
  assumes "values \<noteq> []"
  defines "n \<equiv> length values"
  defines "mean \<equiv> sum_list values / real n"
  shows "descriptive values =
    \<lparr>ds_count = n, ds_mean = mean,
     ds_std = sqrt (sum_list (map (\<lambda>v. (v - mean)\<^sup>2) values) / real n),
     ds_min = sort values ! 0, ds_max = sort values ! (n - 1),
     ds_median = sort values ! (n div 2), ds_q25 = Some (sort values ! (n div 4)),
     ds_q75 = Some (sort values ! (3 * n div 4))\<rparr>"
  using assms(1) unfolding n_def mean_def
  by (simp add: descriptive_def Let_def foldl_sum_list foldl_add_scaled floor_fractions)

lemma descriptive_std_nonneg: "0 \<le> ds_std (descriptive vs)"
proof (cases "vs = []")
  case False
  have "0 \<le> sum_list (map (\<lambda>v. (v - sum_list vs / real (length vs))\<^sup>2) vs) / real (length vs)"
    by (intro divide_nonneg_nonneg sum_list_nonneg) auto
  then show ?thesis by (simp add: descriptive_fields [OF False])
qed (simp add: descriptive_def)

lemma sort_nth_mono: "i \<le> j \<Longrightarrow> j < length xs \<Longrightarrow> sort xs ! i \<le> sort xs ! (j :: nat)"
  by (simp add: sorted_nth_mono)

lemma sort_extremes:
  fixes xs :: "real list"
  assumes "xs \<noteq> []"
  shows "sort xs ! 0 = Min (set xs)" "sort xs ! (length xs - 1) = Max (set xs)"
proof -
  have mem: "y \<in> set xs \<Longrightarrow> \<exists>k<length xs. sort xs ! k = y" for y
    by (metis in_set_conv_nth length_sort set_sort)
  have len: "0 < length xs" using assms by simp
  show "sort xs ! 0 = Min (set xs)"
  proof (rule Min_eqI [symmetric])
    fix y assume "y \<in> set xs"
    with mem obtain k where "k < length xs" "sort xs ! k = y" by blast
    then show "sort xs ! 0 \<le> y" using sort_nth_mono [of 0 k xs] by simp
  next
    show "sort xs ! 0 \<in> set xs" using len by (metis length_sort nth_mem set_sort)
  qed simp
  show "sort xs ! (length xs - 1) = Max (set xs)"
  proof (rule Max_eqI [symmetric])
    fix y assume "y \<in> set xs"
    with mem obtain k where "k < length xs" "sort xs ! k = y" by blast
    then show "y \<le> sort xs ! (length xs - 1)" using sort_nth_mono [of k "length xs - 1" xs] by simp
  next
    show "sort xs ! (length xs - 1) \<in> set xs" using len by (metis diff_less length_sort nth_mem set_sort zero_less_one)
  qed simp
qed

lemma sum_list_bounds:
  fixes xs :: "real list"
  shows "\<forall>x\<in>set xs. lo \<le> x \<and> x \<le> hi \<Longrightarrow>
         real (length xs) * lo \<le> sum_list xs \<and> sum_list xs \<le> real (length xs) * hi"
  by (induction xs) (auto simp: algebra_simps)

lemma quartile_indices:
  "0 < n \<Longrightarrow> n div 4 \<le> n div 2 \<and> n div 2 \<le> 3 * n div 4 \<and> 3 * n div 4 \<le> n - (1::nat)"
  by auto

lemma mean_bounds:
  fixes vs :: "real list"
  assumes "vs \<noteq> []"
  shows "Min (set vs) \<le> sum_list vs / real (length vs) \<and> sum_list vs / real (length vs) \<le> Max (set vs)"
proof -
  have "\<forall>x\<in>set vs. Min (set vs) \<le> x \<and> x \<le> Max (set vs)" by simp
  from sum_list_bounds [OF this] have
    "real (length vs) * Min (set vs) \<le> sum_list vs" "sum_list vs \<le> real (length vs) * Max (set vs)"
    by simp_all
  moreover have "0 < real (length vs)" using assms by simp
  ultimately show ?thesis by (simp add: field_simps)
qed

subsection \<open>Correlation\<close>

lemma triple_loop:
  "foldl (\<lambda>(nu, dx, dy) i. (nu + f i * g i, dx + f i * f i, dy + g i * g i)) (a, b, c) [0..<n]
     = (a + (\<Sum>i<n. f i * g i), b + (\<Sum>i<n. f i * f i), c + (\<Sum>i<n. g i * g i :: real))"
  by (induction n) simp_all

lemma ratio_bounded:
  fixes num dx dy :: real
  assumes "num\<^sup>2 \<le> dx * dy"
  shows "\<bar>(if sqrt (dx * dy) = 0 then 0 else num / sqrt (dx * dy))\<bar> \<le> 1"
proof (cases "sqrt (dx * dy) = 0")
  case False
  have "\<bar>num\<bar> \<le> sqrt (dx * dy)" using assms by (intro real_le_rsqrt) simp
  moreover have "0 < sqrt (dx * dy)"
    using False assms by (metis abs_ge_zero order.not_eq_order_implies_strict power2_abs
        real_sqrt_ge_zero zero_le_power2 order.trans real_sqrt_ge_0_iff)
  ultimately show ?thesis using False by (simp add: abs_div)
qed simp

subsection \<open>Regression\<close>

lemma spread_pos_list:
  fixes xs :: "real list"
  assumes "i < length xs" "j < length xs" "xs ! i \<noteq> xs ! j"
  shows "0 < real (length xs) * (\<Sum>k<length xs. xs ! k * xs ! k) - (\<Sum>k<length xs. xs ! k) * (\<Sum>k<length xs. xs ! k)"
  using spread_pos [of "{..<length xs}" i j "\<lambda>k. xs ! k"] assms by (simp add: power2_eq_square)

lemma line_sums:
  fixes x y :: "real list"
  assumes "length y = length x" "\<forall>i<length x. y ! i = a * x ! i + b"
  shows "(\<Sum>k<length x. y ! k) = a * (\<Sum>k<length x. x ! k) + real (length x) * b"
    and "(\<Sum>k<length x. x ! k * y ! k) = a * (\<Sum>k<length x. x ! k * x ! k) + b * (\<Sum>k<length x. x ! k)"
    and "(\<Sum>k<length x. (y ! k - (a * x ! k + b))\<^sup>2) = 0"
proof -
  have "(\<Sum>k<length x. y ! k) = (\<Sum>k<length x. a * x ! k + b)" using assms by simp
  then show "(\<Sum>k<length x. y ! k) = a * (\<Sum>k<length x. x ! k) + real (length x) * b"
    by (simp add: sum.distrib sum_distrib_left)
  have "(\<Sum>k<length x. x ! k * y ! k) = (\<Sum>k<length x. a * (x ! k * x ! k) + b * x ! k)"
    using assms by (intro sum.cong) (simp_all add: algebra_simps)
  then show "(\<Sum>k<length x. x ! k * y ! k) = a * (\<Sum>k<length x. x ! k * x ! k) + b * (\<Sum>k<length x. x ! k)"
    by (simp add: sum.distrib sum_distrib_left)
  show "(\<Sum>k<length x. (y ! k - (a * x ! k + b))\<^sup>2) = 0" using assms by simp
qed

lemma regression_fields:
  fixes x y :: "real list"
  assumes "length y = length x" "2 \<le> length x"
  defines "n \<equiv> real (length x)"
  defines "sX \<equiv> \<Sum>k<length x. x ! k" and "sY \<equiv> \<Sum>k<length x. y ! k"
  defines "sXY \<equiv> \<Sum>k<length x. x ! k * y ! k" and "sXX \<equiv> \<Sum>k<length x. x ! k * x ! k"
  defines "sYY \<equiv> \<Sum>k<length x. y ! k * y ! k"
  shows "slope (linearRegression x y) = js_divide (n * sXY - sX * sY) (n * sXX - sX * sX)"
    and "intercept (linearRegression x y) = map_option (\<lambda>s. (sY - s * sX) / n) (slope (linearRegression x y))"
    and "slope (linearRegression x y) = Some s \<Longrightarrow> intercept (linearRegression x y) = Some c \<Longrightarrow>
         r2 (linearRegression x y) =
           map_option (\<lambda>q. 1 - q) (js_divide (\<Sum>k<length x. (y ! k - (s * x ! k + c))\<^sup>2) (sYY - n * (sY / n) * (sY / n)))"
  using assms(1,2) unfolding n_def sX_def sY_def sXY_def sXX_def sYY_def
  by (simp_all add: linearRegression_def Let_def foldl_sum_map foldl_sum_idx)

subsection \<open>The t-table and the interval\<close>

lemma tDistribution_table:
  "df < 30 \<Longrightarrow> \<exists>v. tDistribution df alpha = Some v \<and> 2 \<le> v \<and> v \<le> 63.657"
  by (auto simp: tDistribution_def tTable_def Let_def min_def)

lemma confidence_margin:
  assumes "vs \<noteq> []" "length vs \<le> 30"
  shows "\<exists>m. ci_margin (confidenceInterval vs c) = Some m \<and> 0 \<le> m \<and>
           ci_lower (confidenceInterval vs c) = Some (ds_mean (descriptive vs) - m) \<and>
           ci_upper (confidenceInterval vs c) = Some (ds_mean (descriptive vs) + m)"
proof -
  have df: "int (ds_count (descriptive vs)) - 1 < 30"
    using assms descriptive_fields [OF assms(1)] by simp
  obtain t where t: "tDistribution (int (ds_count (descriptive vs)) - 1) ((1 - c) / 2) = Some t" "2 \<le> t"
    using tDistribution_table [OF df] by blast
  note sd = descriptive_std_nonneg [of vs]
  have cnt: "0 < sqrt (real (ds_count (descriptive vs)))"
    using assms(1) by (simp add: descriptive_fields [OF assms(1)])
  have "0 \<le> t * ds_std (descriptive vs) / sqrt (real (ds_count (descriptive vs)))"
    using t(2) sd cnt by simp
  then show ?thesis using t(1) cnt by (simp add: confidenceInterval_def Let_def js_divide_def)
qed

section \<open>Properties\<close>

text \<open>
  The descriptive statistics of a non-empty sample are consistent: the
  count is the sample size, min and max are the least and greatest values, the
  mean lies between them, the standard deviation is nonnegative, and
  min \<open>\<le>\<close> q25 \<open>\<le>\<close> median \<open>\<le>\<close> q75 \<open>\<le>\<close> max.
\<close>

theorem descriptive_bounds:
  assumes "vs \<noteq> []"
  shows "ds_count (descriptive vs) = length vs \<and>
         ds_min (descriptive vs) = Min (set vs) \<and> ds_max (descriptive vs) = Max (set vs) \<and>
         ds_min (descriptive vs) \<le> ds_mean (descriptive vs) \<and>
         ds_mean (descriptive vs) \<le> ds_max (descriptive vs) \<and> 0 \<le> ds_std (descriptive vs) \<and>
         (\<exists>a b. ds_q25 (descriptive vs) = Some a \<and> ds_q75 (descriptive vs) = Some b \<and>
            ds_min (descriptive vs) \<le> a \<and> a \<le> ds_median (descriptive vs) \<and>
            ds_median (descriptive vs) \<le> b \<and> b \<le> ds_max (descriptive vs))"
proof -
  have n: "0 < length vs" using assms by simp
  note q = quartile_indices [OF n]
  have "0 \<le> ds_std (descriptive vs)" by (rule descriptive_std_nonneg)
  moreover have "sort vs ! 0 \<le> sort vs ! (length vs div 4)"
    "sort vs ! (length vs div 4) \<le> sort vs ! (length vs div 2)"
    "sort vs ! (length vs div 2) \<le> sort vs ! (3 * length vs div 4)"
    "sort vs ! (3 * length vs div 4) \<le> sort vs ! (length vs - 1)"
    using q n by (intro sort_nth_mono; linarith)+
  ultimately show ?thesis
    using sort_extremes [OF assms] mean_bounds [OF assms]
    by (simp add: descriptive_fields [OF assms])
qed

theorem descriptive_bounds_witness:
  "ds_count (descriptive [3, 1, 2]) = 3 \<and> ds_min (descriptive [3, 1, 2]) = 1 \<and>
   ds_max (descriptive [3, 1, 2]) = 3 \<and> ds_median (descriptive [3, 1, 2]) = 2"
  using descriptive_bounds [of "[3, 1, 2]"] by (simp add: descriptive_fields)

text \<open>
  The standard deviation of a non-empty sample is 0 exactly when the
  sample is constant (its min equals its max).
\<close>

theorem descriptive_std_zero:
  assumes "vs \<noteq> []"
  shows "ds_std (descriptive vs) = 0 \<longleftrightarrow> ds_min (descriptive vs) = ds_max (descriptive vs)"
proof -
  define m where "m = sum_list vs / real (length vs)"
  define S where "S = sum_list (map (\<lambda>v. (v - m)\<^sup>2) vs)"
  have n: "0 < real (length vs)" using assms by simp
  have std: "ds_std (descriptive vs) = sqrt (S / real (length vs))"
    by (simp add: descriptive_fields [OF assms] m_def S_def)
  have mm: "ds_min (descriptive vs) = Min (set vs)" "ds_max (descriptive vs) = Max (set vs)"
    using sort_extremes [OF assms] by (simp_all add: descriptive_fields [OF assms])
  have "sqrt (S / real (length vs)) = 0 \<longleftrightarrow> S = 0" using n by simp
  also have "S = 0 \<longleftrightarrow> (\<forall>x\<in>set (map (\<lambda>v. (v - m)\<^sup>2) vs). x = 0)"
    unfolding S_def by (rule sum_list_nonneg_eq_0_iff) auto
  also have "\<dots> \<longleftrightarrow> (\<forall>v\<in>set vs. v = m)" by simp
  also have "\<dots> \<longleftrightarrow> Min (set vs) = Max (set vs)"
  proof
    assume all: "\<forall>v\<in>set vs. v = m"
    moreover have "m \<in> set vs" using assms all by (metis list.set_intros(1) neq_Nil_conv)
    ultimately have "set vs = {m}" by blast
    then show "Min (set vs) = Max (set vs)" by simp
  next
    assume eq: "Min (set vs) = Max (set vs)"
    have all: "\<forall>v\<in>set vs. v = Min (set vs)"
    proof
      fix v assume "v \<in> set vs"
      then have "Min (set vs) \<le> v" "v \<le> Max (set vs)" by simp_all
      with eq show "v = Min (set vs)" by simp
    qed
    have "m = Min (set vs)" using mean_bounds [OF assms] eq by (simp add: m_def)
    with all show "\<forall>v\<in>set vs. v = m" by simp
  qed
  finally show ?thesis by (simp add: std mm)
qed

theorem descriptive_std_zero_witness:
  "ds_std (descriptive [2, 2, 2]) = 0"
  using descriptive_std_zero [of "[2, 2, 2]"] by (simp add: descriptive_fields)

text \<open>
  The correlation coefficient lies in [-1, 1] for all inputs (the
  Cauchy-Schwarz inequality on the centred sums); the guards of the source
  return 0 for unequal or empty arrays and for a zero denominator.
\<close>

theorem correlation_bounded: "\<bar>correlation x y\<bar> \<le> 1"
proof (cases "length x \<noteq> length y \<or> length x = 0")
  case False
  define mx where "mx = foldl (\<lambda>sum val. sum + val) 0 x / real (length x)"
  define my where "my = foldl (\<lambda>sum val. sum + val) 0 y / real (length x)"
  let ?f = "\<lambda>i. x ! i - mx" and ?g = "\<lambda>i. y ! i - my"
  have cs: "(\<Sum>i<length x. ?f i * ?g i)\<^sup>2 \<le> (\<Sum>i<length x. ?f i * ?f i) * (\<Sum>i<length x. ?g i * ?g i)"
    using cauchy_schwarz [of ?f ?g "{..<length x}"] by (simp add: power2_eq_square)
  have "correlation x y =
          (if sqrt ((\<Sum>i<length x. ?f i * ?f i) * (\<Sum>i<length x. ?g i * ?g i)) = 0 then 0
           else (\<Sum>i<length x. ?f i * ?g i) /
                sqrt ((\<Sum>i<length x. ?f i * ?f i) * (\<Sum>i<length x. ?g i * ?g i)))"
    using False unfolding correlation_def Let_def mx_def [symmetric] my_def [symmetric]
    by (simp add: triple_loop)
  then show ?thesis using ratio_bounded [OF cs] by simp
qed (auto simp: correlation_def)

text \<open>
  Least squares recovers an exact line: when every \<open>y ! i\<close> is
  \<open>a * x ! i + b\<close> and the \<open>x\<close> values are not all equal, the regression
  returns slope \<open>a\<close> and intercept \<open>b\<close>, and R squared 1 when the line is
  not flat.
\<close>

theorem linearRegression_exact:
  fixes x y :: "real list"
  assumes "length y = length x" "2 \<le> length x" "\<forall>k<length x. y ! k = a * x ! k + b"
    and "i < length x" "j < length x" "x ! i \<noteq> x ! j"
  shows "slope (linearRegression x y) = Some a \<and> intercept (linearRegression x y) = Some b \<and>
         (a \<noteq> 0 \<longrightarrow> r2 (linearRegression x y) = Some 1)"
proof -
  let ?n = "real (length x)"
  let ?sX = "\<Sum>k<length x. x ! k" and ?sY = "\<Sum>k<length x. y ! k"
  let ?sXX = "\<Sum>k<length x. x ! k * x ! k" and ?sYY = "\<Sum>k<length x. y ! k * y ! k"
  note ls = line_sums [OF assms(1,3)]
  have ne: "x \<noteq> []" using assms(2) by auto
  have D: "0 < ?n * ?sXX - ?sX * ?sX" using spread_pos_list [OF assms(4-6)] .
  have num: "?n * (\<Sum>k<length x. x ! k * y ! k) - ?sX * ?sY = a * (?n * ?sXX - ?sX * ?sX)"
    by (simp add: ls(1,2) algebra_simps)
  have sl: "slope (linearRegression x y) = Some a"
    using D by (simp add: regression_fields(1) [OF assms(1,2)] num js_divide_def)
  have ic: "intercept (linearRegression x y) = Some b"
    using ne by (simp add: regression_fields(2) [OF assms(1,2)] sl ls(1))
  have "r2 (linearRegression x y) = Some 1" if "a \<noteq> 0"
  proof -
    have "y ! i \<noteq> y ! j" using assms that by simp
    then have "0 < real (length y) * ?sYY - ?sY * ?sY"
      using spread_pos_list [of i y j] assms(1,4,5) by simp
    then have "?sYY - ?n * (?sY / ?n) * (?sY / ?n) \<noteq> 0"
      using assms(1) ne by (simp add: field_simps)
    then show ?thesis
      by (simp add: regression_fields(3) [OF assms(1,2) sl ic] ls(3) js_divide_def)
  qed
  with sl ic show ?thesis by simp
qed

theorem linearRegression_exact_witness:
  "slope (linearRegression [0, 1, 2] [1, 3, 5]) = Some 2 \<and>
   intercept (linearRegression [0, 1, 2] [1, 3, 5]) = Some 1 \<and>
   r2 (linearRegression [0, 1, 2] [1, 3, 5]) = Some 1"
  using linearRegression_exact [of "[1, 3, 5]" "[0, 1, 2]" 2 1 0 1] by (simp add: less_Suc_eq nth_Cons')

text \<open>
  The inverse normal approximation is antisymmetric about 1/2: for
  \<open>0 < p < 1/2\<close>, \<open>normalInverse (1 - p)\<close> is the negation of
  \<open>normalInverse p\<close> (both are computed from the same tail \<open>q = p\<close>).
\<close>

theorem normalInverse_antisymmetric:
  assumes "0 < p" "p < 0.5"
  shows "normalInverse (1 - p) = map_option uminus (normalInverse p)"
proof -
  have "\<not> (1 - p \<le> 0 \<or> 1 - p \<ge> 1)" "\<not> (p \<le> 0 \<or> p \<ge> 1)" "\<not> 1 - p < 0.5"
    using assms by simp_all
  then show ?thesis using assms
    by (simp add: normalInverse_def Let_def option.map_comp comp_def split: prod.split)
qed

theorem normalInverse_antisymmetric_witness:
  "normalInverse (1 - 1 / 4) = map_option uminus (normalInverse (1 / 4))"
  using normalInverse_antisymmetric [of "1 / 4"] by simp

text \<open>
  Below 30 degrees of freedom the t critical value comes from the table
  or its fallback 2.0: it is always defined and lies between 2 and 63.657, so
  the interval's margin is never negative.
\<close>

theorem tDistribution_bounds:
  "df < 30 \<Longrightarrow> \<exists>v. tDistribution df alpha = Some v \<and> 2 \<le> v \<and> v \<le> 63.657"
  using tDistribution_table .

theorem tDistribution_bounds_witness:
  "\<exists>v. tDistribution 4 0.025 = Some v \<and> 2 \<le> v \<and> v \<le> 63.657"
  using tDistribution_bounds [of 4 "0.025"] by simp

text \<open>
  For a sample of 1 to 30 values the confidence interval is a finite,
  nonnegative margin around the sample mean: lower = mean - margin and
  upper = mean + margin, so the mean lies inside it.
\<close>

theorem confidenceInterval_around_mean:
  assumes "vs \<noteq> []" "length vs \<le> 30"
  shows "\<exists>m. ci_margin (confidenceInterval vs c) = Some m \<and> 0 \<le> m \<and>
           ci_lower (confidenceInterval vs c) = Some (ds_mean (descriptive vs) - m) \<and>
           ci_upper (confidenceInterval vs c) = Some (ds_mean (descriptive vs) + m)"
  using confidence_margin [OF assms] .

theorem confidenceInterval_around_mean_witness:
  "\<exists>m. ci_margin (confidenceInterval [1, 2, 3] 0.95) = Some m \<and> 0 \<le> m \<and>
     ci_lower (confidenceInterval [1, 2, 3] 0.95) = Some (ds_mean (descriptive [1, 2, 3]) - m) \<and>
     ci_upper (confidenceInterval [1, 2, 3] 0.95) = Some (ds_mean (descriptive [1, 2, 3]) + m)"
  using confidenceInterval_around_mean [of "[1, 2, 3]" "0.95"] by simp

text \<open>
  An empty sample gets no interval: \<open>descriptive\<close> reports count 0 and
  standard deviation 0, the t value falls back to 2.0, and the margin is
  \<open>0 / Math.sqrt(0)\<close>, which is \<open>NaN\<close>; so are both bounds.
\<close>

theorem confidenceInterval_empty:
  "ci_margin (confidenceInterval [] c) = None \<and> ci_lower (confidenceInterval [] c) = None \<and>
   ci_upper (confidenceInterval [] c) = None"
  by (simp add: confidenceInterval_def descriptive_def tDistribution_def tTable_def js_divide_def Let_def)

end
