(* ===== verification/Solver.thy ===== *)
theory Solver
  imports UtilsStats
begin

text \<open>
  The consistency solver, class \<open>RetrocausalFixedPointSolver\<close>. Its source is
  the \<open>js/fixedpoint.js\<close> listing that \<open>src/theory_guide.md\<close> carries after
  the guide's text (lines 352-844). The solver object keeps the history and
  counters of the last run and running statistics over all runs; every method
  that changes them is a function on the record \<open>solver\<close>. \<open>Math.random\<close>
  is the random source of \<open>Prelude\<close>, threaded through noise injection and
  damping in the order the code draws. Parameter objects are merged field by
  field over \<open>defaultParams\<close> (\<open>{...this.defaultParams, ...params}\<close>); a key
  the solver does not read (such as the \<open>tolerance\<close> that \<open>main.js\<close> passes)
  has no field. A number that may be non-finite is a \<open>js_real\<close>. The
  wall-clock fields (\<open>startTime\<close>, \<open>computationTime\<close>) are not modelled.
\<close>

section \<open>Definitions\<close>

text \<open>\<open>count / length\<close> for a count and a length: \<open>0 / 0\<close> is \<open>NaN\<close>, \<open>k / 0\<close> is \<open>Infinity\<close>.\<close>

definition js_div_count :: "nat \<Rightarrow> nat \<Rightarrow> js_real" where
  "js_div_count a b =
     (if b \<noteq> 0 then JNum (real a / real b) else if a = 0 then JNaN else JPosInf)"

text \<open>\<open>e <= t\<close> where the tolerance may be \<open>undefined\<close> (\<open>None\<close>): false then.\<close>

fun js_le :: "js_real \<Rightarrow> real option \<Rightarrow> bool" where
  "js_le (JNum v) (Some t) = (v \<le> t)"
| "js_le _ _ = False"

text \<open>A key of a parameter object: absent, present with value \<open>undefined\<close>, or set.\<close>

datatype 'a js_field = Absent | Undef | Val 'a

record solver_config =
  maxIterations :: real
  convergenceTolerance :: "real option"
  errorRate :: real
  dampingFactor :: real
  enableAdaptiveStep :: bool

definition defaultParams :: solver_config where
  "defaultParams = \<lparr>maxIterations = 100, convergenceTolerance = Some (1 / 1000000),
     errorRate = 0.05, dampingFactor = 0.5, enableAdaptiveStep = True\<rparr>"

record solver_params =
  p_maxIterations :: "real option"
  p_convergenceTolerance :: "real js_field"
  p_errorRate :: "real option"
  p_dampingFactor :: "real option"
  p_enableAdaptiveStep :: "bool option"

definition no_params :: solver_params where
  "no_params = \<lparr>p_maxIterations = None, p_convergenceTolerance = Absent, p_errorRate = None,
     p_dampingFactor = None, p_enableAdaptiveStep = None\<rparr>"

definition merge_params :: "solver_params \<Rightarrow> solver_config" where
  "merge_params params =
     \<lparr>maxIterations = (case p_maxIterations params of None \<Rightarrow> maxIterations defaultParams | Some v \<Rightarrow> v),
      convergenceTolerance = (case p_convergenceTolerance params of
                                Absent \<Rightarrow> convergenceTolerance defaultParams | Undef \<Rightarrow> None
                              | Val v \<Rightarrow> Some v),
      errorRate = (case p_errorRate params of None \<Rightarrow> errorRate defaultParams | Some v \<Rightarrow> v),
      dampingFactor = (case p_dampingFactor params of None \<Rightarrow> dampingFactor defaultParams | Some v \<Rightarrow> v),
      enableAdaptiveStep = (case p_enableAdaptiveStep params of
                              None \<Rightarrow> enableAdaptiveStep defaultParams | Some v \<Rightarrow> v)\<rparr>"

text \<open>One entry of \<open>convergenceHistory\<close> (\<open>recordIterationStep\<close>).\<close>

record history_entry =
  h_iteration :: nat
  h_state :: "int list"
  h_convergenceError :: js_real
  h_errorsCorrected :: bool
  h_errorPosition :: "int option"
  h_encodedState :: "int list"
  h_transmittedState :: "int list"

record solver_stats =
  totalRuns :: nat
  successfulConvergences :: nat
  averageIterations :: real

record solver =
  convergenceHistory :: "history_entry list"
  currentIteration :: nat
  isConverged :: bool
  convergenceError :: js_real
  statistics :: solver_stats

definition new_solver :: solver where
  "new_solver = \<lparr>convergenceHistory = [], currentIteration = 0, isConverged = False,
     convergenceError = JPosInf,
     statistics = \<lparr>totalRuns = 0, successfulConvergences = 0, averageIterations = 0\<rparr>\<rparr>"

definition resetIterationState :: "solver \<Rightarrow> solver" where
  "resetIterationState st =
     st\<lparr>convergenceHistory := [], currentIteration := 0, isConverged := False,
        convergenceError := JPosInf\<rparr>"

record evolution_result =
  ev_inputData :: "int list"
  ev_encodedState :: "int list"
  ev_transmittedState :: "int list"
  ev_decodingResult :: decode_result
  ev_finalData :: "int list"
  ev_errorsCorrected :: bool
  ev_errorPosition :: "int option"

definition simulateTemporalTransmission :: "int list \<Rightarrow> real \<Rightarrow> rng \<Rightarrow> int list \<times> rng" where
  "simulateTemporalTransmission st rate g = injectErrors st rate g"

text \<open>\<open>applySingleEvolutionCycle\<close>: errors of \<open>encode\<close> and \<open>decode\<close> propagate.\<close>

definition applySingleEvolutionCycle ::
  "int list \<Rightarrow> solver_config \<Rightarrow> rng \<Rightarrow> error + evolution_result \<times> rng" where
  "applySingleEvolutionCycle inputData cfg g =
     (case encode inputData of
        Inl e \<Rightarrow> Inl e
      | Inr encodedState \<Rightarrow>
          (case simulateTemporalTransmission encodedState (errorRate cfg) g of
             (transmittedState, g1) \<Rightarrow>
               (case decode transmittedState of
                  Inl e \<Rightarrow> Inl e
                | Inr dr \<Rightarrow>
                    Inr (\<lparr>ev_inputData = inputData, ev_encodedState = encodedState,
                          ev_transmittedState = transmittedState, ev_decodingResult = dr,
                          ev_finalData = dataBits dr, ev_errorsCorrected = errorDetected dr,
                          ev_errorPosition = errorPosition dr\<rparr>, g1))))"

text \<open>
  \<open>calculateConvergenceError(current, previous)\<close>: \<open>Infinity\<close> without a
  previous state; a missing previous entry (\<open>undefined\<close>) differs from every bit.
\<close>

definition calculateConvergenceError :: "int list \<Rightarrow> int list option \<Rightarrow> js_real" where
  "calculateConvergenceError currentState previousState =
     (case previousState of
        None \<Rightarrow> JPosInf
      | Some prev \<Rightarrow>
          js_div_count (length (filter (\<lambda>i. length prev \<le> i \<or> currentState ! i \<noteq> prev ! i)
                                   [0..<length currentState]))
            (length currentState))"

text \<open>
  \<open>applyAdaptiveStep\<close>: a changed bit draws once and keeps its new value when
  the draw is below \<open>1 - dampingFactor\<close>. The solver passes arrays of one
  length; the loop stops where the previous array ends.
\<close>

fun adaptive_loop :: "real \<Rightarrow> int list \<Rightarrow> int list \<Rightarrow> rng \<Rightarrow> int list \<times> rng" where
  "adaptive_loop df (c # cs) (p # ps) g =
     (if c \<noteq> p then
        (case next_random g of
           (r, g1) \<Rightarrow> (case adaptive_loop df cs ps g1 of
                         (rest, g2) \<Rightarrow> ((if r < 1 - df then c else p) # rest, g2)))
      else (case adaptive_loop df cs ps g of (rest, g1) \<Rightarrow> (c # rest, g1)))"
| "adaptive_loop df cs ps g = (cs, g)"

definition applyAdaptiveStep ::
  "int list \<Rightarrow> int list \<Rightarrow> solver_config \<Rightarrow> rng \<Rightarrow> int list \<times> rng" where
  "applyAdaptiveStep currentState previousState cfg g =
     adaptive_loop (dampingFactor cfg) currentState previousState g"

definition recordIterationStep ::
  "int list \<Rightarrow> js_real \<Rightarrow> evolution_result \<Rightarrow> solver \<Rightarrow> solver" where
  "recordIterationStep currentData err evo st =
     st\<lparr>convergenceHistory := convergenceHistory st @
          [\<lparr>h_iteration = currentIteration st, h_state = currentData, h_convergenceError = err,
            h_errorsCorrected = ev_errorsCorrected evo, h_errorPosition = ev_errorPosition evo,
            h_encodedState = ev_encodedState evo, h_transmittedState = ev_transmittedState evo\<rparr>]\<rparr>"

text \<open>
  The \<open>for\<close> loop of \<open>solveFixedPoint\<close>. The counter starts at 0 and
  the test \<open>currentIteration < maxIterations\<close> succeeds
  \<open>nat \<lceil>maxIterations\<rceil>\<close> times for any number \<open>maxIterations\<close>; the
  fuel \<open>n\<close> is the number of tests that still succeed, so a run of the model
  is a run of the loop. A converged step breaks before the increment; an
  unsuccessful step increments \<open>currentIteration\<close>, the last one to
  \<open>nat \<lceil>maxIterations\<rceil>\<close>.
\<close>

fun solve_loop ::
  "solver_config \<Rightarrow> nat \<Rightarrow> int list \<Rightarrow> solver \<Rightarrow> rng \<Rightarrow> error + int list \<times> solver \<times> rng" where
  "solve_loop cfg 0 currentData st g = Inr (currentData, st, g)"
| "solve_loop cfg (Suc n) currentData st g =
     (let previousData = currentData in
      case applySingleEvolutionCycle currentData cfg g of
        Inl e \<Rightarrow> Inl e
      | Inr (evo, g1) \<Rightarrow>
          (let cur1 = ev_finalData evo;
               err = calculateConvergenceError cur1 (Some previousData);
               st1 = recordIterationStep cur1 err evo (st\<lparr>convergenceError := err\<rparr>)
           in if js_le err (convergenceTolerance cfg) then Inr (cur1, st1\<lparr>isConverged := True\<rparr>, g1)
              else (case (if enableAdaptiveStep cfg then applyAdaptiveStep cur1 previousData cfg g1
                          else (cur1, g1)) of
                      (cur2, g2) \<Rightarrow>
                        solve_loop cfg n cur2 (st1\<lparr>currentIteration := Suc (currentIteration st1)\<rparr>) g2)))"

definition updateStatistics :: "solver \<Rightarrow> solver" where
  "updateStatistics st =
     st\<lparr>statistics := \<lparr>totalRuns = Suc (totalRuns (statistics st)),
        successfulConvergences = (if isConverged st then Suc (successfulConvergences (statistics st))
                                  else successfulConvergences (statistics st)),
        averageIterations = 0.1 * real (currentIteration st + 1)
                            + (1 - 0.1) * averageIterations (statistics st)\<rparr>\<rparr>"

text \<open>
  \<open>calculateConvergenceRate\<close>: the mean of \<open>|ln (e_i / e_(i-1))|\<close> over the
  entries from index 2 on where both errors are positive and the logarithm is
  finite and negative (with a non-finite error the ratio's logarithm is not
  finite).
\<close>

definition calculateConvergenceRate :: "history_entry list \<Rightarrow> real" where
  "calculateConvergenceRate hs =
     (if length hs < 3 then 0
      else case foldl (\<lambda>(tot, valid) i.
                  (case (h_convergenceError (hs ! (i - 1)), h_convergenceError (hs ! i)) of
                     (JNum e_prev, JNum e_curr) \<Rightarrow>
                       if e_prev > 0 \<and> e_curr > 0 \<and> ln (e_curr / e_prev) < 0
                       then (tot + \<bar>ln (e_curr / e_prev)\<bar>, Suc valid) else (tot, valid)
                   | _ \<Rightarrow> (tot, valid)))
                (0, 0) [2..<length hs] of
             (tot, valid) \<Rightarrow> if valid > 0 then tot / real valid else 0)"

record error_stats =
  totalErrorsDetected :: nat
  es_errorsCorrected :: nat
  correctionEfficiency :: real
  averageErrorsPerIteration :: js_real

definition analyzeErrorCorrection :: "history_entry list \<Rightarrow> error_stats" where
  "analyzeErrorCorrection hs =
     (let totalErrors = length (filter h_errorsCorrected hs); correctedErrors = totalErrors
      in \<lparr>totalErrorsDetected = totalErrors, es_errorsCorrected = correctedErrors,
          correctionEfficiency = (if totalErrors > 0 then real correctedErrors / real totalErrors else 1),
          averageErrorsPerIteration = js_div_count totalErrors (length hs)\<rparr>)"

definition estimateMemoryUsage_solver :: "solver \<Rightarrow> nat" where
  "estimateMemoryUsage_solver st = length (convergenceHistory st) * 100"

record solve_report =
  finalState :: "int list"
  converged :: bool
  iterations :: nat
  finalError :: js_real
  parameters :: solver_config
  report_history :: "history_entry list"
  convergenceRate :: real
  errorCorrectionStats :: error_stats
  memoryUsage :: nat

definition createSolutionReport :: "int list \<Rightarrow> solver_config \<Rightarrow> solver \<Rightarrow> solve_report" where
  "createSolutionReport finalData cfg st =
     \<lparr>finalState = finalData, converged = isConverged st, iterations = currentIteration st + 1,
      finalError = convergenceError st, parameters = cfg, report_history = convergenceHistory st,
      convergenceRate = calculateConvergenceRate (convergenceHistory st),
      errorCorrectionStats = analyzeErrorCorrection (convergenceHistory st),
      memoryUsage = estimateMemoryUsage_solver st\<rparr>"

definition solveFixedPoint ::
  "int list \<Rightarrow> solver_params \<Rightarrow> solver \<Rightarrow> rng \<Rightarrow> error + solve_report \<times> solver \<times> rng" where
  "solveFixedPoint initialData params st g =
     (let cfg = merge_params params in
      case solve_loop cfg (nat \<lceil>maxIterations cfg\<rceil>) initialData (resetIterationState st) g of
        Inl e \<Rightarrow> Inl e
      | Inr (currentData, st1, g1) \<Rightarrow>
          (let st2 = updateStatistics st1 in Inr (createSolutionReport currentData cfg st2, st2, g1)))"

text \<open>
  \<open>calculateDistributionStats(data)\<close>: the empty case has no \<open>q25\<close> and
  \<open>q75\<close> keys.
\<close>

record dist_stats =
  dst_mean :: real
  dst_std :: real
  dst_min :: real
  dst_max :: real
  dst_median :: real
  dst_q25 :: "real option"
  dst_q75 :: "real option"

definition calculateDistributionStats :: "real list \<Rightarrow> dist_stats" where
  "calculateDistributionStats data =
     (if data = [] then
        \<lparr>dst_mean = 0, dst_std = 0, dst_min = 0, dst_max = 0, dst_median = 0,
         dst_q25 = None, dst_q75 = None\<rparr>
      else
        let sorted = sort data;
            mean = foldl (\<lambda>sum val. sum + val) 0 data / real (length data);
            variance = foldl (\<lambda>sum val. sum + (val - mean) ^ 2) 0 data / real (length data);
            std = sqrt variance
        in \<lparr>dst_mean = mean, dst_std = std, dst_min = sorted ! 0,
            dst_max = sorted ! (length sorted - 1),
            dst_median = sorted ! nat \<lfloor>real (length sorted) / 2\<rfloor>,
            dst_q25 = Some (sorted ! nat \<lfloor>real (length sorted) * 0.25\<rfloor>),
            dst_q75 = Some (sorted ! nat \<lfloor>real (length sorted) * 0.75\<rfloor>)\<rparr>)"

text \<open>
  The loop of \<open>runStatisticalAnalysis(numRuns, baseParams)\<close>: four draws for
  the initial word, one draw for the error-rate variation, then one solver
  run on the same solver object. The run's parameters are \<open>baseParams\<close> with
  \<open>errorRate\<close> and \<open>convergenceTolerance\<close> always set: the tolerance key is
  present with value \<open>undefined\<close> when \<open>baseParams\<close> has none, and an absent
  base error rate makes \<open>undefined + x\<close>, i.e. \<open>NaN\<close>. With a \<open>NaN\<close> rate
  no comparison \<open>Math.random() < NaN\<close> holds, which for draws in [0, 1) is
  what rate 0 gives; the model passes 0 for it.
\<close>

fun stat_runs ::
  "solver_params \<Rightarrow> nat \<Rightarrow> solver \<Rightarrow> rng \<Rightarrow> error + solve_report list \<times> solver \<times> rng" where
  "stat_runs baseParams 0 st g = Inr ([], st, g)"
| "stat_runs baseParams (Suc n) st g =
     (case randomBits 4 0.5 g of
        (initialData, g1) \<Rightarrow>
          (case next_random g1 of
             (r, g2) \<Rightarrow>
               (let params = baseParams\<lparr>
                      p_errorRate := Some (case p_errorRate baseParams of
                                             None \<Rightarrow> 0 | Some e \<Rightarrow> e + (r - 0.5) * 0.02),
                      p_convergenceTolerance := (case p_convergenceTolerance baseParams of
                                                   Val t \<Rightarrow> Val t | _ \<Rightarrow> Undef)\<rparr>
                in case solveFixedPoint initialData params st g2 of
                     Inl e \<Rightarrow> Inl e
                   | Inr (result, st1, g3) \<Rightarrow>
                       (case stat_runs baseParams n st1 g3 of
                          Inl e \<Rightarrow> Inl e
                        | Inr (rs, st2, g4) \<Rightarrow> Inr (result # rs, st2, g4)))))"

record stat_analysis =
  sa_totalRuns :: nat
  successRate :: js_real
  sa_averageIterations :: real
  averageConvergenceRate :: real
  results :: "solve_report list"
  convergenceRateStats :: dist_stats
  iterationStats :: dist_stats

definition runStatisticalAnalysis ::
  "nat \<Rightarrow> solver_params \<Rightarrow> solver \<Rightarrow> rng \<Rightarrow> error + stat_analysis \<times> solver \<times> rng" where
  "runStatisticalAnalysis numRuns baseParams st g =
     (case stat_runs baseParams numRuns st g of
        Inl e \<Rightarrow> Inl e
      | Inr (rs, st1, g1) \<Rightarrow>
          (let conv = filter converged rs;
               successCount = length conv;
               totalIterations = sum_list (map iterations conv);
               convergenceRates = map convergenceRate conv
           in Inr (\<lparr>sa_totalRuns = numRuns, successRate = js_div_count successCount numRuns,
                    sa_averageIterations = (if successCount > 0
                                            then real totalIterations / real successCount else 0),
                    averageConvergenceRate = (if convergenceRates \<noteq> []
                       then foldl (\<lambda>sum rate. sum + rate) 0 convergenceRates / real (length convergenceRates)
                       else 0),
                    results = rs,
                    convergenceRateStats = calculateDistributionStats convergenceRates,
                    iterationStats = calculateDistributionStats (map (real \<circ> iterations) conv)\<rparr>,
                   st1, g1)))"

record solver_status =
  status_currentIteration :: nat
  status_isConverged :: bool
  status_convergenceError :: js_real
  historyLength :: nat
  status_totalRuns :: nat
  status_successRate :: real

definition getStatus :: "solver \<Rightarrow> solver_status" where
  "getStatus st =
     \<lparr>status_currentIteration = currentIteration st, status_isConverged = isConverged st,
      status_convergenceError = convergenceError st, historyLength = length (convergenceHistory st),
      status_totalRuns = totalRuns (statistics st),
      status_successRate = (if totalRuns (statistics st) > 0
         then real (successfulConvergences (statistics st)) / real (totalRuns (statistics st)) else 0)\<rparr>"

text \<open>
  The solver object as a state machine: from the constructor's state, every
  call of \<open>solveFixedPoint\<close> that returns is a step.
\<close>

inductive solver_reach :: "solver \<Rightarrow> bool" where
  start: "solver_reach new_solver"
| step: "solver_reach st \<Longrightarrow> solveFixedPoint d params st g = Inr (rep, st', g') \<Longrightarrow>
           solver_reach st'"

text \<open>
  What a history entry records: a 4-bit state that is the decoding of the
  transmitted word, a transmitted word of seven bits, an encoded word that is
  the encoding of the state the cycle started from (its data bits 3, 5, 6, 7),
  and the fraction of bits in which the two states differ.
\<close>

definition codeword_data :: "int list \<Rightarrow> int list" where
  "codeword_data c = [c ! 2, c ! 4, c ! 5, c ! 6]"

definition entry_ok :: "history_entry \<Rightarrow> bool" where
  "entry_ok e \<longleftrightarrow>
     validateDataBits (h_state e) \<and> validateCodeword (h_transmittedState e) \<and>
     validateDataBits (codeword_data (h_encodedState e)) \<and>
     encode (codeword_data (h_encodedState e)) = Inr (h_encodedState e) \<and>
     (case decode (h_transmittedState e) of
        Inl _ \<Rightarrow> False
      | Inr dr \<Rightarrow> dataBits dr = h_state e \<and> errorDetected dr = h_errorsCorrected e \<and>
                 errorPosition dr = h_errorPosition e) \<and>
     h_convergenceError e = calculateConvergenceError (h_state e) (Some (codeword_data (h_encodedState e)))"

definition loop_converged :: "solver_config \<Rightarrow> history_entry list \<Rightarrow> bool" where
  "loop_converged cfg rs \<longleftrightarrow>
     rs \<noteq> [] \<and> js_le (h_convergenceError (last rs)) (convergenceTolerance cfg)"

text \<open>The invariant of the solver object.\<close>

definition solver_inv :: "solver \<Rightarrow> bool" where
  "solver_inv st \<longleftrightarrow>
     successfulConvergences (statistics st) \<le> totalRuns (statistics st) \<and>
     0 \<le> averageIterations (statistics st) \<and>
     list_all entry_ok (convergenceHistory st) \<and>
     map h_iteration (convergenceHistory st) = [0..<length (convergenceHistory st)] \<and>
     (isConverged st \<longrightarrow> convergenceHistory st \<noteq> [])"

text \<open>The parameters of the examples: ten iterations, no noise.\<close>

definition example_params :: solver_params where
  "example_params = no_params\<lparr>p_maxIterations := Some 10, p_errorRate := Some 0\<rparr>"

section \<open>Lemmas\<close>

lemma loop_count_pos [simp]: "0 < nat \<lceil>m :: real\<rceil> \<longleftrightarrow> 0 < m"
  by (simp add: zero_less_ceiling)

lemma conv_error_hamming:
  "length cur = 4 \<Longrightarrow>
     calculateConvergenceError cur (Some prev) = JNum (real (hammingDistance cur prev) / 4)"
  by (simp add: calculateConvergenceError_def js_div_count_def hammingDistance_def)

lemma conv_error_values:
  assumes "length cur = 4"
  shows "calculateConvergenceError cur (Some prev) \<in> {JNum 0, JNum (1 / 4), JNum (1 / 2), JNum (3 / 4), JNum 1}"
proof -
  have "hammingDistance cur prev \<le> 4"
    unfolding hammingDistance_def assms by (rule order_trans [OF length_filter_le]) simp
  then have "hammingDistance cur prev \<in> {0, 1, 2, 3, 4}"
    by auto
  then show ?thesis
    by (auto simp: conv_error_hamming [OF assms])
qed

lemma cycle_ok:
  assumes "validateDataBits d"
  shows "\<exists>evo g1. applySingleEvolutionCycle d cfg g = Inr (evo, g1) \<and> draws g1 = draws g \<and>
           validateDataBits (ev_finalData evo) \<and> encode d = Inr (ev_encodedState evo) \<and>
           (\<forall>k. entry_ok \<lparr>h_iteration = k, h_state = ev_finalData evo,
                   h_convergenceError = calculateConvergenceError (ev_finalData evo) (Some d),
                   h_errorsCorrected = ev_errorsCorrected evo, h_errorPosition = ev_errorPosition evo,
                   h_encodedState = ev_encodedState evo, h_transmittedState = ev_transmittedState evo\<rparr>)"
proof -
  obtain c where enc: "encode d = Inr c"
    using assms by (auto elim: encode_cases)
  have vc: "validateCodeword c" and dc: "codeword_data c = d"
    using encode_valid(1,3) [OF assms enc] by (simp_all add: codeword_data_def)
  obtain noisy g1 where inj: "injectErrors c (errorRate cfg) g = (noisy, g1)"
    by (cases "injectErrors c (errorRate cfg) g")
  have vn: "validateCodeword noisy" and g1: "draws g1 = draws g"
    using injectErrors_valid [OF vc, of "errorRate cfg" g] injectErrors_cursor [of c "errorRate cfg" g] inj
    by auto
  obtain r where dec: "decode noisy = Inr r" and vr: "validateDataBits (dataBits r)"
    using decode_data_valid [OF vn] by blast
  show ?thesis
    using assms enc inj dec vr vn g1 dc
    by (simp add: applySingleEvolutionCycle_def simulateTemporalTransmission_def entry_ok_def)
qed

lemma adaptive_valid:
  "bits_of_length m c \<Longrightarrow> bits_of_length m p \<Longrightarrow>
     bits_of_length m (fst (adaptive_loop df c p g)) \<and> draws (snd (adaptive_loop df c p g)) = draws g"
proof (induction df c p g arbitrary: m rule: adaptive_loop.induct)
  case (1 df c cs p ps g)
  then obtain m' where m: "m = Suc m'" by (cases m) (auto simp: bits_of_length_def)
  with "1.prems" have "is_bit c" "is_bit p" "bits_of_length m' cs" "bits_of_length m' ps"
    by simp_all
  with "1.IH" show ?case
    by (simp add: m next_random_def case_prod_beta)
qed (auto simp: bits_of_length_def)

lemma adaptive_step_valid:
  "validateDataBits c \<Longrightarrow> validateDataBits p \<Longrightarrow>
     validateDataBits (fst (applyAdaptiveStep c p cfg g)) \<and>
     draws (snd (applyAdaptiveStep c p cfg g)) = draws g"
  using adaptive_valid [of 4 c p "dampingFactor cfg" g]
  by (simp add: applyAdaptiveStep_def validateDataBits_def)

lemma loop_converged_Nil [simp]: "\<not> loop_converged cfg []"
  by (simp add: loop_converged_def)

lemma loop_converged_Cons:
  "loop_converged cfg (e # rs) =
     (if rs = [] then js_le (h_convergenceError e) (convergenceTolerance cfg) else loop_converged cfg rs)"
  by (simp add: loop_converged_def)

lemma solve_loop_run:
  assumes "validateDataBits d" and "\<not> isConverged st"
  shows "\<exists>d' st' g' rs. solve_loop cfg n d st g = Inr (d', st', g') \<and>
     convergenceHistory st' = convergenceHistory st @ rs \<and> length rs \<le> n \<and>
     list_all entry_ok rs \<and>
     map h_iteration rs = [currentIteration st..<currentIteration st + length rs] \<and>
     list_all (\<lambda>e. \<not> js_le (h_convergenceError e) (convergenceTolerance cfg)) (butlast rs) \<and>
     isConverged st' = loop_converged cfg rs \<and>
     (loop_converged cfg rs \<longrightarrow>
        Suc (currentIteration st') = currentIteration st + length rs \<and> d' = h_state (last rs)) \<and>
     (\<not> loop_converged cfg rs \<longrightarrow> currentIteration st' = currentIteration st + n \<and> length rs = n) \<and>
     convergenceError st' = (if rs = [] then convergenceError st else h_convergenceError (last rs)) \<and>
     statistics st' = statistics st \<and> validateDataBits d' \<and> draws g' = draws g \<and>
     (rs \<noteq> [] \<longrightarrow> encode d = Inr (h_encodedState (hd rs)))"
  using assms
proof (induction n arbitrary: d st g)
  case 0
  then show ?case
    by (intro exI [of _ d] exI [of _ st] exI [of _ g] exI [of _ "[]"]) (simp add: loop_converged_def)
next
  case (Suc m)
  obtain evo g1 where cyc: "applySingleEvolutionCycle d cfg g = Inr (evo, g1)"
    and g1: "draws g1 = draws g" and v1: "validateDataBits (ev_finalData evo)"
    and enc: "encode d = Inr (ev_encodedState evo)"
    and ok: "\<And>k. entry_ok \<lparr>h_iteration = k, h_state = ev_finalData evo,
                   h_convergenceError = calculateConvergenceError (ev_finalData evo) (Some d),
                   h_errorsCorrected = ev_errorsCorrected evo, h_errorPosition = ev_errorPosition evo,
                   h_encodedState = ev_encodedState evo, h_transmittedState = ev_transmittedState evo\<rparr>"
    using cycle_ok [OF Suc.prems(1), of cfg g] by blast
  define err where "err = calculateConvergenceError (ev_finalData evo) (Some d)"
  define e where "e = \<lparr>h_iteration = currentIteration st, h_state = ev_finalData evo,
      h_convergenceError = err, h_errorsCorrected = ev_errorsCorrected evo,
      h_errorPosition = ev_errorPosition evo, h_encodedState = ev_encodedState evo,
      h_transmittedState = ev_transmittedState evo\<rparr>"
  define st1 where "st1 = recordIterationStep (ev_finalData evo) err evo (st\<lparr>convergenceError := err\<rparr>)"
  have st1: "st1 = st\<lparr>convergenceError := err, convergenceHistory := convergenceHistory st @ [e]\<rparr>"
    by (simp add: st1_def e_def recordIterationStep_def)
  have eok: "entry_ok e"
    using ok unfolding e_def err_def .
  show ?case
  proof (cases "js_le err (convergenceTolerance cfg)")
    case True
    then have "solve_loop cfg (Suc m) d st g = Inr (ev_finalData evo, st1\<lparr>isConverged := True\<rparr>, g1)"
      by (simp add: cyc err_def st1_def Let_def)
    with True eok g1 v1 enc show ?thesis
      by (intro exI [of _ "ev_finalData evo"] exI [of _ "st1\<lparr>isConverged := True\<rparr>"] exI [of _ g1]
          exI [of _ "[e]"]) (simp add: st1 e_def loop_converged_def)
  next
    case False
    obtain cur2 g2 where adapt: "(if enableAdaptiveStep cfg then applyAdaptiveStep (ev_finalData evo) d cfg g1
        else (ev_finalData evo, g1)) = (cur2, g2)"
      by fastforce
    have v2: "validateDataBits cur2" and g2: "draws g2 = draws g"
      using adaptive_step_valid [OF v1 Suc.prems(1), of cfg g1] adapt g1 v1
      by (auto split: if_splits)
    define st2 where "st2 = st1\<lparr>currentIteration := Suc (currentIteration st1)\<rparr>"
    have run: "solve_loop cfg (Suc m) d st g = solve_loop cfg m cur2 st2 g2"
      using False adapt by (simp add: cyc err_def st1_def st2_def Let_def)
    have nc2: "\<not> isConverged st2"
      using Suc.prems(2) by (simp add: st2_def st1)
    obtain d' st' g' rs where IH: "solve_loop cfg m cur2 st2 g2 = Inr (d', st', g')"
      "convergenceHistory st' = convergenceHistory st2 @ rs" "length rs \<le> m"
      "list_all entry_ok rs"
      "map h_iteration rs = [currentIteration st2..<currentIteration st2 + length rs]"
      "list_all (\<lambda>e. \<not> js_le (h_convergenceError e) (convergenceTolerance cfg)) (butlast rs)"
      "isConverged st' = loop_converged cfg rs"
      "loop_converged cfg rs \<longrightarrow>
         Suc (currentIteration st') = currentIteration st2 + length rs \<and> d' = h_state (last rs)"
      "\<not> loop_converged cfg rs \<longrightarrow> currentIteration st' = currentIteration st2 + m \<and> length rs = m"
      "convergenceError st' = (if rs = [] then convergenceError st2 else h_convergenceError (last rs))"
      "statistics st' = statistics st2" "validateDataBits d'" "draws g' = draws g2"
      using Suc.IH [OF v2 nc2, of g2] by blast
    have nil: "rs = [] \<Longrightarrow> m = 0"
      using IH(9) by (simp add: loop_converged_def)
    have st2f: "currentIteration st2 = Suc (currentIteration st)" "convergenceError st2 = err"
        "statistics st2 = statistics st" "convergenceHistory st2 = convergenceHistory st @ [e]"
      by (simp_all add: st2_def st1)
    have ef: "h_iteration e = currentIteration st" "h_convergenceError e = err"
        "h_encodedState e = ev_encodedState evo"
      by (simp_all add: e_def)
    have res: "solve_loop cfg (Suc m) d st g = Inr (d', st', g')"
      using run IH(1) by simp
    have ups: "[currentIteration st..<currentIteration st + length (e # rs)] =
        currentIteration st # [Suc (currentIteration st)..<Suc (currentIteration st) + length rs]"
      using upt_Suc_Cons [of "currentIteration st" "length rs"] by simp
    show ?thesis
      apply (intro exI [of _ d'] exI [of _ st'] exI [of _ g'] exI [of _ "e # rs"])
      using res IH(2-13) st2f ef ups nil False eok g2 enc
      by (auto simp: loop_converged_Cons simp del: solve_loop.simps)
  qed
qed

lemma solveFixedPoint_run:
  assumes "validateDataBits d" and cfg_def: "cfg = merge_params params"
  shows "\<exists>rep st' g' rs. solveFixedPoint d params st g = Inr (rep, st', g') \<and>
     report_history rep = rs \<and> convergenceHistory st' = rs \<and> parameters rep = cfg \<and>
     list_all entry_ok rs \<and> map h_iteration rs = [0..<length rs] \<and>
     list_all (\<lambda>e. \<not> js_le (h_convergenceError e) (convergenceTolerance cfg)) (butlast rs) \<and>
     converged rep = loop_converged cfg rs \<and> isConverged st' = converged rep \<and>
     iterations rep = (if converged rep then length rs else Suc (length rs)) \<and>
     currentIteration st' + 1 = iterations rep \<and>
     length rs \<le> nat \<lceil>maxIterations cfg\<rceil> \<and>
     (\<not> converged rep \<longrightarrow> length rs = nat \<lceil>maxIterations cfg\<rceil>) \<and>
     finalError rep = (if rs = [] then JPosInf else h_convergenceError (last rs)) \<and>
     (converged rep \<longrightarrow> finalState rep = h_state (last rs)) \<and>
     validateDataBits (finalState rep) \<and>
     (rs \<noteq> [] \<longrightarrow> encode d = Inr (h_encodedState (hd rs))) \<and>
     statistics st' = \<lparr>totalRuns = Suc (totalRuns (statistics st)),
        successfulConvergences = (if converged rep then Suc (successfulConvergences (statistics st))
                                  else successfulConvergences (statistics st)),
        averageIterations = 0.1 * real (iterations rep) + (1 - 0.1) * averageIterations (statistics st)\<rparr> \<and>
     draws g' = draws g"
proof -
  have nc: "\<not> isConverged (resetIterationState st)"
    by (simp add: resetIterationState_def)
  have r: "currentIteration (resetIterationState st) = 0" "convergenceHistory (resetIterationState st) = []"
    "convergenceError (resetIterationState st) = JPosInf" "statistics (resetIterationState st) = statistics st"
    by (simp_all add: resetIterationState_def)
  obtain d' st1 g' rs where
    run: "solve_loop cfg (nat \<lceil>maxIterations cfg\<rceil>) d (resetIterationState st) g = Inr (d', st1, g')"
    and f: "convergenceHistory st1 = [] @ rs" "length rs \<le> nat \<lceil>maxIterations cfg\<rceil>"
      "list_all entry_ok rs" "map h_iteration rs = [0..<0 + length rs]"
      "list_all (\<lambda>e. \<not> js_le (h_convergenceError e) (convergenceTolerance cfg)) (butlast rs)"
      "isConverged st1 = loop_converged cfg rs"
      "loop_converged cfg rs \<longrightarrow> Suc (currentIteration st1) = 0 + length rs \<and> d' = h_state (last rs)"
      "\<not> loop_converged cfg rs \<longrightarrow> currentIteration st1 = 0 + nat \<lceil>maxIterations cfg\<rceil> \<and>
         length rs = nat \<lceil>maxIterations cfg\<rceil>"
      "convergenceError st1 = (if rs = [] then JPosInf else h_convergenceError (last rs))"
      "statistics st1 = statistics st" "validateDataBits d'" "draws g' = draws g"
      "rs \<noteq> [] \<longrightarrow> encode d = Inr (h_encodedState (hd rs))"
    using solve_loop_run [OF assms(1) nc, of cfg "nat \<lceil>maxIterations cfg\<rceil>" g, unfolded r]
    by blast
  have sol: "solveFixedPoint d params st g =
      Inr (createSolutionReport d' cfg (updateStatistics st1), updateStatistics st1, g')"
    using run by (simp add: solveFixedPoint_def cfg_def Let_def)
  show ?thesis
    apply (intro exI [of _ "createSolutionReport d' cfg (updateStatistics st1)"]
        exI [of _ "updateStatistics st1"] exI [of _ g'] exI [of _ rs])
    using sol f
    by (auto simp: createSolutionReport_def updateStatistics_def)
qed

lemma solveFixedPoint_invalid:
  assumes "\<not> validateDataBits d"
  shows "solveFixedPoint d params st g =
     (if 0 < maxIterations (merge_params params) then Inl InvalidInput
      else Inr (createSolutionReport d (merge_params params) (updateStatistics (resetIterationState st)),
                updateStatistics (resetIterationState st), g))"
proof (cases "nat \<lceil>maxIterations (merge_params params)\<rceil>")
  case 0
  then show ?thesis by (simp add: solveFixedPoint_def Let_def)
next
  case (Suc m)
  then have "0 < maxIterations (merge_params params)"
    using loop_count_pos [of "maxIterations (merge_params params)"] by simp
  with Suc show ?thesis
    using assms by (simp add: solveFixedPoint_def applySingleEvolutionCycle_def encode_def)
qed

lemma cycle_zero_noise:
  assumes "validateDataBits d" and "valid_rng g" and "errorRate cfg \<le> 0"
  shows "\<exists>evo g1. applySingleEvolutionCycle d cfg g = Inr (evo, g1) \<and> ev_finalData evo = d"
proof -
  obtain c where enc: "encode d = Inr c"
    using assms(1) by (auto elim: encode_cases)
  have noisy: "fst (injectErrors c (errorRate cfg) g) = c"
    by (rule injectErrors_no_flip [OF assms(2,3)])
  have dec: "decode c = Inr \<lparr>dataBits = [c ! 2, c ! 4, c ! 5, c ! 6], correctedCodeword = c,
      errorDetected = False, errorPosition = Some (-1), syndrome = [0, 0, 0], syndromeValue = 0\<rparr>"
    using decode_clean encode_valid(1,2) [OF assms(1) enc] by blast
  have data: "[c ! 2, c ! 4, c ! 5, c ! 6] = d"
    using encode_valid(3) [OF assms(1) enc] .
  with enc noisy dec show ?thesis
    by (simp add: applySingleEvolutionCycle_def simulateTemporalTransmission_def case_prod_beta)
qed

lemma zero_noise_run:
  assumes "validateDataBits d" and "valid_rng g" and "errorRate (merge_params params) \<le> 0"
    and "0 < maxIterations (merge_params params)"
    and "convergenceTolerance (merge_params params) = Some t" and "0 \<le> t"
  shows "\<exists>rep st' g'. solveFixedPoint d params st g = Inr (rep, st', g') \<and> converged rep \<and>
     iterations rep = 1 \<and> finalState rep = d \<and> finalError rep = JNum 0"
proof -
  obtain evo g1 where cyc: "applySingleEvolutionCycle d (merge_params params) g = Inr (evo, g1)"
    and fd: "ev_finalData evo = d"
    using cycle_zero_noise [OF assms(1-3)] by blast
  obtain m where m: "nat \<lceil>maxIterations (merge_params params)\<rceil> = Suc m"
    using assms(4) by (cases "nat \<lceil>maxIterations (merge_params params)\<rceil>") auto
  have "length d = 4"
    using assms(1) by (simp add: validateDataBits_def bits_of_length_def)
  then have "calculateConvergenceError d (Some d) = JNum 0"
    by (simp add: calculateConvergenceError_def js_div_count_def)
  then show ?thesis
    using cyc fd m assms(5,6)
    by (simp add: solveFixedPoint_def Let_def createSolutionReport_def updateStatistics_def
        recordIterationStep_def resetIterationState_def)
qed

lemma solve_step_inv:
  assumes "solveFixedPoint d params st g = Inr (rep, st', g')" and "solver_inv st"
  shows "solver_inv st'"
proof (cases "validateDataBits d")
  case True
  then show ?thesis
    using solveFixedPoint_run [OF True refl, of params st g] assms
    by (auto simp: solver_inv_def loop_converged_def)
next
  case False
  then have "st' = updateStatistics (resetIterationState st)"
    using assms(1) by (simp add: solveFixedPoint_invalid split: if_splits)
  then show ?thesis
    using assms(2) by (simp add: solver_inv_def updateStatistics_def resetIterationState_def)
qed

lemma adaptive_loop_behaviour:
  assumes "valid_rng g" and "length c = length p"
  shows "(df \<le> 0 \<longrightarrow> fst (adaptive_loop df c p g) = c) \<and>
     (1 \<le> df \<longrightarrow> fst (adaptive_loop df c p g) = p) \<and>
     list_all2 (\<lambda>x (a, b). x = a \<or> x = b) (fst (adaptive_loop df c p g)) (zip c p) \<and>
     snd (adaptive_loop df c p g) = g\<lparr>cursor := cursor g + length (filter (\<lambda>(a, b). a \<noteq> b) (zip c p))\<rparr>"
  using assms
proof (induction df c p g rule: adaptive_loop.induct)
  case (1 df c cs p ps g)
  have r: "0 \<le> draws g (cursor g)" "draws g (cursor g) < 1"
    using "1.prems"(1) by (simp_all add: valid_rng_def)
  have v1: "valid_rng (g\<lparr>cursor := Suc (cursor g)\<rparr>)"
    using "1.prems"(1) by (simp add: valid_rng_def)
  have len: "length cs = length ps"
    using "1.prems"(2) by simp
  show ?case
  proof (cases "c = p")
    case True
    have "\<not> c \<noteq> p" using True by simp
    then show ?thesis
      using "1.IH"(2) [OF _ "1.prems"(1) len] True by (simp add: case_prod_beta)
  next
    case False
    have lt: "df \<le> 0 \<Longrightarrow> draws g (cursor g) < 1 - df" and ge: "1 \<le> df \<Longrightarrow> \<not> draws g (cursor g) < 1 - df"
      using r by simp_all
    show ?thesis
      using "1.IH"(1) [OF False _ v1 len, of "draws g (cursor g)"] False lt ge
      by (auto simp: next_random_def case_prod_beta)
  qed
qed auto

lemma stat_runs_ok:
  "\<exists>rs st' g'. stat_runs base n st g = Inr (rs, st', g') \<and> length rs = n \<and>
     (p_convergenceTolerance base \<in> {Absent, Undef} \<longrightarrow>
        list_all (\<lambda>r. \<not> converged r \<and> iterations r = nat \<lceil>maxIterations (merge_params base)\<rceil> + 1) rs)"
proof (induction n arbitrary: st g)
  case 0
  then show ?case by simp
next
  case (Suc n)
  obtain bs g1 where rb: "randomBits 4 0.5 g = (bs, g1)"
    by fastforce
  have vb: "validateDataBits bs"
    using randomBits_valid [of 4 "0.5" g] rb by (simp add: validateDataBits_def)
  obtain r g2 where nr: "next_random g1 = (r, g2)"
    by fastforce
  define params where "params = base\<lparr>
      p_errorRate := Some (case p_errorRate base of None \<Rightarrow> 0 | Some e \<Rightarrow> e + (r - 0.5) * 0.02),
      p_convergenceTolerance := (case p_convergenceTolerance base of Val t \<Rightarrow> Val t | _ \<Rightarrow> Undef)\<rparr>"
  have mi: "maxIterations (merge_params params) = maxIterations (merge_params base)"
    by (simp add: params_def merge_params_def)
  have tol: "p_convergenceTolerance base \<in> {Absent, Undef} \<Longrightarrow>
      convergenceTolerance (merge_params params) = None"
    by (auto simp: params_def merge_params_def)
  obtain rep st1 g3 rs0 where sol: "solveFixedPoint bs params st g2 = Inr (rep, st1, g3)"
    and f: "report_history rep = rs0" "converged rep = loop_converged (merge_params params) rs0"
      "iterations rep = (if converged rep then length rs0 else Suc (length rs0))"
      "\<not> converged rep \<longrightarrow> length rs0 = nat \<lceil>maxIterations (merge_params params)\<rceil>"
    using solveFixedPoint_run [OF vb refl, of params st g2] by blast
  obtain rs st' g' where IH: "stat_runs base n st1 g3 = Inr (rs, st', g')" "length rs = n"
    "p_convergenceTolerance base \<in> {Absent, Undef} \<longrightarrow>
       list_all (\<lambda>r. \<not> converged r \<and> iterations r = nat \<lceil>maxIterations (merge_params base)\<rceil> + 1) rs"
    using Suc.IH [of st1 g3] by blast
  have step: "stat_runs base (Suc n) st g = Inr (rep # rs, st', g')"
    using rb nr sol IH(1) by (simp add: params_def [symmetric] Let_def)
  show ?case
    using step IH(2,3) f mi tol by (auto simp: loop_converged_def)
qed

lemmas example_simps = example_params_def no_params_def merge_params_def defaultParams_def
  validateDataBits_def bits_of_length_def is_bit_def

section \<open>Properties\<close>

text \<open>
  C7. Termination and the iteration count: for a 4-bit input the solver
  always returns, with at most \<open>maxIterations\<close> history entries. A converged
  run reports as many iterations as it recorded; a run that did not converge
  recorded exactly \<open>maxIterations\<close> entries but reports
  \<open>iterations = maxIterations + 1\<close>, because the report adds one to the loop
  counter after it has been incremented past the last iteration.
\<close>

theorem solveFixedPoint_terminates:
  assumes "validateDataBits d"
  shows "\<exists>rep st' g'. solveFixedPoint d params st g = Inr (rep, st', g') \<and>
     length (report_history rep) \<le> nat \<lceil>maxIterations (merge_params params)\<rceil> \<and>
     (converged rep \<longrightarrow> iterations rep = length (report_history rep)) \<and>
     (\<not> converged rep \<longrightarrow> length (report_history rep) = nat \<lceil>maxIterations (merge_params params)\<rceil> \<and>
        iterations rep = nat \<lceil>maxIterations (merge_params params)\<rceil> + 1)"
  using solveFixedPoint_run [OF assms refl, of params st g] by auto

theorem solveFixedPoint_terminates_witness:
  "\<exists>rep st' g'. solveFixedPoint [0, 1, 1, 0] example_params new_solver (const_rng 0) = Inr (rep, st', g') \<and>
     length (report_history rep) \<le> nat \<lceil>maxIterations (merge_params example_params)\<rceil> \<and>
     (converged rep \<longrightarrow> iterations rep = length (report_history rep)) \<and>
     (\<not> converged rep \<longrightarrow> length (report_history rep) = nat \<lceil>maxIterations (merge_params example_params)\<rceil> \<and>
        iterations rep = nat \<lceil>maxIterations (merge_params example_params)\<rceil> + 1)"
  by (rule solveFixedPoint_terminates) (simp add: example_simps)

text \<open>
  C8. The outcome: the final error is the last entry's convergence error
  (\<open>Infinity\<close> when no iteration ran); the run is converged exactly when it
  recorded an entry whose error is within the tolerance, which is the last
  one, since the loop breaks at the first; the final state is then that
  entry's state.
\<close>

theorem solveFixedPoint_outcome:
  assumes "validateDataBits d" and "solveFixedPoint d params st g = Inr (rep, st', g')"
  shows "finalError rep = (if report_history rep = [] then JPosInf
                           else h_convergenceError (last (report_history rep))) \<and>
     (converged rep \<longleftrightarrow>
        report_history rep \<noteq> [] \<and> js_le (finalError rep) (convergenceTolerance (merge_params params))) \<and>
     list_all (\<lambda>e. \<not> js_le (h_convergenceError e) (convergenceTolerance (merge_params params)))
       (butlast (report_history rep)) \<and>
     (converged rep \<longrightarrow> finalState rep = h_state (last (report_history rep)))"
  using solveFixedPoint_run [OF assms(1) refl, of params st g] assms(2)
  by (auto simp: loop_converged_def)

theorem solveFixedPoint_outcome_witness:
  "\<exists>rep st' g'. solveFixedPoint [1, 0, 0, 1] example_params new_solver (const_rng 0) = Inr (rep, st', g') \<and>
     finalError rep = (if report_history rep = [] then JPosInf
                       else h_convergenceError (last (report_history rep))) \<and>
     (converged rep \<longleftrightarrow>
        report_history rep \<noteq> [] \<and> js_le (finalError rep) (convergenceTolerance (merge_params example_params))) \<and>
     list_all (\<lambda>e. \<not> js_le (h_convergenceError e) (convergenceTolerance (merge_params example_params)))
       (butlast (report_history rep)) \<and>
     (converged rep \<longrightarrow> finalState rep = h_state (last (report_history rep)))"
proof -
  have v: "validateDataBits [1, 0, 0, 1]"
    by (simp add: example_simps)
  obtain rep st' g' where sol: "solveFixedPoint [1, 0, 0, 1] example_params new_solver (const_rng 0) =
      Inr (rep, st', g')"
    using solveFixedPoint_run [OF v refl, of example_params new_solver "const_rng 0"] by blast
  show ?thesis
    using solveFixedPoint_outcome [OF v sol] sol by blast
qed

text \<open>
  C9. Without noise the solver converges at once: with error rate at most 0,
  at least one iteration allowed and a finite tolerance of at least 0, the
  first cycle reproduces the input, so the result is converged after one
  iteration with the input as final state and error 0.
\<close>

theorem solveFixedPoint_zero_noise:
  assumes "validateDataBits d" and "valid_rng g" and "errorRate (merge_params params) \<le> 0"
    and "0 < maxIterations (merge_params params)"
    and "convergenceTolerance (merge_params params) = Some t" and "0 \<le> t"
  shows "\<exists>rep st' g'. solveFixedPoint d params st g = Inr (rep, st', g') \<and> converged rep \<and>
     iterations rep = 1 \<and> finalState rep = d \<and> finalError rep = JNum 0"
  using zero_noise_run [OF assms] .

theorem solveFixedPoint_zero_noise_witness:
  "\<exists>rep st' g'. solveFixedPoint [1, 0, 1, 1] example_params new_solver (const_rng (1 / 2)) =
     Inr (rep, st', g') \<and> converged rep \<and> iterations rep = 1 \<and> finalState rep = [1, 0, 1, 1] \<and>
     finalError rep = JNum 0"
  by (rule solveFixedPoint_zero_noise [where t = "1 / 1000000"])
    (simp_all add: example_simps valid_const_rng)

text \<open>
  C10. Errors: the solver throws exactly when at least one iteration is
  allowed and the input is not a 4-bit word, and then with the encoder's
  \<open>InvalidInput\<close>. No parameter is ever rejected: a negative error rate,
  a damping factor outside [0, 1] or a non-integer limit run as given.
\<close>

theorem solveFixedPoint_errors:
  "solveFixedPoint d params st g = Inl e \<longleftrightarrow>
     0 < maxIterations (merge_params params) \<and> \<not> validateDataBits d \<and> e = InvalidInput"
proof (cases "validateDataBits d")
  case True
  then show ?thesis
    using solveFixedPoint_run [OF True refl, of params st g] by auto
qed (auto simp: solveFixedPoint_invalid)

theorem solveFixedPoint_errors_witness:
  "solveFixedPoint [1, 0, 2, 0] example_params new_solver (const_rng 0) = Inl InvalidInput \<and>
   solveFixedPoint [1, 0, 1, 0] (example_params\<lparr>p_dampingFactor := Some 7\<rparr>) new_solver (const_rng 0) \<noteq>
     Inl InvalidParameter"
  using solveFixedPoint_errors [of "[1, 0, 2, 0]" example_params new_solver "const_rng 0" InvalidInput]
    solveFixedPoint_errors [of "[1, 0, 1, 0]" "example_params\<lparr>p_dampingFactor := Some 7\<rparr>" new_solver
      "const_rng 0" InvalidParameter]
  by (simp add: example_simps)

text \<open>
  C11. Invariant of the solver object, by rule induction over the states that
  calls of \<open>solveFixedPoint\<close> reach from the constructor: the run counters
  are consistent, so the success rate that \<open>getStatus\<close> reports is a
  probability; the running average of iterations is non-negative; the history
  is numbered 0, 1, ... and every entry records a genuine
  encode/transmit/decode cycle; a converged flag comes with a history.
\<close>

theorem solver_reach_inv:
  assumes "solver_reach st"
  shows "solver_inv st \<and> 0 \<le> status_successRate (getStatus st) \<and> status_successRate (getStatus st) \<le> 1"
proof -
  have inv: "solver_inv st"
    using assms
  proof (induction rule: solver_reach.induct)
    case start
    then show ?case by (simp add: solver_inv_def new_solver_def)
  next
    case (step st d params g rep st' g')
    then show ?case using solve_step_inv by blast
  qed
  then show ?thesis
    by (simp add: getStatus_def solver_inv_def)
qed

theorem solver_reach_inv_witness:
  "solver_inv (updateStatistics (resetIterationState new_solver)) \<and>
   0 \<le> status_successRate (getStatus (updateStatistics (resetIterationState new_solver))) \<and>
   status_successRate (getStatus (updateStatistics (resetIterationState new_solver))) \<le> 1"
proof -
  have "solveFixedPoint [] (no_params\<lparr>p_maxIterations := Some 0\<rparr>) new_solver (const_rng 0) =
      Inr (createSolutionReport [] (merge_params (no_params\<lparr>p_maxIterations := Some 0\<rparr>))
             (updateStatistics (resetIterationState new_solver)),
           updateStatistics (resetIterationState new_solver), const_rng 0)"
    by (simp add: solveFixedPoint_invalid example_simps)
  then have "solver_reach (updateStatistics (resetIterationState new_solver))"
    by (rule solver_reach.step [OF solver_reach.start])
  then show ?thesis
    by (rule solver_reach_inv)
qed

text \<open>
  Every history entry of a run is a genuine cycle: its state is a 4-bit
  word, the decoding of its transmitted word, and its encoded word is the
  encoding of the state the cycle started from; its convergence error is the
  fraction of the four bits that changed, one of 0, 1/4, 1/2, 3/4, 1. The
  entries are numbered from 0, the first encodes the input, and the final state
  is a 4-bit word.
\<close>

theorem solveFixedPoint_history:
  assumes "validateDataBits d" and "solveFixedPoint d params st g = Inr (rep, st', g')"
  shows "list_all entry_ok (report_history rep) \<and>
     list_all (\<lambda>e. h_convergenceError e \<in> {JNum 0, JNum (1 / 4), JNum (1 / 2), JNum (3 / 4), JNum 1})
       (report_history rep) \<and>
     map h_iteration (report_history rep) = [0..<length (report_history rep)] \<and>
     (report_history rep \<noteq> [] \<longrightarrow> encode d = Inr (h_encodedState (hd (report_history rep)))) \<and>
     validateDataBits (finalState rep)"
proof -
  have vals: "entry_ok e \<Longrightarrow>
      h_convergenceError e \<in> {JNum 0, JNum (1 / 4), JNum (1 / 2), JNum (3 / 4), JNum 1}" for e
    using conv_error_values [of "h_state e" "codeword_data (h_encodedState e)"]
    by (simp add: entry_ok_def validateDataBits_def bits_of_length_def)
  show ?thesis
    using solveFixedPoint_run [OF assms(1) refl, of params st g] assms(2) vals
    by (auto simp: list_all_iff)
qed

theorem solveFixedPoint_history_witness:
  "\<exists>rep st' g'. solveFixedPoint [0, 1, 0, 1] example_params new_solver (const_rng 0) = Inr (rep, st', g') \<and>
     list_all entry_ok (report_history rep) \<and>
     list_all (\<lambda>e. h_convergenceError e \<in> {JNum 0, JNum (1 / 4), JNum (1 / 2), JNum (3 / 4), JNum 1})
       (report_history rep) \<and>
     map h_iteration (report_history rep) = [0..<length (report_history rep)] \<and>
     (report_history rep \<noteq> [] \<longrightarrow> encode [0, 1, 0, 1] = Inr (h_encodedState (hd (report_history rep)))) \<and>
     validateDataBits (finalState rep)"
proof -
  have v: "validateDataBits [0, 1, 0, 1]"
    by (simp add: example_simps)
  obtain rep st' g' where sol: "solveFixedPoint [0, 1, 0, 1] example_params new_solver (const_rng 0) =
      Inr (rep, st', g')"
    using solveFixedPoint_run [OF v refl, of example_params new_solver "const_rng 0"] by blast
  show ?thesis
    using solveFixedPoint_history [OF v sol] sol by blast
qed

text \<open>
  C12. A converged result is a fixed point of the cycle: when the tolerance is
  below 1/4 (one bit out of four), the final state is the word whose encoding
  the last cycle transmitted, and decoding what was received gave it back.
\<close>

theorem solveFixedPoint_fixed_point:
  assumes "validateDataBits d" and "solveFixedPoint d params st g = Inr (rep, st', g')"
    and "converged rep" and "convergenceTolerance (merge_params params) = Some t" and "t < 1 / 4"
  shows "encode (finalState rep) = Inr (h_encodedState (last (report_history rep))) \<and>
     (case decode (h_transmittedState (last (report_history rep))) of
        Inl _ \<Rightarrow> False | Inr dr \<Rightarrow> dataBits dr = finalState rep)"
proof -
  obtain rs where f: "report_history rep = rs" "list_all entry_ok rs" "rs \<noteq> []"
      "js_le (h_convergenceError (last rs)) (Some t)" "finalState rep = h_state (last rs)"
    using solveFixedPoint_run [OF assms(1) refl, of params st g] assms(2,3,4)
    by (auto simp: loop_converged_def)
  define e where "e = last rs"
  have ok: "entry_ok e"
    using f(2,3) by (simp add: e_def list_all_iff)
  have len: "length (h_state e) = 4" "length (codeword_data (h_encodedState e)) = 4"
    by (simp_all add: codeword_data_def) (use ok in \<open>simp add: entry_ok_def validateDataBits_def bits_of_length_def\<close>)
  have "real (hammingDistance (h_state e) (codeword_data (h_encodedState e))) / 4 \<le> t"
    using f(4) ok conv_error_hamming [OF len(1)] by (simp add: e_def [symmetric] entry_ok_def)
  then have "hammingDistance (h_state e) (codeword_data (h_encodedState e)) = 0"
    using assms(5) by simp
  then have "h_state e = codeword_data (h_encodedState e)"
    using len by (auto simp: hammingDistance_def filter_empty_conv intro: nth_equalityI)
  with ok f(1,5) show ?thesis
    by (auto simp: e_def entry_ok_def split: sum.splits)
qed

theorem solveFixedPoint_fixed_point_witness:
  "\<exists>rep st' g'. solveFixedPoint [0, 0, 1, 1] example_params new_solver (const_rng 0) = Inr (rep, st', g') \<and>
     converged rep \<and> encode (finalState rep) = Inr (h_encodedState (last (report_history rep))) \<and>
     (case decode (h_transmittedState (last (report_history rep))) of
        Inl _ \<Rightarrow> False | Inr dr \<Rightarrow> dataBits dr = finalState rep)"
proof -
  have v: "validateDataBits [0, 0, 1, 1]"
    by (simp add: example_simps)
  obtain rep st' g' where sol: "solveFixedPoint [0, 0, 1, 1] example_params new_solver (const_rng 0) =
      Inr (rep, st', g')" and c: "converged rep"
    using zero_noise_run [OF v valid_const_rng [of 0],
        where params = example_params and t = "1 / 1000000" and st = new_solver]
    by (auto simp: example_simps)
  show ?thesis
    using solveFixedPoint_fixed_point [OF v sol c, of "1 / 1000000"] sol c
    by (simp add: example_simps)
qed

text \<open>
  The adaptive step: every bit of the result is the new or the old value
  of that bit, and a bit that did not change stays; with damping factor at most
  0 the new state is kept, with damping factor at least 1 the old state is
  restored (so the next cycle starts again from the same word); exactly one
  random number is drawn per changed bit.
\<close>

theorem applyAdaptiveStep_behaviour:
  assumes "valid_rng g" and "length c = length p"
  shows "list_all2 (\<lambda>x (a, b). x = a \<or> x = b) (fst (applyAdaptiveStep c p cfg g)) (zip c p) \<and>
     (dampingFactor cfg \<le> 0 \<longrightarrow> fst (applyAdaptiveStep c p cfg g) = c) \<and>
     (1 \<le> dampingFactor cfg \<longrightarrow> fst (applyAdaptiveStep c p cfg g) = p) \<and>
     snd (applyAdaptiveStep c p cfg g) =
       g\<lparr>cursor := cursor g + length (filter (\<lambda>(a, b). a \<noteq> b) (zip c p))\<rparr>"
  using adaptive_loop_behaviour [OF assms, of "dampingFactor cfg"]
  by (simp add: applyAdaptiveStep_def)

theorem applyAdaptiveStep_behaviour_witness:
  "list_all2 (\<lambda>x (a, b). x = a \<or> x = b)
     (fst (applyAdaptiveStep [1, 0, 0, 1] [0, 0, 1, 1] (defaultParams\<lparr>dampingFactor := 0\<rparr>) (const_rng 0)))
     (zip [1, 0, 0, 1] [0, 0, 1, 1]) \<and>
   fst (applyAdaptiveStep [1, 0, 0, 1] [0, 0, 1, 1] (defaultParams\<lparr>dampingFactor := 0\<rparr>) (const_rng 0)) =
     [1, 0, 0, 1] \<and>
   snd (applyAdaptiveStep [1, 0, 0, 1] [0, 0, 1, 1] (defaultParams\<lparr>dampingFactor := 0\<rparr>) (const_rng 0)) =
     (const_rng 0)\<lparr>cursor := cursor (const_rng 0) + 2\<rparr>"
  using applyAdaptiveStep_behaviour [OF valid_const_rng [of 0], of "[1, 0, 0, 1]" "[0, 0, 1, 1]"
      "defaultParams\<lparr>dampingFactor := 0\<rparr>"]
  by simp

text \<open>
  The solver's distribution statistics are the utilities' descriptive
  statistics: \<open>calculateDistributionStats\<close> of \<open>fixedpoint.js\<close> and
  \<open>stats.descriptive\<close> of \<open>utils.js\<close> agree on every field they share, for
  every list, the empty one included.
\<close>

theorem calculateDistributionStats_descriptive:
  "calculateDistributionStats data =
     \<lparr>dst_mean = ds_mean (descriptive data), dst_std = ds_std (descriptive data),
      dst_min = ds_min (descriptive data), dst_max = ds_max (descriptive data),
      dst_median = ds_median (descriptive data), dst_q25 = ds_q25 (descriptive data),
      dst_q75 = ds_q75 (descriptive data)\<rparr>"
  by (simp add: calculateDistributionStats_def descriptive_def Let_def)

text \<open>
  C13. The statistical analysis always completes: for any base parameters it
  returns one result per run, \<open>totalRuns\<close> is the requested number and, for
  at least one run, the success rate is a probability (0 runs give \<open>NaN\<close>).
  When the base parameters set no \<open>convergenceTolerance\<close>, the analysis
  overrides the default tolerance with \<open>undefined\<close>: then no run converges,
  every run reports \<open>maxIterations + 1\<close> iterations, and the success rate is 0.
\<close>

theorem runStatisticalAnalysis_runs:
  "\<exists>sa st' g'. runStatisticalAnalysis n base st g = Inr (sa, st', g') \<and>
     sa_totalRuns sa = n \<and> length (results sa) = n \<and>
     (0 < n \<longrightarrow> (\<exists>q. successRate sa = JNum q \<and> 0 \<le> q \<and> q \<le> 1)) \<and>
     (p_convergenceTolerance base \<in> {Absent, Undef} \<longrightarrow>
        list_all (\<lambda>r. \<not> converged r \<and> iterations r = nat \<lceil>maxIterations (merge_params base)\<rceil> + 1) (results sa) \<and>
        successRate sa = js_div_count 0 n)"
proof -
  obtain rs st' g' where run: "stat_runs base n st g = Inr (rs, st', g')" and len: "length rs = n"
    and nt: "p_convergenceTolerance base \<in> {Absent, Undef} \<longrightarrow>
       list_all (\<lambda>r. \<not> converged r \<and> iterations r = nat \<lceil>maxIterations (merge_params base)\<rceil> + 1) rs"
    using stat_runs_ok by blast
  have le: "length (filter converged rs) \<le> n"
    using len length_filter_le [of converged rs] by simp
  have none: "list_all (\<lambda>r. \<not> converged r \<and> iterations r = k) rs \<Longrightarrow> filter converged rs = []" for k
    by (induction rs) simp_all
  show ?thesis
    using run len nt le none
    by (auto simp: runStatisticalAnalysis_def Let_def js_div_count_def)
qed

theorem runStatisticalAnalysis_runs_witness:
  "\<exists>sa st' g'. runStatisticalAnalysis 2 no_params new_solver (const_rng 0) = Inr (sa, st', g') \<and>
     sa_totalRuns sa = 2 \<and> length (results sa) = 2 \<and>
     (0 < (2::nat) \<longrightarrow> (\<exists>q. successRate sa = JNum q \<and> 0 \<le> q \<and> q \<le> 1)) \<and>
     (p_convergenceTolerance no_params \<in> {Absent, Undef} \<longrightarrow>
        list_all (\<lambda>r. \<not> converged r \<and> iterations r = nat \<lceil>maxIterations (merge_params no_params)\<rceil> + 1)
          (results sa) \<and>
        successRate sa = js_div_count 0 2)"
  by (rule runStatisticalAnalysis_runs)

end
