(* ===== verification/UtilsValidation.thy ===== *)
theory UtilsValidation
  imports Solver
begin

text \<open>
  The validators and the input sanitiser of \<open>RetrocausalUtils.validation\<close>
  (\<open>src/js/utils.js\<close>, lines 176-258). A parameter object whose fields may be
  missing is a record of options (\<open>None\<close> for a field that is absent or
  \<open>undefined\<close>: both fail every comparison of the source); a JavaScript number
  is a real, and \<open>Number.isInteger\<close> is \<open>of_int \<lfloor>x\<rfloor> = x\<close>.
\<close>

text \<open>\<open>isBitArray(bits, expectedLength = null)\<close>.\<close>

definition isBitArray :: "int list \<Rightarrow> nat option \<Rightarrow> bool" where
  "isBitArray bits expectedLength =
     ((case expectedLength of None \<Rightarrow> True | Some n \<Rightarrow> length bits = n) \<and>
      list_all (\<lambda>bit. bit = 0 \<or> bit = 1) bits)"

definition isProbability :: "real \<Rightarrow> bool" where
  "isProbability p \<longleftrightarrow> p \<ge> 0 \<and> p \<le> 1"

definition hasValidDimensions :: "'a list list \<Rightarrow> nat \<Rightarrow> nat \<Rightarrow> bool" where
  "hasValidDimensions matrix expectedRows expectedCols \<longleftrightarrow>
     length matrix = expectedRows \<and> list_all (\<lambda>row. length row = expectedCols) matrix"

text \<open>The parameter object of \<open>convergenceParameters(params)\<close>.\<close>

record conv_params =
  param_maxIterations :: "real option"
  param_tolerance :: "real option"
  param_errorRate :: "real option"

definition convergenceParameters :: "conv_params \<Rightarrow> bool" where
  "convergenceParameters params =
     (case (param_maxIterations params, param_tolerance params, param_errorRate params) of
        (Some m, Some t, Some e) \<Rightarrow>
          of_int \<lfloor>m\<rfloor> = m \<and> m > 0 \<and> t > 0 \<and> t < 1 \<and> isProbability e
      | _ \<Rightarrow> False)"

text \<open>
  \<open>sanitizeInput(input)\<close>: six global replacements, ampersand first.
  \<open>replace_char c r\<close> is \<open>String.replace(/c/g, r)\<close> for a one-character
  pattern.
\<close>

definition replace_char :: "char \<Rightarrow> string \<Rightarrow> string \<Rightarrow> string" where
  "replace_char c r s = concat (map (\<lambda>x. if x = c then r else [x]) s)"

definition sanitizeInput :: "string \<Rightarrow> string" where
  "sanitizeInput str =
     replace_char (CHR ''/'') ''&#x2F;''
      (replace_char (CHR 0x27) ''&#x27;''
       (replace_char (CHR 0x22) ''&quot;''
        (replace_char (CHR ''>'') ''&gt;''
         (replace_char (CHR ''<'') ''&lt;''
          (replace_char (CHR ''&'') ''&amp;'' str)))))"

text \<open>
  The per-character escape that the chain amounts to, and the HTML decoder
  that undoes it (the browser's reading of the entities).
\<close>

definition escape_char :: "char \<Rightarrow> string" where
  "escape_char x =
     (if x = CHR ''&'' then ''&amp;'' else if x = CHR ''<'' then ''&lt;''
      else if x = CHR ''>'' then ''&gt;'' else if x = CHR 0x22 then ''&quot;''
      else if x = CHR 0x27 then ''&#x27;'' else if x = CHR ''/'' then ''&#x2F;'' else [x])"

fun unescape :: "string \<Rightarrow> string" where
  "unescape [] = []"
| "unescape (c # s) =
     (if c = CHR ''&'' then
        (if take 4 s = ''amp;'' then CHR ''&'' # unescape (drop 4 s)
         else if take 3 s = ''lt;'' then CHR ''<'' # unescape (drop 3 s)
         else if take 3 s = ''gt;'' then CHR ''>'' # unescape (drop 3 s)
         else if take 5 s = ''quot;'' then CHR 0x22 # unescape (drop 5 s)
         else if take 5 s = ''#x27;'' then CHR 0x27 # unescape (drop 5 s)
         else if take 5 s = ''#x2F;'' then CHR ''/'' # unescape (drop 5 s)
         else c # unescape s)
      else c # unescape s)"

text \<open>The characters that open markup or attribute values.\<close>

definition markup_chars :: "char set" where
  "markup_chars = {CHR ''<'', CHR ''>'', CHR 0x22, CHR 0x27, CHR ''/''}"

section \<open>Lemmas\<close>

lemma replace_char_append [simp]:
  "replace_char c r (a @ b) = replace_char c r a @ replace_char c r b"
  by (simp add: replace_char_def)

lemma replace_char_Cons:
  "replace_char c r (x # s) = (if x = c then r else [x]) @ replace_char c r s"
  by (simp add: replace_char_def)

lemma replace_char_Nil [simp]: "replace_char c r [] = []"
  by (simp add: replace_char_def)

lemma sanitize_Cons: "sanitizeInput (x # s) = escape_char x @ sanitizeInput s"
proof -
  have "sanitizeInput (x # s) = sanitizeInput [x] @ sanitizeInput s"
    unfolding sanitizeInput_def by (simp flip: replace_char_append)
  also have "sanitizeInput [x] = escape_char x"
    by (simp add: sanitizeInput_def escape_char_def replace_char_Cons)
  finally show ?thesis .
qed

lemma sanitize_concat: "sanitizeInput s = concat (map escape_char s)"
  by (induction s) (simp add: sanitizeInput_def, simp add: sanitize_Cons)

lemma unescape_escape: "unescape (escape_char x @ rest) = x # unescape rest"
  by (simp add: escape_char_def)

lemma escape_char_safe: "set (escape_char x) \<inter> markup_chars = {}"
  by (simp add: escape_char_def markup_chars_def)

lemma unescape_concat: "unescape (concat (map escape_char s)) = s"
  by (induction s) (simp_all add: unescape_escape)

lemma list_all_bit: "list_all (\<lambda>bit. bit = 0 \<or> bit = 1) xs = list_all is_bit xs"
  by (induction xs) (simp_all add: is_bit_def)

section \<open>Properties\<close>

text \<open>
  C21. Sanitising is safe and loses nothing: the sanitised string contains
  none of the characters that open markup or attributes (no \<open><\<close>,
  \<open>>\<close>, double or single quote, or slash), and decoding its HTML
  entities gives back the original string, for every string. The round trip
  depends on the ampersand being replaced first.
\<close>

theorem sanitizeInput_roundtrip:
  "unescape (sanitizeInput s) = s \<and> set (sanitizeInput s) \<inter> markup_chars = {}"
  using escape_char_safe by (auto simp: sanitize_concat unescape_concat)

text \<open>
  The utility validators agree with the engine's: \<open>isBitArray\<close> with
  length 4 and 7 is \<open>validateDataBits\<close> and \<open>validateCodeword\<close>, and the
  engine's generator and parity-check matrices have the dimensions 7 x 4 and
  3 x 7 that \<open>hasValidDimensions\<close> checks.
\<close>

theorem isBitArray_engine_validators:
  "isBitArray d (Some 4) = validateDataBits d \<and> isBitArray c (Some 7) = validateCodeword c \<and>
   hasValidDimensions generatorMatrix 7 4 \<and> hasValidDimensions parityCheckMatrix 3 7"
  by (simp add: isBitArray_def validateDataBits_def validateCodeword_def bits_of_length_def
      list_all_bit hasValidDimensions_def generatorMatrix_def parityCheckMatrix_def)

end
