(* ===== verification/UtilsEvents.thy ===== *)
theory UtilsEvents
  imports Prelude
begin

text \<open>
  The event dispatcher of \<open>RetrocausalUtils.events.createDispatcher\<close>
  (\<open>src/js/utils.js\<close>, lines 731-766). The closure's \<open>listeners\<close> map is a
  map from event names to listener arrays (an entry stays, possibly empty, once
  created). A listener is a callback identity: a plain callback registered with
  \<open>on\<close>, or the wrapper closure that \<open>once\<close> creates, which has an identity
  of its own (a fresh number) and, when called, calls the user callback and then
  \<open>off(event, itself)\<close>. Calling a plain callback has no effect on the
  dispatcher; its call is recorded in a trace of (callback, data) pairs.

  \<open>emit\<close> iterates with \<open>Array.prototype.forEach\<close> over the live array:
  the length is read once before the loop, and index \<open>k\<close> is visited only if
  it still exists when reached (ECMAScript 23.1.3.15), so an element removed
  during the loop shifts the later ones down one index.
\<close>

datatype listener = Plain nat | OnceWrap nat nat

record dispatcher =
  listeners :: "string \<Rightarrow> listener list option"
  next_closure :: nat

definition createDispatcher :: dispatcher where
  "createDispatcher = \<lparr>listeners = (\<lambda>_. None), next_closure = 0\<rparr>"

definition on :: "string \<Rightarrow> listener \<Rightarrow> dispatcher \<Rightarrow> dispatcher" where
  "on event callback st =
     st\<lparr>listeners := (listeners st)(event \<mapsto>
         (case listeners st event of None \<Rightarrow> [] | Some l \<Rightarrow> l) @ [callback])\<rparr>"

text \<open>\<open>indexOf\<close> then \<open>splice(index, 1)\<close>: the first occurrence is removed.\<close>

definition off :: "string \<Rightarrow> listener \<Rightarrow> dispatcher \<Rightarrow> dispatcher" where
  "off event callback st =
     (case listeners st event of
        None \<Rightarrow> st
      | Some l \<Rightarrow> if callback \<in> set l then st\<lparr>listeners := (listeners st)(event \<mapsto> remove1 callback l)\<rparr>
                 else st)"

definition once :: "string \<Rightarrow> nat \<Rightarrow> dispatcher \<Rightarrow> dispatcher" where
  "once event callback st =
     on event (OnceWrap callback (next_closure st)) (st\<lparr>next_closure := Suc (next_closure st)\<rparr>)"

text \<open>Calling one listener during \<open>emit(event, data)\<close>.\<close>

fun invoke :: "string \<Rightarrow> 'd \<Rightarrow> listener \<Rightarrow> dispatcher \<Rightarrow> dispatcher \<times> (nat \<times> 'd) list" where
  "invoke event data (Plain cb) st = (st, [(cb, data)])"
| "invoke event data (OnceWrap cb w) st = (off event (OnceWrap cb w) st, [(cb, data)])"

text \<open>
  The \<open>forEach\<close> loop: \<open>k\<close> is the next index, \<open>r\<close> the number of indices
  left of the length read at the start.
\<close>

fun emit_loop :: "string \<Rightarrow> 'd \<Rightarrow> nat \<Rightarrow> nat \<Rightarrow> dispatcher \<Rightarrow> dispatcher \<times> (nat \<times> 'd) list" where
  "emit_loop event data k 0 st = (st, [])"
| "emit_loop event data k (Suc r) st =
     (let l = (case listeners st event of None \<Rightarrow> [] | Some l \<Rightarrow> l)
      in if k < length l then
           (case invoke event data (l ! k) st of
              (st1, t1) \<Rightarrow> (case emit_loop event data (Suc k) r st1 of (st2, t2) \<Rightarrow> (st2, t1 @ t2)))
         else emit_loop event data (Suc k) r st)"

definition emit :: "string \<Rightarrow> 'd \<Rightarrow> dispatcher \<Rightarrow> dispatcher \<times> (nat \<times> 'd) list" where
  "emit event data st =
     (case listeners st event of
        None \<Rightarrow> (st, [])
      | Some l \<Rightarrow> emit_loop event data 0 (length l) st)"

definition is_plain :: "listener \<Rightarrow> bool" where
  "is_plain cb \<longleftrightarrow> (case cb of Plain _ \<Rightarrow> True | OnceWrap _ _ \<Rightarrow> False)"

definition callback_of :: "listener \<Rightarrow> nat" where
  "callback_of cb = (case cb of Plain c \<Rightarrow> c | OnceWrap c _ \<Rightarrow> c)"

section \<open>Lemmas\<close>

text \<open>The loop over plain listeners from index \<open>k\<close> to the end (and past it).\<close>

lemma emit_loop_plain:
  assumes "listeners st event = Some l" "list_all is_plain (drop k l)" "length l \<le> k + r"
  shows "emit_loop event data k r st = (st, map (\<lambda>cb. (callback_of cb, data)) (drop k l))"
  using assms
proof (induction r arbitrary: k)
  case 0
  then show ?case by simp
next
  case (Suc r)
  show ?case
  proof (cases "k < length l")
    case k: True
    have "drop k l = l ! k # drop (Suc k) l" using k by (simp add: Cons_nth_drop_Suc)
    moreover have "is_plain (l ! k)" using Suc.prems(2) calculation by simp
    then obtain c where c: "l ! k = Plain c" by (cases "l ! k") (simp_all add: is_plain_def)
    ultimately show ?thesis
      using Suc.IH [of "Suc k"] Suc.prems k c by (simp add: callback_of_def)
  next
    case False
    then show ?thesis
      using Suc.IH [of "Suc k"] Suc.prems by simp
  qed
qed

text \<open>A plain prefix of the loop: \<open>m\<close> plain listeners from index \<open>k\<close>, then the rest.\<close>

lemma emit_loop_plain_prefix:
  assumes "listeners st event = Some l" "k + m \<le> length l" "list_all is_plain (take m (drop k l))"
  shows "emit_loop event data k (m + r) st =
           (case emit_loop event data (k + m) r st of
              (s, t) \<Rightarrow> (s, map (\<lambda>cb. (callback_of cb, data)) (take m (drop k l)) @ t))"
  using assms
proof (induction m arbitrary: k)
  case 0
  then show ?case by (simp split: prod.splits)
next
  case (Suc m)
  have k: "k < length l" using Suc.prems(2) by simp
  have "drop k l = l ! k # drop (Suc k) l"
    using k by (simp add: Cons_nth_drop_Suc)
  then have d: "take (Suc m) (drop k l) = l ! k # take m (drop (Suc k) l)"
    by simp
  then have "is_plain (l ! k)" using Suc.prems(3) by simp
  then obtain c where c: "l ! k = Plain c" by (cases "l ! k") (simp_all add: is_plain_def)
  show ?case
    using Suc.IH [of "Suc k"] Suc.prems k c d by (simp add: callback_of_def split: prod.splits)
qed

section \<open>Properties\<close>

text \<open>
  C23. With only plain listeners registered for an event, \<open>emit\<close> calls every
  one of them exactly once, in registration order, with the emitted data, and
  leaves the dispatcher unchanged.
\<close>

theorem emit_plain_order:
  assumes "listeners st event = Some l" "list_all is_plain l"
  shows "emit event data st = (st, map (\<lambda>cb. (callback_of cb, data)) l)"
  using emit_loop_plain [of st event l 0 "length l" data] assms by (simp add: emit_def)

theorem emit_plain_order_witness:
  "emit ''tick'' (7::nat) (on ''tick'' (Plain 2) (on ''tick'' (Plain 1) createDispatcher)) =
     (on ''tick'' (Plain 2) (on ''tick'' (Plain 1) createDispatcher), [(1, 7), (2, 7)])"
  using emit_plain_order [of "on ''tick'' (Plain 2) (on ''tick'' (Plain 1) createDispatcher)" "''tick''"
      "[Plain 1, Plain 2]" 7]
  by (simp add: on_def createDispatcher_def is_plain_def callback_of_def)

text \<open>
  C24. A \<open>once\<close> listener makes \<open>emit\<close> skip the listener registered right
  after it: the wrapper removes itself from the array that \<open>forEach\<close> is
  iterating, the next listener moves into the index just visited, and the loop
  ends one index early. For every array of plain listeners around one
  \<open>once\<close> wrapper, \<open>emit\<close> calls the listeners before it, the wrapped
  callback, and the listeners after the next one, never the next one, and
  leaves the array without the wrapper.
\<close>

theorem emit_once_skips_next:
  assumes "listeners st event = Some (pre @ OnceWrap c w # x # post)"
    and "list_all is_plain pre" and "list_all is_plain (x # post)"
  shows "emit event data st =
           (st\<lparr>listeners := (listeners st)(event \<mapsto> pre @ x # post)\<rparr>,
            map (\<lambda>cb. (callback_of cb, data)) pre @ [(c, data)] @
            map (\<lambda>cb. (callback_of cb, data)) post)"
proof -
  define l where "l = pre @ OnceWrap c w # x # post"
  define st1 where "st1 = st\<lparr>listeners := (listeners st)(event \<mapsto> pre @ x # post)\<rparr>"
  have nw: "OnceWrap c w \<notin> set pre"
    using assms(2) by (auto simp: list_all_iff is_plain_def)
  have len: "length l = length pre + Suc (Suc (length post))"
    by (simp add: l_def)
  have pre: "emit_loop event data 0 (length pre + Suc (Suc (length post))) st =
      (case emit_loop event data (length pre) (Suc (Suc (length post))) st of
         (s, t) \<Rightarrow> (s, map (\<lambda>cb. (callback_of cb, data)) pre @ t))"
    using emit_loop_plain_prefix [of st event l 0 "length pre" data "Suc (Suc (length post))"]
      assms(1,2) by (simp add: l_def)
  have off: "off event (OnceWrap c w) st = st1"
    using assms(1) nw by (simp add: off_def st1_def remove1_append)
  have rest: "emit_loop event data (Suc (length pre)) (Suc (length post)) st1 =
      (st1, map (\<lambda>cb. (callback_of cb, data)) post)"
    using emit_loop_plain [of st1 event "pre @ x # post" "Suc (length pre)" "Suc (length post)" data]
      assms(3) by (simp add: st1_def)
  have step: "emit_loop event data (length pre) (Suc (Suc (length post))) st =
      (st1, (c, data) # map (\<lambda>cb. (callback_of cb, data)) post)"
    using assms(1) off rest by simp
  show ?thesis
    using pre step assms(1) len by (simp add: emit_def l_def st1_def)
qed

theorem emit_once_skips_next_witness:
  "emit ''tick'' (0::nat) (on ''tick'' (Plain 2) (once ''tick'' 1 createDispatcher)) =
     ((on ''tick'' (Plain 2) (once ''tick'' 1 createDispatcher))\<lparr>listeners := (\<lambda>_. None)(''tick'' \<mapsto> [Plain 2])\<rparr>,
      [(1, 0)])"
proof -
  have l: "listeners (on ''tick'' (Plain 2) (once ''tick'' 1 createDispatcher)) ''tick'' =
      Some ([] @ OnceWrap 1 0 # Plain 2 # [])"
    by (simp add: once_def on_def createDispatcher_def)
  show ?thesis
    using emit_once_skips_next [OF l, of 0] by (simp add: is_plain_def once_def on_def createDispatcher_def)
qed

end
