(* ===== verification/UtilsFormat.thy ===== *)
theory UtilsFormat
  imports Prelude
begin

text \<open>
  The display formatters of \<open>RetrocausalUtils.format\<close> (\<open>src/js/utils.js\<close>,
  lines 263-361) and the two number-to-string methods they call,
  \<open>Number.prototype.toFixed\<close> and \<open>Number.prototype.toExponential\<close>, as
  ECMAScript defines them (21.1.3.3 and 21.1.3.2) on exact reals: the digit
  count is checked first, the digits are those of the integer nearest to the
  scaled value, the larger one on a tie. Numbers that may be non-finite are
  \<open>js_real\<close>; digit counts are integers. For a magnitude of at least
  \<open>10^21\<close> \<open>toFixed\<close> falls back to \<open>Number::toString\<close>, whose shortest
  round-trip digits depend on the binary representation: that conversion is
  the parameter \<open>num_str\<close> of the model.
\<close>

definition pow10 :: "int \<Rightarrow> real" where
  "pow10 k = (if 0 \<le> k then 10 ^ nat k else 1 / 10 ^ nat (- k))"

definition js_toFixed :: "(real \<Rightarrow> string) \<Rightarrow> int \<Rightarrow> real \<Rightarrow> js_exception + string" where
  "js_toFixed num_str f x =
     (if f < 0 \<or> 100 < f then Inl RangeError
      else let s = (if x < 0 then ''-'' else ''''); ax = \<bar>x\<bar> in
        if 10 ^ 21 \<le> ax then Inr (s @ num_str ax)
        else let n = nat \<lfloor>ax * 10 ^ nat f + 1 / 2\<rfloor>; m = radix_digits 10 n in
          if f = 0 then Inr (s @ m)
          else let m' = (if length m \<le> nat f then replicate (nat f + 1 - length m) CHR ''0'' @ m else m);
                   k = length m'
               in Inr (s @ take (k - nat f) m' @ ''.'' @ drop (k - nat f) m'))"

text \<open>
  \<open>Math.floor(Math.log10(x))\<close> for \<open>x > 0\<close>, computed by scaling by 10 so
  that it evaluates; \<open>floor_log10_correct\<close> shows it is
  \<open>\<lfloor>log 10 x\<rfloor>\<close>.
\<close>

function floor_log10 :: "real \<Rightarrow> int" where
  "floor_log10 x =
     (if x \<le> 0 then 0 else if 10 \<le> x then floor_log10 (x / 10) + 1
      else if x < 1 then floor_log10 (x * 10) - 1 else 0)"
  by pat_completeness auto
termination
proof (relation "measure (\<lambda>x. if 10 \<le> x then nat \<lfloor>x\<rfloor> else if 0 < x \<and> x < 1 then nat \<lceil>1 / x\<rceil> else 0)")
  fix x :: real
  assume a: "\<not> x \<le> 0" "10 \<le> x"
  show "(x / 10, x) \<in> measure (\<lambda>x. if 10 \<le> x then nat \<lfloor>x\<rfloor> else if 0 < x \<and> x < 1 then nat \<lceil>1 / x\<rceil> else 0)"
  proof (cases "10 \<le> x / 10")
    case True
    have "real_of_int \<lfloor>x / 10\<rfloor> \<le> x / 10" "x < real_of_int \<lfloor>x\<rfloor> + 1"
      using floor_correct [of "x / 10"] floor_correct [of x] by simp_all
    then have "real_of_int \<lfloor>x / 10\<rfloor> < real_of_int \<lfloor>x\<rfloor>"
      using True by linarith
    then have "\<lfloor>x / 10\<rfloor> < \<lfloor>x\<rfloor>"
      by linarith
    then show ?thesis using True a by simp
  next
    case False
    then show ?thesis using a by simp
  qed
next
  fix x :: real
  assume a: "\<not> x \<le> 0" "\<not> 10 \<le> x" "x < 1"
  show "(x * 10, x) \<in> measure (\<lambda>x. if 10 \<le> x then nat \<lfloor>x\<rfloor> else if 0 < x \<and> x < 1 then nat \<lceil>1 / x\<rceil> else 0)"
  proof (cases "x * 10 < 1")
    case True
    have "1 / (x * 10) + 1 \<le> 1 / x"
    proof -
      have "1 / x > 10" using a True by (simp add: field_simps)
      then show ?thesis using a by (simp add: field_simps)
    qed
    moreover have "real_of_int \<lceil>1 / (x * 10)\<rceil> < 1 / (x * 10) + 1" "1 / x \<le> real_of_int \<lceil>1 / x\<rceil>"
      using ceiling_correct [of "1 / (x * 10)"] ceiling_correct [of "1 / x"] by simp_all
    ultimately have "real_of_int \<lceil>1 / (x * 10)\<rceil> < real_of_int \<lceil>1 / x\<rceil>"
      by linarith
    then have "\<lceil>1 / (x * 10)\<rceil> < \<lceil>1 / x\<rceil>"
      by linarith
    then show ?thesis using True a by simp
  next
    case False
    have "1 < 1 / x" using a by (simp add: field_simps)
    then have "0 < \<lceil>1 / x\<rceil>" by linarith
    then show ?thesis using False a by simp
  qed
qed auto

declare floor_log10.simps [simp del]

text \<open>
  The exponent and the digits of \<open>toExponential\<close> for \<open>x > 0\<close>: \<open>n\<close> with
  \<open>10^f \<le> n < 10^(f+1)\<close> and \<open>n \<cdot> 10^(e-f)\<close> nearest to \<open>x\<close>.
\<close>

definition exp_digits :: "nat \<Rightarrow> real \<Rightarrow> int \<times> nat" where
  "exp_digits f x =
     (let e0 = floor_log10 x; n0 = nat \<lfloor>x / pow10 (e0 - int f) + 1 / 2\<rfloor>
      in if n0 = 10 ^ (f + 1) then (e0 + 1, 10 ^ f) else (e0, n0))"

definition js_toExponential :: "int \<Rightarrow> real \<Rightarrow> js_exception + string" where
  "js_toExponential f x =
     (if f < 0 \<or> 100 < f then Inl RangeError
      else let s = (if x < 0 then ''-'' else ''''); ax = \<bar>x\<bar>;
               (e, m) = (if ax = 0 then (0, replicate (nat f + 1) CHR ''0'')
                         else case exp_digits (nat f) ax of (e, n) \<Rightarrow> (e, radix_digits 10 n));
               m' = (if f = 0 then m else take 1 m @ ''.'' @ drop 1 m);
               cd = (if e = 0 then ''+0'' else if 0 < e then CHR ''+'' # int_to_string e
                     else CHR ''-'' # int_to_string (- e))
           in Inr (s @ m' @ ''e'' @ cd))"

text \<open>\<open>format.number(value, precision = 3)\<close>.\<close>

definition format_number :: "(real \<Rightarrow> string) \<Rightarrow> js_real \<Rightarrow> int \<Rightarrow> js_exception + string" where
  "format_number num_str value precision =
     (case value of
        JNum v \<Rightarrow> if \<bar>v\<bar> < pow10 (- precision) then js_toExponential (precision - 1) v
                  else js_toFixed num_str precision v
      | _ \<Rightarrow> Inr ''N/A'')"

definition format_percentage :: "(real \<Rightarrow> string) \<Rightarrow> js_real \<Rightarrow> int \<Rightarrow> js_exception + string" where
  "format_percentage num_str value precision =
     (case value of
        JNum v \<Rightarrow> (case js_toFixed num_str precision (v * 100) of
                     Inl e \<Rightarrow> Inl e | Inr s \<Rightarrow> Inr (s @ ''%''))
      | _ \<Rightarrow> Inr ''N/A'')"

text \<open>\<open>Array.prototype.join(separator)\<close> of strings.\<close>

fun js_join :: "string \<Rightarrow> string list \<Rightarrow> string" where
  "js_join sep [] = ''''"
| "js_join sep [x] = x"
| "js_join sep (x # xs) = x @ sep @ js_join sep xs"

text \<open>\<open>format.bitArray(bits, separator = '')\<close>: \<open>None\<close> is a non-array.\<close>

definition format_bitArray :: "int list option \<Rightarrow> string \<Rightarrow> string" where
  "format_bitArray bits separator =
     (case bits of None \<Rightarrow> '''' | Some bs \<Rightarrow> js_join separator (map int_to_string bs))"

definition format_duration :: "(real \<Rightarrow> string) \<Rightarrow> real \<Rightarrow> js_exception + string" where
  "format_duration num_str milliseconds =
     (if milliseconds < 1000 then
        (case js_toFixed num_str 0 milliseconds of Inl e \<Rightarrow> Inl e | Inr s \<Rightarrow> Inr (s @ ''ms''))
      else let seconds = milliseconds / 1000 in
        if seconds < 60 then
          (case js_toFixed num_str 1 seconds of Inl e \<Rightarrow> Inl e | Inr s \<Rightarrow> Inr (s @ ''s''))
        else let minutes = seconds / 60 in
          (case js_toFixed num_str 1 minutes of Inl e \<Rightarrow> Inl e | Inr s \<Rightarrow> Inr (s @ ''m'')))"

text \<open>
  The unit loop of \<open>format.fileSize(bytes)\<close>, which stops at the last unit;
  \<open>sz\<close> is the source's \<open>size\<close>.
\<close>

definition size_units :: "string list" where
  "size_units = [''B'', ''KB'', ''MB'', ''GB'']"

function size_loop :: "real \<Rightarrow> nat \<Rightarrow> real \<times> nat" where
  "size_loop sz unitIndex =
     (if sz \<ge> 1024 \<and> unitIndex < length size_units - 1 then size_loop (sz / 1024) (Suc unitIndex)
      else (sz, unitIndex))"
  by pat_completeness auto
termination
  by (relation "measure (\<lambda>(sz, unitIndex). length size_units - unitIndex)") (auto simp: size_units_def)

declare size_loop.simps [simp del]

definition format_fileSize :: "(real \<Rightarrow> string) \<Rightarrow> real \<Rightarrow> js_exception + string" where
  "format_fileSize num_str bytes =
     (case size_loop bytes 0 of
        (sz, unitIndex) \<Rightarrow>
          (case js_toFixed num_str 1 sz of
             Inl e \<Rightarrow> Inl e | Inr s \<Rightarrow> Inr (s @ '' '' @ size_units ! unitIndex)))"

text \<open>
  \<open>format.scientific(value, precision = 2)\<close>; the multiplication sign is the
  character U+00D7.
\<close>

definition format_scientific :: "(real \<Rightarrow> string) \<Rightarrow> js_real \<Rightarrow> int \<Rightarrow> js_exception + string" where
  "format_scientific num_str value precision =
     (case value of
        JNum v \<Rightarrow>
          if v = 0 then Inr ''0''
          else let exponent = floor_log10 \<bar>v\<bar>; mantissa = v / pow10 exponent in
            (case js_toFixed num_str precision mantissa of
               Inl e \<Rightarrow> Inl e
             | Inr s \<Rightarrow> Inr (s @ '' '' @ [CHR 0xD7] @ '' 10^'' @ int_to_string exponent))
      | _ \<Rightarrow> Inr ''N/A'')"

text \<open>
  The decimal reading of a formatted number (what \<open>parseFloat\<close> gives for a
  string of the shape \<open>-ddd.ddd\<close>), used to state what \<open>toFixed\<close> means.
\<close>

definition unsigned_value :: "string \<Rightarrow> real" where
  "unsigned_value t =
     (let a = takeWhile (\<lambda>c. c \<noteq> CHR ''.'') t; b = drop (Suc (length a)) t
      in if length a = length t then real (digits_value 10 t)
         else real (digits_value 10 a) + real (digits_value 10 b) / 10 ^ length b)"

definition decimal_value :: "string \<Rightarrow> real" where
  "decimal_value s = (case s of c # t \<Rightarrow> if c = CHR ''-'' then - unsigned_value t else unsigned_value s
                                | [] \<Rightarrow> 0)"

section \<open>Lemmas\<close>

lemma digit_char_not_sep:
  assumes "d < 10"
  shows "digit_char d \<noteq> CHR ''.'' \<and> digit_char d \<noteq> CHR ''-''"
proof -
  have "of_char (digit_char d) = (48 + d :: nat)"
    using assms by (simp add: digit_char_def)
  then show ?thesis
    by (auto dest: arg_cong [where f = "of_char :: char \<Rightarrow> nat"])
qed

lemma radix10_facts:
  "radix_digits 10 n \<noteq> [] \<and> CHR ''.'' \<notin> set (radix_digits 10 n) \<and> CHR ''-'' \<notin> set (radix_digits 10 n) \<and>
   digits_value 10 (radix_digits 10 n) = n"
  using radix_digits_value [of 10 n] digit_char_not_sep by fastforce

lemma unsigned_value_digits:
  "CHR ''.'' \<notin> set t \<Longrightarrow> unsigned_value t = real (digits_value 10 t)"
proof -
  assume "CHR ''.'' \<notin> set t"
  then have tw: "takeWhile (\<lambda>c. c \<noteq> CHR ''.'') t = t"
    by (auto simp: takeWhile_eq_all_conv)
  show ?thesis
    unfolding unsigned_value_def Let_def tw by simp
qed

lemma unsigned_value_point:
  assumes "CHR ''.'' \<notin> set a" and "CHR ''.'' \<notin> set b"
  shows "unsigned_value (a @ ''.'' @ b) = real (digits_value 10 (a @ b)) / 10 ^ length b"
proof -
  have tw: "takeWhile (\<lambda>c. c \<noteq> CHR ''.'') (a @ CHR ''.'' # b) = a"
    using assms(1) by (subst takeWhile_append2) auto
  have "real (digits_value 10 (a @ b)) / 10 ^ length b =
      real (digits_value 10 a) + real (digits_value 10 b) / 10 ^ length b"
    by (simp add: digits_value_append add_divide_distrib)
  then show ?thesis
    by (simp add: unsigned_value_def tw)
qed

lemma round_half:
  assumes "0 \<le> y"
  shows "\<bar>real (nat \<lfloor>y + 1 / 2\<rfloor>) - y\<bar> \<le> 1 / 2"
proof -
  have "0 \<le> \<lfloor>y + 1 / 2\<rfloor>" using assms by simp
  then have "real (nat \<lfloor>y + 1 / 2\<rfloor>) = real_of_int \<lfloor>y + 1 / 2\<rfloor>" by simp
  moreover have "real_of_int \<lfloor>y + 1 / 2\<rfloor> \<le> y + 1 / 2" "y + 1 / 2 < real_of_int \<lfloor>y + 1 / 2\<rfloor> + 1"
    by linarith+
  ultimately show ?thesis by linarith
qed

lemma toFixed_digits:
  assumes "0 \<le> f" and "f \<le> 100" and "\<bar>x\<bar> < 10 ^ 21"
  shows "\<exists>m. js_toFixed num_str f x = Inr ((if x < 0 then ''-'' else '''') @ m) \<and>
     m \<noteq> [] \<and> hd m \<noteq> CHR ''-'' \<and>
     unsigned_value m = real (nat \<lfloor>\<bar>x\<bar> * 10 ^ nat f + 1 / 2\<rfloor>) / 10 ^ nat f"
proof -
  define n where "n = nat \<lfloor>\<bar>x\<bar> * 10 ^ nat f + 1 / 2\<rfloor>"
  define m where "m = radix_digits 10 n"
  have mf: "m \<noteq> []" "CHR ''.'' \<notin> set m" "CHR ''-'' \<notin> set m" "digits_value 10 m = n"
    using radix10_facts [of n] by (simp_all add: m_def)
  show ?thesis
  proof (cases "f = 0")
    case True
    have "hd m \<noteq> CHR ''-''" using mf(1,3) hd_in_set by metis
    moreover have "js_toFixed num_str f x = Inr ((if x < 0 then ''-'' else '''') @ m)"
      using assms True by (simp add: js_toFixed_def Let_def m_def n_def)
    ultimately show ?thesis
      using mf True by (simp add: unsigned_value_digits n_def)
  next
    case False
    define m' where "m' = (if length m \<le> nat f then replicate (nat f + 1 - length m) CHR ''0'' @ m else m)"
    have len: "nat f < length m'"
      using False assms(1) by (auto simp: m'_def)
    have m'f: "CHR ''.'' \<notin> set m'" "CHR ''-'' \<notin> set m'" "digits_value 10 m' = n"
      using mf by (auto simp: m'_def digits_value_append)
    define k where "k = length m'"
    define a where "a = take (k - nat f) m'"
    define b where "b = drop (k - nat f) m'"
    have split: "a @ b = m'" and lb: "length b = nat f" and ne: "a \<noteq> []"
      using len by (simp_all add: k_def a_def b_def) (cases m', simp_all)
    have ab: "CHR ''.'' \<notin> set a" "CHR ''.'' \<notin> set b" "CHR ''-'' \<notin> set a"
      using m'f(1,2) split by auto
    have "unsigned_value (a @ ''.'' @ b) = real n / 10 ^ nat f"
      using unsigned_value_point [OF ab(1,2)] split lb m'f(3) by simp
    moreover have "hd (a @ ''.'' @ b) \<noteq> CHR ''-''"
      using ne ab(3) hd_in_set by fastforce
    moreover have "js_toFixed num_str f x = Inr ((if x < 0 then ''-'' else '''') @ a @ ''.'' @ b)"
      unfolding js_toFixed_def Let_def n_def [symmetric] m_def [symmetric] m'_def [symmetric]
        k_def [symmetric] a_def [symmetric] b_def [symmetric]
      using assms False by simp
    ultimately show ?thesis
      by (simp add: n_def)
  qed
qed

lemma floor_log10_correct:
  "0 < x \<Longrightarrow> floor_log10 x = \<lfloor>log 10 x\<rfloor>"
proof (induction x rule: floor_log10.induct)
  case (1 x)
  show ?case
  proof (cases "10 \<le> x")
    case True
    have "log 10 (x / 10) = log 10 x - 1"
      using "1.prems" by (simp add: log_divide)
    then show ?thesis
      using "1.IH"(1) True "1.prems" by (subst floor_log10.simps) simp
  next
    case False
    show ?thesis
    proof (cases "x < 1")
      case True
      have "log 10 (x * 10) = log 10 x + 1"
        using "1.prems" by (simp add: log_mult)
      then show ?thesis
        using "1.IH"(2) True False "1.prems" by (subst floor_log10.simps) simp
    next
      case False2: False
      have "0 \<le> log 10 x" "log 10 x < 1"
        using False False2 "1.prems" by (simp_all add: log_less_iff)
      then have "\<lfloor>log 10 x\<rfloor> = 0" by (simp add: floor_eq_iff)
      then show ?thesis
        using False False2 "1.prems" by (subst floor_log10.simps) simp
    qed
  qed
qed

lemma toFixed_ok:
  "0 \<le> f \<Longrightarrow> f \<le> 100 \<Longrightarrow> \<exists>s. js_toFixed num_str f x = Inr s"
  by (simp add: js_toFixed_def Let_def)

lemma toExponential_ok:
  "0 \<le> f \<Longrightarrow> f \<le> 100 \<Longrightarrow> \<exists>s. js_toExponential f x = Inr s"
  by (simp add: js_toExponential_def Let_def split: prod.splits)

lemma decimal_value_sign:
  assumes "m \<noteq> []" and "hd m \<noteq> CHR ''-''"
  shows "decimal_value ((if x < 0 then ''-'' else '''') @ m) = (if x < 0 then - unsigned_value m else unsigned_value m)"
  using assms by (cases m) (simp_all add: decimal_value_def)

lemma size_units_last: "length size_units - 1 = 3" "length size_units - Suc 0 = 3"
  by (simp_all add: size_units_def)

lemma size_loop_facts:
  "k0 \<le> 3 \<Longrightarrow> size_loop sz0 k0 = (sz, k) \<Longrightarrow>
     k0 \<le> k \<and> k \<le> 3 \<and> sz * 1024 ^ (k - k0) = sz0 \<and> (k < 3 \<longrightarrow> sz < 1024) \<and>
     (k0 < k \<longrightarrow> 1 \<le> sz)"
proof (induction sz0 k0 rule: size_loop.induct)
  case (1 sz0 k0)
  show ?case
  proof (cases "sz0 \<ge> 1024 \<and> k0 < 3")
    case True
    then have run: "size_loop (sz0 / 1024) (Suc k0) = (sz, k)"
      using "1.prems"(2) size_loop.simps [of sz0 k0] by (simp add: size_units_last)
    have IH: "Suc k0 \<le> k \<and> k \<le> 3 \<and> sz * 1024 ^ (k - Suc k0) = sz0 / 1024 \<and> (k < 3 \<longrightarrow> sz < 1024) \<and>
        (Suc k0 < k \<longrightarrow> 1 \<le> sz)"
      using "1.IH" [OF _ _ run] True by (simp add: size_units_last)
    then have "k - k0 = Suc (k - Suc k0)" by arith
    then have "sz * 1024 ^ (k - k0) = sz0"
      using IH by (simp add: field_simps)
    moreover have "1 \<le> sz"
    proof (cases "Suc k0 < k")
      case False
      then have "k = Suc k0" using IH by simp
      then show ?thesis using IH True by simp
    qed (use IH in simp)
    ultimately show ?thesis using IH by simp
  next
    case False
    then have "sz = sz0" "k = k0"
      using "1.prems"(2) size_loop.simps [of sz0 k0] by (auto simp: size_units_last split: if_splits)
    then show ?thesis using False "1.prems"(1) by auto
  qed
qed

lemma toFixed_nearest:
  "(js_toFixed num_str f x = Inl RangeError \<longleftrightarrow> f < 0 \<or> 100 < f) \<and>
   (0 \<le> f \<and> f \<le> 100 \<and> \<bar>x\<bar> < 10 ^ 21 \<longrightarrow>
      (\<exists>s. js_toFixed num_str f x = Inr s \<and> \<bar>decimal_value s - x\<bar> \<le> 1 / (2 * 10 ^ nat f)))"
proof (intro conjI impI)
  show "js_toFixed num_str f x = Inl RangeError \<longleftrightarrow> f < 0 \<or> 100 < f"
    by (auto simp: js_toFixed_def Let_def)
next
  assume a: "0 \<le> f \<and> f \<le> 100 \<and> \<bar>x\<bar> < 10 ^ 21"
  obtain m where m: "js_toFixed num_str f x = Inr ((if x < 0 then ''-'' else '''') @ m)"
    "m \<noteq> []" "hd m \<noteq> CHR ''-''"
    "unsigned_value m = real (nat \<lfloor>\<bar>x\<bar> * 10 ^ nat f + 1 / 2\<rfloor>) / 10 ^ nat f"
    using toFixed_digits [of f x num_str] a by blast
  have r: "\<bar>real (nat \<lfloor>\<bar>x\<bar> * 10 ^ nat f + 1 / 2\<rfloor>) - \<bar>x\<bar> * 10 ^ nat f\<bar> \<le> 1 / 2"
    by (rule round_half) simp
  have "\<bar>unsigned_value m - \<bar>x\<bar>\<bar> \<le> 1 / (2 * 10 ^ nat f)"
  proof -
    define N where "N = real (nat \<lfloor>\<bar>x\<bar> * 10 ^ nat f + 1 / 2\<rfloor>)"
    have D: "0 < (10::real) ^ nat f" by simp
    have "unsigned_value m - \<bar>x\<bar> = (N - \<bar>x\<bar> * 10 ^ nat f) / 10 ^ nat f"
      using m(4) D unfolding N_def [symmetric] by (simp add: diff_divide_distrib)
    then have "\<bar>unsigned_value m - \<bar>x\<bar>\<bar> = \<bar>N - \<bar>x\<bar> * 10 ^ nat f\<bar> / 10 ^ nat f"
      using D by (simp add: abs_divide)
    also have "\<dots> \<le> (1 / 2) / 10 ^ nat f"
      using r D unfolding N_def [symmetric] by (intro divide_right_mono) simp_all
    finally show ?thesis by simp
  qed
  then have "\<bar>decimal_value ((if x < 0 then ''-'' else '''') @ m) - x\<bar> \<le> 1 / (2 * 10 ^ nat f)"
    using decimal_value_sign [OF m(2,3), of x] by (cases "x < 0") (simp_all add: abs_minus_commute)
  with m(1) show "\<exists>s. js_toFixed num_str f x = Inr s \<and> \<bar>decimal_value s - x\<bar> \<le> 1 / (2 * 10 ^ nat f)"
    by blast
qed

section \<open>Properties\<close>

text \<open>
  \<open>format.number\<close> rounds to the nearest: for a precision \<open>p\<close> of 1
  to 100 and a value of magnitude between \<open>10^-p\<close> and \<open>10^21\<close>, it
  returns the \<open>toFixed\<close> string, whose decimal value is within half a unit of
  the last digit of the value.
\<close>

theorem format_number_nearest:
  assumes "1 \<le> p" and "p \<le> 100" and "pow10 (- p) \<le> \<bar>v\<bar>" and "\<bar>v\<bar> < 10 ^ 21"
  shows "\<exists>s. format_number num_str (JNum v) p = Inr s \<and> \<bar>decimal_value s - v\<bar> \<le> 1 / (2 * 10 ^ nat p)"
  using toFixed_nearest [of num_str p v] assms by (simp add: format_number_def not_less)

theorem format_number_nearest_witness:
  "format_number (\<lambda>_. '''') (JNum (3 / 8)) 2 = Inr ''0.38'' \<and>
   \<bar>decimal_value ''0.38'' - 3 / 8\<bar> \<le> 1 / (2 * 10 ^ nat 2)"
proof -
  have "js_toFixed (\<lambda>_. '''') 2 (3 / 8) = Inr ''0.38''"
    by code_simp
  then have ev: "format_number (\<lambda>_. '''') (JNum (3 / 8)) 2 = Inr ''0.38''"
    by (simp add: format_number_def pow10_def)
  have "pow10 (- 2) \<le> \<bar>3 / 8 :: real\<bar>"
    by (simp add: pow10_def)
  with format_number_nearest [of 2 "3 / 8" "\<lambda>_. ''''"] ev show ?thesis
    by auto
qed

text \<open>
  \<open>format.number\<close> fails on small numbers at precision 0: for a
  precision of 1 to 100 it always returns a string, but at precision 0 every
  value below 1 in magnitude goes to \<open>toExponential(-1)\<close> and throws
  \<open>RangeError\<close>; a non-finite value gives \<open>N/A\<close>.
\<close>

theorem format_number_precision:
  "(1 \<le> p \<and> p \<le> 100 \<longrightarrow> (\<exists>s. format_number num_str (JNum v) p = Inr s)) \<and>
   (format_number num_str (JNum v) 0 = Inl RangeError \<longleftrightarrow> \<bar>v\<bar> < 1) \<and>
   (case val of JNum _ \<Rightarrow> True | _ \<Rightarrow> format_number num_str val p = Inr ''N/A'')"
proof (intro conjI impI)
  assume "1 \<le> p \<and> p \<le> 100"
  then show "\<exists>s. format_number num_str (JNum v) p = Inr s"
    using toFixed_ok [of p num_str v] toExponential_ok [of "p - 1" v]
    by (auto simp: format_number_def)
next
  have "\<bar>v\<bar> \<ge> 1 \<Longrightarrow> \<exists>s. js_toFixed num_str 0 v = Inr s"
    by (rule toFixed_ok) simp_all
  then show "format_number num_str (JNum v) 0 = Inl RangeError \<longleftrightarrow> \<bar>v\<bar> < 1"
    by (auto simp: format_number_def pow10_def js_toExponential_def)
next
  show "case val of JNum _ \<Rightarrow> True | _ \<Rightarrow> format_number num_str val p = Inr ''N/A''"
    by (cases val) (simp_all add: format_number_def)
qed

text \<open>
  \<open>format.fileSize\<close> picks the unit correctly: the loop ends after at
  most three divisions, the printed size times \<open>1024^k\<close> is the byte count,
  the size is below 1024 unless the unit is GB and at least 1 unless it is B.
\<close>

theorem fileSize_units:
  assumes "0 \<le> bytes"
  shows "\<exists>sz k. size_loop bytes 0 = (sz, k) \<and> k \<le> 3 \<and> sz * 1024 ^ k = bytes \<and>
     (k < 3 \<longrightarrow> sz < 1024) \<and> (0 < k \<longrightarrow> 1 \<le> sz) \<and>
     format_fileSize num_str bytes =
       (case js_toFixed num_str 1 sz of Inl e \<Rightarrow> Inl e | Inr s \<Rightarrow> Inr (s @ '' '' @ size_units ! k))"
proof -
  obtain sz k where run: "size_loop bytes 0 = (sz, k)"
    by fastforce
  show ?thesis
    using size_loop_facts [OF _ run] run by (simp add: format_fileSize_def)
qed

theorem format_number_precision_witness:
  "format_number (\<lambda>_. '''') (JNum (1 / 2)) 0 = Inl RangeError \<and>
   (\<exists>s. format_number (\<lambda>_. '''') (JNum (1 / 2)) 3 = Inr s) \<and>
   format_number (\<lambda>_. '''') JNaN 3 = Inr ''N/A''"
  using format_number_precision [of 3 "\<lambda>_. ''''" "1 / 2" JNaN] by simp

theorem fileSize_units_witness:
  "\<exists>sz k. size_loop 5000000 0 = (sz, k) \<and> k \<le> 3 \<and> sz * 1024 ^ k = 5000000 \<and>
     (k < 3 \<longrightarrow> sz < 1024) \<and> (0 < k \<longrightarrow> 1 \<le> sz) \<and>
     format_fileSize (\<lambda>_. '''') 5000000 =
       (case js_toFixed (\<lambda>_. '''') 1 sz of Inl e \<Rightarrow> Inl e | Inr s \<Rightarrow> Inr (s @ '' '' @ size_units ! k))"
  by (rule fileSize_units) simp

end
