(* ===== verification/UtilsColors.thy ===== *)
theory UtilsColors
  imports Prelude
begin

text \<open>
  The colour helpers of \<open>RetrocausalUtils.colors\<close> (\<open>src/js/utils.js\<close>,
  lines 651-719): palette generation by linear interpolation between the six
  base colours of a scheme. A colour is a string; an array entry that may be
  \<open>undefined\<close> is an option; a thrown \<open>TypeError\<close> is \<open>Inl\<close>. The count \<open>cnt\<close> is a
  JavaScript number: the loop runs \<open>nat \<lceil>cnt\<rceil>\<close> times. \<open>schemes[scheme]\<close>
  finds the four own keys of the object literal and also the properties it
  inherits from \<open>Object.prototype\<close>: methods (functions, whose \<open>length\<close> is
  their arity and which have no indexed entries) and the \<open>__proto__\<close>
  accessor (an object without \<open>length\<close>); all are truthy, so
  \<open>|| schemes.viridis\<close> does not replace them.
  \<open>parseInt(s, 16)\<close> is modelled for what \<open>substr\<close> of a colour yields: the
  value of the longest prefix of hexadecimal digits, \<open>NaN\<close> (\<open>None\<close>) when
  there is none; leading blanks, signs and a \<open>0x\<close> prefix do not occur.
\<close>

definition schemes :: "(string \<times> string list) list" where
  "schemes =
     [(''viridis'', [''#440154'', ''#404387'', ''#2a788e'', ''#22a884'', ''#7ad151'', ''#fde725'']),
      (''plasma'', [''#0d0887'', ''#6a00a8'', ''#b12a90'', ''#e16462'', ''#fca636'', ''#f0f921'']),
      (''cool'', [''#6e40aa'', ''#5289c7'', ''#1ac7c2'', ''#52f667'', ''#c4ec74'', ''#ffe658'']),
      (''warm'', [''#7c1d6f'', ''#bb3754'', ''#dc5039'', ''#f2701d'', ''#f89b11'', ''#fcce25''])]"

definition scheme_colors :: "string \<Rightarrow> string list" where
  "scheme_colors scheme =
     (case map_of schemes scheme of Some cs \<Rightarrow> cs | None \<Rightarrow> the (map_of schemes ''viridis''))"

text \<open>The value \<open>baseColors\<close> can hold: an array, a function, or a plain object.\<close>

datatype js_base = BaseArray "string list" | BaseFunction nat | BaseObject

text \<open>The properties every object literal inherits from \<open>Object.prototype\<close>, with their values.\<close>

definition object_prototype :: "(string \<times> js_base) list" where
  "object_prototype =
     [(''constructor'', BaseFunction 1), (''__defineGetter__'', BaseFunction 2),
      (''__defineSetter__'', BaseFunction 2), (''hasOwnProperty'', BaseFunction 1),
      (''__lookupGetter__'', BaseFunction 1), (''__lookupSetter__'', BaseFunction 1),
      (''isPrototypeOf'', BaseFunction 1), (''propertyIsEnumerable'', BaseFunction 1),
      (''toString'', BaseFunction 0), (''valueOf'', BaseFunction 0),
      (''__proto__'', BaseObject), (''toLocaleString'', BaseFunction 0)]"

text \<open>\<open>schemes[scheme] || schemes.viridis\<close>: own keys first, then inherited ones.\<close>

definition baseColors_of :: "string \<Rightarrow> js_base" where
  "baseColors_of scheme =
     (case map_of schemes scheme of
        Some cs \<Rightarrow> BaseArray cs
      | None \<Rightarrow> (case map_of object_prototype scheme of
                  Some b \<Rightarrow> b
                | None \<Rightarrow> BaseArray (the (map_of schemes ''viridis''))))"

text \<open>\<open>baseColors.length\<close> (\<open>None\<close> for \<open>undefined\<close>) and \<open>baseColors[k]\<close>.\<close>

definition base_length :: "js_base \<Rightarrow> real option" where
  "base_length b =
     (case b of BaseArray cs \<Rightarrow> Some (real (length cs)) | BaseFunction n \<Rightarrow> Some (real n)
      | BaseObject \<Rightarrow> None)"

text \<open>\<open>a[k]\<close> for an integer index: \<open>undefined\<close> outside the array.\<close>

definition nth_opt :: "'a list \<Rightarrow> int \<Rightarrow> 'a option" where
  "nth_opt xs k = (if 0 \<le> k \<and> nat k < length xs then Some (xs ! nat k) else None)"

definition base_at :: "js_base \<Rightarrow> int \<Rightarrow> string option" where
  "base_at b k = (case b of BaseArray cs \<Rightarrow> nth_opt cs k | _ \<Rightarrow> None)"

text \<open>\<open>s.replace('#', '')\<close>: the first occurrence only.\<close>

fun replace_first :: "char \<Rightarrow> string \<Rightarrow> string" where
  "replace_first c [] = []"
| "replace_first c (x # xs) = (if x = c then xs else x # replace_first c xs)"

definition hex_digit :: "char \<Rightarrow> nat option" where
  "hex_digit c = (case digit_value c of Some d \<Rightarrow> if d < 16 then Some d else None | None \<Rightarrow> None)"

definition parseInt16 :: "string \<Rightarrow> nat option" where
  "parseInt16 s =
     (let ds = takeWhile (\<lambda>c. hex_digit c \<noteq> None) s
      in if ds = [] then None else Some (digits_value 16 ds))"

text \<open>\<open>n.toString(16).padStart(2, '0')\<close>; \<open>NaN\<close> prints as \<open>NaN\<close>.\<close>

definition hex_byte :: "int option \<Rightarrow> string" where
  "hex_byte v =
     (case v of
        None \<Rightarrow> ''NaN''
      | Some n \<Rightarrow>
          let s = (if n < 0 then CHR ''-'' # radix_digits 16 (nat (- n)) else radix_digits 16 (nat n))
          in replicate (2 - length s) CHR ''0'' @ s)"

text \<open>\<open>Math.round(a + (b - a) * ratio)\<close> on channels that may be \<open>NaN\<close>.\<close>

definition mix_channel :: "nat option \<Rightarrow> nat option \<Rightarrow> real \<Rightarrow> int option" where
  "mix_channel a b ratio =
     (case (a, b) of
        (Some x, Some y) \<Rightarrow> Some \<lfloor>real x + (real y - real x) * ratio + 1 / 2\<rfloor>
      | _ \<Rightarrow> None)"

definition interpolateColor :: "string \<Rightarrow> string \<Rightarrow> real \<Rightarrow> string" where
  "interpolateColor color1 color2 ratio =
     (let hex1 = replace_first CHR ''#'' color1; hex2 = replace_first CHR ''#'' color2;
          r1 = parseInt16 (take 2 hex1); g1 = parseInt16 (take 2 (drop 2 hex1));
          b1 = parseInt16 (take 2 (drop 4 hex1));
          r2 = parseInt16 (take 2 hex2); g2 = parseInt16 (take 2 (drop 2 hex2));
          b2 = parseInt16 (take 2 (drop 4 hex2))
      in CHR ''#'' # hex_byte (mix_channel r1 r2 ratio) @ hex_byte (mix_channel g1 g2 ratio) @
           hex_byte (mix_channel b1 b2 ratio))"

text \<open>
  One iteration of the loop of \<open>generatePalette\<close>. For \<open>cnt = 1\<close> the only
  index is 0 and \<open>t = 0 / 0\<close> is \<open>NaN\<close>, and an undefined \<open>length\<close> makes
  \<open>colorIndex\<close> \<open>NaN\<close> as well: \<open>Math.floor(NaN) === Math.ceil(NaN)\<close> is
  false and \<open>baseColors[NaN]\<close> is \<open>undefined\<close>, so \<open>interpolateColor\<close>
  calls \<open>undefined.replace\<close>, a \<open>TypeError\<close>. Otherwise an index without an
  entry gives \<open>undefined\<close>: pushed as it is when both indices agree, a
  \<open>TypeError\<close> in \<open>interpolateColor\<close> when they differ.
\<close>

definition palette_color :: "js_base \<Rightarrow> real \<Rightarrow> nat \<Rightarrow> js_exception + string option" where
  "palette_color baseColors cnt i =
     (if cnt = 1 then Inl TypeError
      else case base_length baseColors of
        None \<Rightarrow> Inl TypeError
      | Some len \<Rightarrow>
          let t = real i / (cnt - 1); colorIndex = t * (len - 1);
              lowerIndex = \<lfloor>colorIndex\<rfloor>; upperIndex = \<lceil>colorIndex\<rceil>;
              ratio = colorIndex - real_of_int lowerIndex
          in if lowerIndex = upperIndex then Inr (base_at baseColors lowerIndex)
             else (case (base_at baseColors lowerIndex, base_at baseColors upperIndex) of
                     (Some c1, Some c2) \<Rightarrow> Inr (Some (interpolateColor c1 c2 ratio))
                   | _ \<Rightarrow> Inl TypeError))"

fun palette_loop :: "js_base \<Rightarrow> real \<Rightarrow> nat list \<Rightarrow> js_exception + string option list" where
  "palette_loop baseColors cnt [] = Inr []"
| "palette_loop baseColors cnt (i # is) =
     (case palette_color baseColors cnt i of
        Inl e \<Rightarrow> Inl e
      | Inr c \<Rightarrow> (case palette_loop baseColors cnt is of Inl e \<Rightarrow> Inl e | Inr cs \<Rightarrow> Inr (c # cs)))"

definition generatePalette :: "real \<Rightarrow> string \<Rightarrow> js_exception + string option list" where
  "generatePalette cnt scheme =
     palette_loop (baseColors_of scheme) cnt [0..<nat \<lceil>cnt\<rceil>]"

text \<open>A well-formed colour: \<open>#\<close> and six lower-case hexadecimal digits.\<close>

definition hex_chars :: string where
  "hex_chars = ''0123456789abcdef''"

definition is_color :: "string \<Rightarrow> bool" where
  "is_color s \<longleftrightarrow> length s = 7 \<and> hd s = CHR ''#'' \<and> list_all (\<lambda>c. c \<in> set hex_chars) (tl s)"

section \<open>Lemmas\<close>

lemma hex_chars_table:
  "length hex_chars = 16 \<and>
   list_all (\<lambda>k. hex_chars ! k = digit_char k \<and> hex_digit (digit_char k) = Some k) [0..<16]"
  by code_simp

lemma hex_chars_value:
  assumes "c \<in> set hex_chars"
  shows "\<exists>d<16. hex_digit c = Some d \<and> c = digit_char d"
proof -
  obtain k where "k < length hex_chars" "c = hex_chars ! k"
    using assms by (auto simp: in_set_conv_nth)
  moreover have "hex_chars ! k = digit_char k \<and> hex_digit (digit_char k) = Some k"
    using hex_chars_table calculation(1) by (simp add: list_all_iff)
  then show ?thesis
    using \<open>k < length hex_chars\<close> \<open>c = hex_chars ! k\<close> hex_chars_table by metis
qed

lemma digit_char_hex: "d < 16 \<Longrightarrow> digit_char d \<in> set hex_chars"
  using hex_chars_table by (auto simp: list_all_iff in_set_conv_nth)

lemma parseInt16_pair:
  assumes "a \<in> set hex_chars" and "b \<in> set hex_chars"
  shows "\<exists>v<256. parseInt16 [a, b] = Some v"
proof -
  obtain x y where "x < 16" "hex_digit a = Some x" "y < 16" "hex_digit b = Some y"
    using hex_chars_value [OF assms(1)] hex_chars_value [OF assms(2)] by blast
  moreover have "x * 16 + y < 256"
    using \<open>x < 16\<close> \<open>y < 16\<close> by linarith
  ultimately show ?thesis
    by (auto simp: parseInt16_def digits_value_def hex_digit_def split: option.splits if_splits)
qed

lemma radix16_short:
  assumes "n < 256"
  shows "length (radix_digits 16 n) \<le> 2 \<and> radix_digits 16 n \<noteq> [] \<and> set (radix_digits 16 n) \<subseteq> set hex_chars"
proof -
  have d: "set (radix_digits 16 n) \<subseteq> set hex_chars" "radix_digits 16 n \<noteq> []"
    using radix_digits_value [of 16 n] digit_char_hex by auto
  have "length (radix_digits 16 n) \<le> 2"
  proof (cases "n < 16")
    case True
    then show ?thesis by (simp add: radix_digits.simps)
  next
    case False
    have "n div 16 < 16" using assms by simp
    then show ?thesis using False
      by (simp add: radix_digits.simps [of 16 n] radix_digits.simps [of 16 "n div 16"])
  qed
  with d show ?thesis by simp
qed

lemma hex_byte_ok:
  assumes "0 \<le> v" and "v < 256"
  shows "length (hex_byte (Some v)) = 2 \<and> set (hex_byte (Some v)) \<subseteq> set hex_chars"
proof -
  have "nat v < 256" using assms by simp
  from radix16_short [OF this] show ?thesis
    using assms by (auto simp: hex_byte_def Let_def hex_chars_def)
qed

lemma mix_channel_ok:
  assumes "x < 256" and "y < 256" and "0 \<le> ratio" and "ratio \<le> 1"
  shows "\<exists>v. mix_channel (Some x) (Some y) ratio = Some v \<and> 0 \<le> v \<and> v < 256"
proof -
  have lo: "0 \<le> real x + (real y - real x) * ratio"
  proof -
    have "real x + (real y - real x) * ratio = (1 - ratio) * real x + ratio * real y"
      by (simp add: algebra_simps)
    also have "0 \<le> \<dots>"
      using assms(3,4) by simp
    finally show ?thesis .
  qed
  have hi: "real x + (real y - real x) * ratio \<le> 255"
  proof -
    have "real x + (real y - real x) * ratio = (1 - ratio) * real x + ratio * real y"
      by (simp add: algebra_simps)
    also have "\<dots> \<le> (1 - ratio) * 255 + ratio * 255"
      using assms by (intro add_mono mult_left_mono) simp_all
    finally show ?thesis by simp
  qed
  show ?thesis
    using lo hi by (simp add: mix_channel_def)
qed

lemma color_parts:
  assumes "is_color c"
  obtains a b d e f g where "c = [CHR ''#'', a, b, d, e, f, g]"
    and "list_all (\<lambda>x. x \<in> set hex_chars) [a, b, d, e, f, g]"
proof -
  obtain h t where c: "c = h # t" using assms by (cases c) (auto simp: is_color_def)
  then have "length t = 6" "h = CHR ''#''" "list_all (\<lambda>x. x \<in> set hex_chars) t"
    using assms by (simp_all add: is_color_def)
  then obtain a b d e f g where "t = [a, b, d, e, f, g]"
    by (auto simp: numeral_eq_Suc length_Suc_conv)
  with c \<open>h = CHR ''#''\<close> \<open>list_all (\<lambda>x. x \<in> set hex_chars) t\<close> show ?thesis
    using that by simp
qed

lemma interpolateColor_ok:
  assumes "is_color c1" and "is_color c2" and "0 \<le> ratio" and "ratio \<le> 1"
  shows "is_color (interpolateColor c1 c2 ratio)"
proof -
  obtain a1 b1 d1 e1 f1 g1 where c1: "c1 = [CHR ''#'', a1, b1, d1, e1, f1, g1]"
    and h1: "list_all (\<lambda>x. x \<in> set hex_chars) [a1, b1, d1, e1, f1, g1]"
    using color_parts [OF assms(1)] by blast
  obtain a2 b2 d2 e2 f2 g2 where c2: "c2 = [CHR ''#'', a2, b2, d2, e2, f2, g2]"
    and h2: "list_all (\<lambda>x. x \<in> set hex_chars) [a2, b2, d2, e2, f2, g2]"
    using color_parts [OF assms(2)] by blast
  have chan: "\<exists>v. mix_channel (parseInt16 [p1, q1]) (parseInt16 [p2, q2]) ratio = Some v \<and> 0 \<le> v \<and> v < 256"
    if "p1 \<in> set hex_chars" "q1 \<in> set hex_chars" "p2 \<in> set hex_chars" "q2 \<in> set hex_chars"
    for p1 q1 p2 q2
    using parseInt16_pair [OF that(1,2)] parseInt16_pair [OF that(3,4)] mix_channel_ok assms(3,4) by fastforce
  obtain r where r: "mix_channel (parseInt16 [a1, b1]) (parseInt16 [a2, b2]) ratio = Some r" "0 \<le> r" "r < 256"
    using chan h1 h2 by (simp add: list_all_iff) blast
  obtain g where g: "mix_channel (parseInt16 [d1, e1]) (parseInt16 [d2, e2]) ratio = Some g" "0 \<le> g" "g < 256"
    using chan h1 h2 by (simp add: list_all_iff) blast
  obtain b where b: "mix_channel (parseInt16 [f1, g1]) (parseInt16 [f2, g2]) ratio = Some b" "0 \<le> b" "b < 256"
    using chan h1 h2 by (simp add: list_all_iff) blast
  have "interpolateColor c1 c2 ratio = CHR ''#'' # hex_byte (Some r) @ hex_byte (Some g) @ hex_byte (Some b)"
    using r(1) g(1) b(1) by (simp add: interpolateColor_def c1 c2 Let_def)
  then show ?thesis
    using hex_byte_ok [OF r(2,3)] hex_byte_ok [OF g(2,3)] hex_byte_ok [OF b(2,3)]
    by (auto simp: is_color_def list_all_iff)
qed

lemma schemes_ok:
  "list_all (\<lambda>cs. length cs = 6 \<and> list_all is_color cs) (map snd schemes)"
  by code_simp

lemma scheme_colors_ok:
  "length (scheme_colors scheme) = 6 \<and> list_all is_color (scheme_colors scheme)"
proof -
  have "scheme_colors scheme \<in> set (map snd schemes)"
  proof (cases "map_of schemes scheme")
    case None
    then show ?thesis by (simp add: scheme_colors_def) (simp add: schemes_def)
  next
    case (Some cs)
    then have "(scheme, cs) \<in> set schemes" by (rule map_of_SomeD)
    then show ?thesis using Some by (force simp: scheme_colors_def)
  qed
  with schemes_ok show ?thesis
    by (auto simp: list_all_iff)
qed

lemma palette_loop_all:
  "(\<And>i. i \<in> set is \<Longrightarrow> palette_color b cnt i = Inr (f i)) \<Longrightarrow> palette_loop b cnt is = Inr (map f is)"
  by (induction "is") simp_all

lemma palette_color_ok:
  assumes "2 \<le> n" and "i < n" and "length b = 6" and "list_all is_color b"
  shows "\<exists>c. palette_color (BaseArray b) (real n) i = Inr (Some c) \<and> is_color c \<and>
           (i = 0 \<longrightarrow> c = b ! 0) \<and> (i = n - 1 \<longrightarrow> c = b ! 5)"
proof -
  define t where "t = real i / (real n - 1)"
  define ci where "ci = t * 5"
  have n1: "real n \<noteq> 1" "0 < real n - 1" using assms(1) by simp_all
  have t: "0 \<le> t" "t \<le> 1" using assms(1,2) n1 by (simp_all add: t_def field_simps)
  then have ci: "0 \<le> ci" "ci \<le> 5" by (simp_all add: ci_def)
  have lo: "0 \<le> \<lfloor>ci\<rfloor>" "\<lfloor>ci\<rfloor> \<le> 5" and up: "0 \<le> \<lceil>ci\<rceil>" "\<lceil>ci\<rceil> \<le> 5"
    using ci by linarith+
  have nth: "0 \<le> k \<Longrightarrow> k \<le> 5 \<Longrightarrow> base_at (BaseArray b) k = Some (b ! nat k) \<and> is_color (b ! nat k)" for k
    using assms(3,4) by (auto simp: base_at_def nth_opt_def list_all_iff)
  have ratio: "0 \<le> ci - real_of_int \<lfloor>ci\<rfloor>" "ci - real_of_int \<lfloor>ci\<rfloor> \<le> 1"
    by linarith+
  have pc: "palette_color (BaseArray b) (real n) i =
      (if \<lfloor>ci\<rfloor> = \<lceil>ci\<rceil> then Inr (base_at (BaseArray b) \<lfloor>ci\<rfloor>)
       else (case (base_at (BaseArray b) \<lfloor>ci\<rfloor>, base_at (BaseArray b) \<lceil>ci\<rceil>) of
               (Some c1, Some c2) \<Rightarrow> Inr (Some (interpolateColor c1 c2 (ci - real_of_int \<lfloor>ci\<rfloor>)))
             | _ \<Rightarrow> Inl TypeError))"
  proof -
    have bl: "base_length (BaseArray b) = Some 6" using assms(3) by (simp add: base_length_def)
    have six: "(6 :: real) - 1 = 5" by simp
    show ?thesis
      unfolding palette_color_def bl option.case Let_def six t_def [symmetric] ci_def [symmetric]
      using n1 by simp
  qed
  have i0: "i = 0 \<Longrightarrow> ci = 0" and ilast: "i = n - 1 \<Longrightarrow> ci = 5"
    using assms(1) n1 by (simp_all add: ci_def t_def of_nat_diff)
  show ?thesis
  proof (cases "\<lfloor>ci\<rfloor> = \<lceil>ci\<rceil>")
    case True
    then show ?thesis
      using pc nth [OF lo] i0 ilast by auto
  next
    case False
    have "i \<noteq> 0"
    proof
      assume "i = 0"
      then have "ci = 0" by (rule i0)
      with False show False by simp
    qed
    have "i \<noteq> n - 1"
    proof
      assume "i = n - 1"
      then have "ci = 5" by (rule ilast)
      with False show False by simp
    qed
    then show ?thesis
      using pc False nth [OF lo] nth [OF up] interpolateColor_ok ratio \<open>i \<noteq> 0\<close> by auto
  qed
qed

lemma base_own:
  assumes "scheme \<notin> set (map fst object_prototype)"
  shows "baseColors_of scheme = BaseArray (scheme_colors scheme)"
proof -
  have "map_of object_prototype scheme = None"
    using assms by (simp add: map_of_eq_None_iff)
  then show ?thesis
    by (simp add: baseColors_of_def scheme_colors_def split: option.split)
qed

lemma palette_many:
  assumes n: "2 \<le> n" and own: "scheme \<notin> set (map fst object_prototype)"
  shows "\<exists>cs. generatePalette (real n) scheme = Inr (map Some cs) \<and> length cs = n \<and>
       list_all is_color cs \<and> hd cs = hd (scheme_colors scheme) \<and> last cs = last (scheme_colors scheme)"
proof -
  define b where "b = scheme_colors scheme"
  have b: "length b = 6" "list_all is_color b"
    using scheme_colors_ok by (simp_all add: b_def)
  define f where "f i = (SOME c. palette_color (BaseArray b) (real n) i = Inr (Some c) \<and> is_color c \<and>
      (i = 0 \<longrightarrow> c = b ! 0) \<and> (i = n - 1 \<longrightarrow> c = b ! 5))" for i
  have f: "palette_color (BaseArray b) (real n) i = Inr (Some (f i)) \<and> is_color (f i) \<and>
      (i = 0 \<longrightarrow> f i = b ! 0) \<and> (i = n - 1 \<longrightarrow> f i = b ! 5)" if "i < n" for i
    unfolding f_def by (rule someI_ex) (rule palette_color_ok [OF n that b])
  have g: "generatePalette (real n) scheme = Inr (map (Some \<circ> f) [0..<n])"
    unfolding generatePalette_def base_own [OF own] b_def [symmetric]
    by (simp add: nat_ceiling_le_eq) (rule palette_loop_all, use f in auto)
  have h: "hd (map f [0..<n]) = hd b" "last (map f [0..<n]) = last b"
  proof -
    have ne: "b \<noteq> []" using b(1) by auto
    have "hd b = b ! 0" "last b = b ! 5"
      using hd_conv_nth [OF ne] last_conv_nth [OF ne] b(1) by simp_all
    then show "hd (map f [0..<n]) = hd b" "last (map f [0..<n]) = last b"
      using f [of 0] f [of "n - 1"] n by (simp_all add: hd_map last_map)
  qed
  show ?thesis
    unfolding b_def [symmetric]
    using f g h by (intro exI [of _ "map f [0..<n]"]) (auto simp: list_all_iff)
qed

lemma palette_one: "generatePalette 1 scheme = Inl TypeError"
  by (simp add: generatePalette_def palette_color_def)

lemma palette_constructor:
  assumes "2 \<le> n"
  shows "generatePalette (real n) ''constructor'' = Inr (replicate n None)"
proof -
  have b: "baseColors_of ''constructor'' = BaseFunction 1"
    by (simp add: baseColors_of_def schemes_def object_prototype_def)
  have "palette_color (BaseFunction 1) (real n) i = Inr None" for i
    using assms by (simp add: palette_color_def base_length_def base_at_def)
  then have "palette_loop (BaseFunction 1) (real n) [0..<n] = Inr (map (\<lambda>_. None) [0..<n])"
    by (intro palette_loop_all)
  then show ?thesis
    by (simp add: generatePalette_def b map_replicate_const)
qed

lemma palette_proto:
  assumes "1 \<le> n"
  shows "generatePalette (real n) ''__proto__'' = Inl TypeError"
proof -
  have b: "baseColors_of ''__proto__'' = BaseObject"
    by (simp add: baseColors_of_def schemes_def object_prototype_def)
  have "[0..<n] = 0 # [1..<n]"
    using assms by (simp add: upt_rec)
  then show ?thesis
    by (simp add: generatePalette_def b palette_color_def base_length_def)
qed

lemma palette_empty: "cnt \<le> 0 \<Longrightarrow> generatePalette cnt scheme = Inr []"
  by (simp add: generatePalette_def)

section \<open>Properties\<close>

text \<open>
  C22. The palette: for an integer count \<open>n \<ge> 2\<close>, every scheme name that is
  not a property of \<open>Object.prototype\<close> gives \<open>n\<close> well-formed colours (those
  of \<open>viridis\<close> when the name is unknown), starting and ending with the
  scheme's first and last colour. A count of 1 throws \<open>TypeError\<close> for every
  name (\<open>0 / 0\<close> makes both indices \<open>NaN\<close>), and a count of at most 0 gives
  no colour. The inherited names do otherwise: \<open>constructor\<close> (a function of
  arity 1) gives \<open>n\<close> undefined entries, and \<open>__proto__\<close> (an object with no
  \<open>length\<close>) throws \<open>TypeError\<close>.
\<close>

theorem generatePalette_behaviour:
  "(2 \<le> n \<longrightarrow> scheme \<notin> set (map fst object_prototype) \<longrightarrow>
      (\<exists>cs. generatePalette (real n) scheme = Inr (map Some cs) \<and> length cs = n \<and>
         list_all is_color cs \<and> hd cs = hd (scheme_colors scheme) \<and> last cs = last (scheme_colors scheme))) \<and>
   generatePalette 1 scheme = Inl TypeError \<and>
   (cnt \<le> 0 \<longrightarrow> generatePalette cnt scheme = Inr []) \<and>
   (2 \<le> n \<longrightarrow> generatePalette (real n) ''constructor'' = Inr (replicate n None)) \<and>
   (1 \<le> n \<longrightarrow> generatePalette (real n) ''__proto__'' = Inl TypeError)"
  using palette_many [of n scheme] palette_one [of scheme] palette_empty [of cnt scheme]
    palette_constructor [of n] palette_proto [of n] by blast

theorem generatePalette_behaviour_witness:
  "(\<exists>cs. generatePalette (real 3) ''viridis'' = Inr (map Some cs) \<and> length cs = 3 \<and>
       list_all is_color cs \<and> hd cs = hd (scheme_colors ''viridis'') \<and>
       last cs = last (scheme_colors ''viridis'')) \<and>
   generatePalette 1 ''viridis'' = Inl TypeError \<and> generatePalette 0 ''viridis'' = Inr [] \<and>
   generatePalette (real 3) ''constructor'' = Inr [None, None, None] \<and>
   generatePalette (real 3) ''__proto__'' = Inl TypeError"
proof -
  have "''viridis'' \<notin> set (map fst object_prototype)"
    by (simp add: object_prototype_def)
  then show ?thesis
    using generatePalette_behaviour [of 3 "''viridis''" 0] by (simp add: numeral_3_eq_3)
qed

end
