(* ===== verification/UtilsPerformance.thy ===== *)
theory UtilsPerformance
  imports Prelude
begin

text \<open>
  The performance helpers of \<open>RetrocausalUtils.performance\<close>
  (\<open>src/js/utils.js\<close>, lines 546-646). The clock \<open>performance.now()\<close> is
  an argument of each operation that reads it. The timer table is a map from
  names to start times. \<open>estimateMemoryUsage\<close> walks a value over an explicit
  heap of arrays and plain objects, with the \<open>WeakSet\<close> of visited objects
  as a set of addresses; its recursion depth is bounded by fuel, one unit per
  object entered, and the entry point gives one more unit than the heap has
  objects. \<open>debounce\<close> and \<open>throttle\<close> return closures over a timer; they
  are state machines stepped by calls and by the passing of time, and record
  the arguments of each call of the wrapped function.
\<close>

section \<open>Definitions\<close>

subsection \<open>The timer\<close>

type_synonym timer_table = "string \<rightharpoonup> real"

definition timer_start :: "string \<Rightarrow> real \<Rightarrow> timer_table \<Rightarrow> timer_table" where
  "timer_start name now timers = timers(name \<mapsto> now)"

definition timer_end :: "string \<Rightarrow> real \<Rightarrow> timer_table \<Rightarrow> real \<times> timer_table" where
  "timer_end name now timers =
     (case timers name of
        None \<Rightarrow> (0, timers)
      | Some start \<Rightarrow> (now - start, timers(name := None)))"

text \<open>\<open>measure(name, fn)\<close>: the clock reads \<open>t0\<close> at \<open>start\<close> and \<open>t1\<close> at \<open>end\<close>.\<close>

definition timer_measure ::
  "string \<Rightarrow> ('a \<Rightarrow> 'b) \<Rightarrow> 'a \<Rightarrow> real \<Rightarrow> real \<Rightarrow> timer_table \<Rightarrow> 'b \<times> real \<times> timer_table" where
  "timer_measure name fn x t0 t1 timers =
     (let timers1 = timer_start name t0 timers;
          result = fn x;
          (duration, timers2) = timer_end name t1 timers1
      in (result, duration, timers2))"

subsection \<open>Memory estimate\<close>

text \<open>
  JavaScript values as \<open>sizeOf\<close> distinguishes them; \<open>VOther\<close> is
  \<open>undefined\<close>, a function or a symbol. Objects live in a heap, an association
  list from addresses to arrays and plain objects (keys in
  \<open>Object.entries\<close> order). A reference outside the heap, which a
  JavaScript value cannot hold, counts 0.
\<close>

datatype jsval = VNull | VOther | VBool bool | VNum real | VStr string | VRef nat

datatype jsobj = ObjArray "jsval list" | ObjPlain "(string \<times> jsval) list"

type_synonym heap = "(nat \<times> jsobj) list"

fun sizeOf :: "nat \<Rightarrow> heap \<Rightarrow> nat set \<Rightarrow> jsval \<Rightarrow> (nat \<times> nat set) option"
and sizes_of :: "nat \<Rightarrow> heap \<Rightarrow> nat set \<Rightarrow> jsval list \<Rightarrow> (nat \<times> nat set) option" where
  "sizeOf 0 h seen v = None"
| "sizeOf (Suc n) h seen v =
     (case v of
        VStr s \<Rightarrow> Some (length s * 2, seen)
      | VNum _ \<Rightarrow> Some (8, seen)
      | VBool _ \<Rightarrow> Some (4, seen)
      | VNull \<Rightarrow> Some (0, seen)
      | VOther \<Rightarrow> Some (0, seen)
      | VRef a \<Rightarrow>
          (if a \<in> seen then Some (0, seen)
           else case map_of h a of
             None \<Rightarrow> Some (0, seen)
           | Some (ObjArray items) \<Rightarrow>
               map_option (\<lambda>(b, s). (length items * 8 + b, s)) (sizes_of n h (insert a seen) items)
           | Some (ObjPlain entries) \<Rightarrow>
               map_option (\<lambda>(b, s). (length entries * 8 + sum_list (map (\<lambda>(k, _). length k * 2) entries) + b, s))
                 (sizes_of n h (insert a seen) (map snd entries))))"
| "sizes_of n h seen [] = Some (0, seen)"
| "sizes_of n h seen (x # xs) =
     (case sizeOf n h seen x of
        None \<Rightarrow> None
      | Some (b, s) \<Rightarrow> map_option (\<lambda>(b', s'). (b + b', s')) (sizes_of n h s xs))"

definition estimateMemoryUsage :: "heap \<Rightarrow> jsval \<Rightarrow> nat option" where
  "estimateMemoryUsage h obj = map_option fst (sizeOf (Suc (length h)) h {} obj)"

subsection \<open>Debounce and throttle\<close>

text \<open>
  Events seen by a wrapper: a call with its arguments at the current time, or
  the passing of \<open>dt\<close> milliseconds, during which a due timer fires.
\<close>

datatype 'a timed_event = Call 'a | Wait real

text \<open>
  \<open>debounce(func, delay)\<close>: the closure's \<open>timeoutId\<close> is the pending timer,
  its deadline and the arguments it will apply \<open>func\<close> to.
\<close>

record 'a debouncer =
  deb_now :: real
  timeoutId :: "(real \<times> 'a) option"
  deb_invoked :: "'a list"

definition debounce_init :: "'a debouncer" where
  "debounce_init = \<lparr>deb_now = 0, timeoutId = None, deb_invoked = []\<rparr>"

definition debounce_call :: "real \<Rightarrow> 'a \<Rightarrow> 'a debouncer \<Rightarrow> 'a debouncer" where
  "debounce_call delay args st = st\<lparr>timeoutId := Some (deb_now st + delay, args)\<rparr>"

definition debounce_wait :: "real \<Rightarrow> 'a debouncer \<Rightarrow> 'a debouncer" where
  "debounce_wait dt st =
     (let t = deb_now st + dt in
      case timeoutId st of
        Some (deadline, args) \<Rightarrow>
          (if deadline \<le> t then st\<lparr>deb_now := t, timeoutId := None, deb_invoked := deb_invoked st @ [args]\<rparr>
           else st\<lparr>deb_now := t\<rparr>)
      | None \<Rightarrow> st\<lparr>deb_now := t\<rparr>)"

fun debounce_step :: "real \<Rightarrow> 'a debouncer \<Rightarrow> 'a timed_event \<Rightarrow> 'a debouncer" where
  "debounce_step delay st (Call args) = debounce_call delay args st"
| "debounce_step delay st (Wait dt) = debounce_wait dt st"

definition debounce_run :: "real \<Rightarrow> 'a debouncer \<Rightarrow> 'a timed_event list \<Rightarrow> 'a debouncer" where
  "debounce_run delay st evs = foldl (debounce_step delay) st evs"

text \<open>
  \<open>throttle(func, limit)\<close>: the closure's \<open>inThrottle\<close> flag (initially
  \<open>undefined\<close>, i.e. false) and the deadline of the timer that clears it;
  each call of \<open>func\<close> is recorded with its time.
\<close>

record 'a throttler =
  thr_now :: real
  inThrottle :: bool
  resetAt :: "real option"
  thr_invoked :: "(real \<times> 'a) list"

definition throttle_init :: "'a throttler" where
  "throttle_init = \<lparr>thr_now = 0, inThrottle = False, resetAt = None, thr_invoked = []\<rparr>"

definition throttle_call :: "real \<Rightarrow> 'a \<Rightarrow> 'a throttler \<Rightarrow> 'a throttler" where
  "throttle_call limit args st =
     (if \<not> inThrottle st
      then st\<lparr>thr_invoked := thr_invoked st @ [(thr_now st, args)], inThrottle := True,
              resetAt := Some (thr_now st + limit)\<rparr>
      else st)"

definition throttle_wait :: "real \<Rightarrow> 'a throttler \<Rightarrow> 'a throttler" where
  "throttle_wait dt st =
     (let t = thr_now st + dt in
      case resetAt st of
        Some deadline \<Rightarrow>
          (if deadline \<le> t then st\<lparr>thr_now := t, inThrottle := False, resetAt := None\<rparr>
           else st\<lparr>thr_now := t\<rparr>)
      | None \<Rightarrow> st\<lparr>thr_now := t\<rparr>)"

fun throttle_step :: "real \<Rightarrow> 'a throttler \<Rightarrow> 'a timed_event \<Rightarrow> 'a throttler" where
  "throttle_step limit st (Call args) = throttle_call limit args st"
| "throttle_step limit st (Wait dt) = throttle_wait dt st"

definition throttle_run :: "real \<Rightarrow> 'a throttler \<Rightarrow> 'a timed_event list \<Rightarrow> 'a throttler" where
  "throttle_run limit st evs = foldl (throttle_step limit) st evs"

definition waits_nonneg :: "'a timed_event list \<Rightarrow> bool" where
  "waits_nonneg evs \<longleftrightarrow> (\<forall>dt. Wait dt \<in> set evs \<longrightarrow> 0 \<le> dt)"

text \<open>
  A burst of calls with the gaps after them, and the invariant of a throttled
  wrapper: the flag is set exactly while a reset timer is pending, that timer is
  due \<open>limit\<close> after the last invocation, and invocations are spaced.
\<close>

definition burst :: "('a \<times> real) list \<Rightarrow> 'a timed_event list" where
  "burst calls = concat (map (\<lambda>(args, gap). [Call args, Wait gap]) calls)"

definition thr_inv :: "real \<Rightarrow> 'a throttler \<Rightarrow> bool" where
  "thr_inv limit st \<longleftrightarrow>
     (inThrottle st \<longleftrightarrow> resetAt st \<noteq> None) \<and>
     (\<forall>d. resetAt st = Some d \<longrightarrow> thr_invoked st \<noteq> [] \<and> d = fst (last (thr_invoked st)) + limit) \<and>
     (thr_invoked st \<noteq> [] \<longrightarrow> fst (last (thr_invoked st)) \<le> thr_now st \<and>
        (\<not> inThrottle st \<longrightarrow> fst (last (thr_invoked st)) + limit \<le> thr_now st)) \<and>
     sorted_wrt (\<lambda>e e'. fst e + limit \<le> fst e') (thr_invoked st)"

section \<open>Lemmas\<close>

lemma timer_round_trip:
  "timer_end name t1 (timer_start name t0 timers) = (t1 - t0, timers(name := None)) \<and>
   timer_end name t (timers(name := None)) = (0, timers(name := None)) \<and>
   timer_measure name fn x t0 t1 timers = (fn x, t1 - t0, timers(name := None))"
  by (simp add: timer_start_def timer_end_def timer_measure_def)

lemma sizeOf_total:
  "card (fst ` set h - seen) < n \<Longrightarrow> \<exists>b s. sizeOf n h seen v = Some (b, s) \<and> seen \<subseteq> s"
  "card (fst ` set h - seen) < n \<Longrightarrow> \<exists>b s. sizes_of n h seen xs = Some (b, s) \<and> seen \<subseteq> s"
proof (induction n h seen v and n h seen xs rule: sizeOf_sizes_of.induct)
  case (2 n h seen v)
  show ?case
  proof (cases v)
    case (VRef a)
    show ?thesis
    proof (cases "a \<in> seen")
      case False
      show ?thesis
      proof (cases "map_of h a")
        case (Some o')
        then have "a \<in> fst ` set h"
          by (metis domI dom_map_of_conv_image_fst)
        with False have "card (fst ` set h - insert a seen) < card (fst ` set h - seen)"
          by (intro psubset_card_mono) auto
        then have c: "card (fst ` set h - insert a seen) < n"
          using "2.prems" by simp
        show ?thesis
        proof (cases o')
          case (ObjArray items)
          obtain b s where "sizes_of n h (insert a seen) items = Some (b, s)" and "insert a seen \<subseteq> s"
            using "2.IH"(1) [OF VRef False Some ObjArray c] by blast
          then show ?thesis using VRef False Some ObjArray by auto
        next
          case (ObjPlain entries)
          obtain b s where "sizes_of n h (insert a seen) (map snd entries) = Some (b, s)"
              and "insert a seen \<subseteq> s"
            using "2.IH"(2) [OF VRef False Some ObjPlain c] by blast
          then show ?thesis using VRef False Some ObjPlain by auto
        qed
      qed (simp add: VRef False)
    qed (simp add: VRef)
  qed simp_all
next
  case (4 n h seen x xs)
  obtain b s where x: "sizeOf n h seen x = Some (b, s)" and sub: "seen \<subseteq> s"
    using "4.IH"(1) [OF "4.prems"] by blast
  have "card (fst ` set h - s) \<le> card (fst ` set h - seen)"
    using sub by (intro card_mono) auto
  then obtain b' s' where "sizes_of n h s xs = Some (b', s')" and "s \<subseteq> s'"
    using "4.IH"(2) [OF x refl] "4.prems" by fastforce
  then show ?case using x sub by auto
qed simp_all

text \<open>
  C25. estimateMemoryUsage returns a size for every value over every heap, cyclic
  structures included: the WeakSet of visited objects bounds the recursion
  depth by the number of objects, so the fuel of the entry point is never
  exhausted.
\<close>

theorem estimateMemoryUsage_terminates:
  "\<exists>n. estimateMemoryUsage h v = Some n"
proof -
  have "card (fst ` set h - {}) < Suc (length h)"
    using card_image_le [of "set h" fst] card_length [of h] by simp
  then show ?thesis
    using sizeOf_total(1) [of h "{}" "Suc (length h)" v] by (auto simp: estimateMemoryUsage_def)
qed

lemma estimateMemoryUsage_cycle:
  "estimateMemoryUsage [(0, ObjPlain [(''self'', VRef 0)])] (VRef 0) = Some 16"
  by (simp add: estimateMemoryUsage_def numeral_eq_Suc)

lemma debounce_run_simps [simp]:
  "debounce_run delay st [] = st"
  "debounce_run delay st (ev # evs) = debounce_run delay (debounce_step delay st ev) evs"
  "debounce_run delay st (evs @ evs') = debounce_run delay (debounce_run delay st evs) evs'"
  by (simp_all add: debounce_run_def)

text \<open>
  C26. Liveness of debounce: after any history, a call followed by a wait of at
  least the delay invokes the wrapped function exactly once more, with that
  call's arguments, and leaves no timer pending.
\<close>

theorem debounce_fires_last_call:
  assumes "delay \<le> dt"
  shows "let st' = debounce_run delay st (evs @ [Call args, Wait dt]) in
     deb_invoked st' = deb_invoked (debounce_run delay st evs) @ [args] \<and> timeoutId st' = None"
  using assms by (simp add: debounce_call_def debounce_wait_def Let_def)

text \<open>
  Safety of debounce: during a burst of calls separated by gaps shorter than
  the delay the wrapped function is not invoked at all, and the pending timer
  carries the arguments of the last call.
\<close>

theorem debounce_burst_quiet:
  assumes "calls \<noteq> []" and "\<forall>(args, gap) \<in> set calls. 0 \<le> gap \<and> gap < delay"
  shows "deb_invoked (debounce_run delay st (burst calls)) = deb_invoked st \<and>
     (\<exists>d. timeoutId (debounce_run delay st (burst calls)) = Some (d, fst (last calls)))"
  using assms
proof (induction calls arbitrary: st)
  case (Cons c cs)
  obtain args gap where c: "c = (args, gap)" by fastforce
  let ?st1 = "debounce_wait gap (debounce_call delay args st)"
  have g: "gap < delay" using Cons.prems(2) c by auto
  have st1: "deb_invoked ?st1 = deb_invoked st" "timeoutId ?st1 = Some (deb_now st + delay, args)"
    using g by (simp_all add: debounce_call_def debounce_wait_def Let_def)
  show ?case
  proof (cases cs)
    case Nil
    then show ?thesis using st1 c by (simp add: burst_def)
  next
    case (Cons c' cs')
    have "burst (c # cs) = [Call args, Wait gap] @ burst cs"
      by (simp add: burst_def c)
    then show ?thesis
      using Cons.IH [of ?st1] Cons.prems(2) \<open>cs = c' # cs'\<close> st1 by simp
  qed
qed simp

lemma throttle_run_simps [simp]:
  "throttle_run limit st [] = st"
  "throttle_run limit st (ev # evs) = throttle_run limit (throttle_step limit st ev) evs"
  by (simp_all add: throttle_run_def)

lemma sorted_wrt_last:
  "sorted_wrt R xs \<Longrightarrow> e \<in> set xs \<Longrightarrow> e = last xs \<or> R e (last xs)"
  by (induction xs) (auto simp: last_in_set)

lemma thr_inv_step:
  assumes "thr_inv limit st" and "0 \<le> limit" and "\<forall>dt. ev = Wait dt \<longrightarrow> 0 \<le> dt"
  shows "thr_inv limit (throttle_step limit st ev)"
proof (cases ev)
  case (Call args)
  show ?thesis
  proof (cases "inThrottle st")
    case False
    have "\<forall>e \<in> set (thr_invoked st). fst e + limit \<le> thr_now st"
    proof
      fix e assume e: "e \<in> set (thr_invoked st)"
      then have ne: "thr_invoked st \<noteq> []" by auto
      have "e = last (thr_invoked st) \<or> fst e + limit \<le> fst (last (thr_invoked st))"
        using assms(1) e sorted_wrt_last unfolding thr_inv_def by fastforce
      then show "fst e + limit \<le> thr_now st"
        using assms(1,2) False ne unfolding thr_inv_def by auto
    qed
    then show ?thesis
      using assms(1) False Call by (auto simp: thr_inv_def throttle_call_def sorted_wrt_append)
  qed (use assms Call in \<open>simp add: throttle_call_def\<close>)
next
  case (Wait dt)
  then have "0 \<le> dt" using assms(3) by simp
  then show ?thesis
    using assms(1) Wait by (auto simp: thr_inv_def throttle_wait_def Let_def split: option.splits)
qed

text \<open>
  C27. Safety of throttle: for a nonnegative limit, any two invocations of the
  wrapped function are at least limit milliseconds apart.
\<close>

theorem throttle_spacing:
  assumes "0 \<le> limit" and "waits_nonneg evs"
  shows "sorted_wrt (\<lambda>e e'. fst e + limit \<le> fst e') (thr_invoked (throttle_run limit throttle_init evs))"
proof -
  have "thr_inv limit st \<Longrightarrow> waits_nonneg evs \<Longrightarrow> thr_inv limit (throttle_run limit st evs)" for st
  proof (induction evs arbitrary: st)
    case (Cons ev evs)
    have "thr_inv limit (throttle_step limit st ev)"
      using Cons.prems assms(1) by (intro thr_inv_step) (auto simp: waits_nonneg_def)
    then show ?case
      using Cons.IH Cons.prems(2) by (simp add: waits_nonneg_def)
  qed simp
  moreover have "thr_inv limit throttle_init"
    by (simp add: thr_inv_def throttle_init_def)
  ultimately have "thr_inv limit (throttle_run limit throttle_init evs)"
    using assms(2) by blast
  then show ?thesis
    by (simp add: thr_inv_def)
qed

text \<open>
  A call made while throttled is dropped for good: no later passing of time
  invokes it (throttle has no trailing call).
\<close>

theorem throttle_drops_calls:
  assumes "inThrottle st" and "\<forall>ev \<in> set waits. \<exists>dt. ev = Wait dt"
  shows "thr_invoked (throttle_run limit st (Call args # waits)) = thr_invoked st"
proof -
  have "thr_invoked (throttle_run limit st' waits) = thr_invoked st'" for st' :: "'a throttler"
    using assms(2)
  proof (induction waits arbitrary: st')
    case (Cons ev evs)
    then obtain dt where "ev = Wait dt" by auto
    then show ?case
      using Cons by (simp add: throttle_wait_def Let_def split: option.split)
  qed simp
  then show ?thesis
    using assms(1) by (simp add: throttle_call_def)
qed

theorem debounce_fires_last_call_witness:
  "(100::real) \<le> 150 \<and>
   deb_invoked (debounce_run 100 debounce_init [Call (1::nat), Wait 50, Call 2, Wait 150]) = [2]"
  using debounce_fires_last_call [of 100 150 debounce_init "[Call (1::nat), Wait 50]" 2]
  by (simp add: debounce_init_def debounce_call_def debounce_wait_def Let_def)

theorem debounce_burst_quiet_witness:
  "[(1::nat, 50::real), (2, 50)] \<noteq> [] \<and>
   deb_invoked (debounce_run 100 debounce_init (burst [(1::nat, 50::real), (2, 50)])) = [] \<and>
   (\<exists>d. timeoutId (debounce_run 100 debounce_init (burst [(1::nat, 50::real), (2, 50)])) = Some (d, 2))"
  using debounce_burst_quiet [of "[(1::nat, 50::real), (2, 50)]" 100 debounce_init]
  by (simp add: debounce_init_def)

theorem throttle_spacing_witness:
  "0 \<le> (100::real) \<and> waits_nonneg [Call (1::nat), Wait 30, Call 2, Wait 80, Call 3] \<and>
   thr_invoked (throttle_run 100 throttle_init [Call (1::nat), Wait 30, Call 2, Wait 80, Call 3]) =
     [(0, 1), (110, 3)] \<and>
   sorted_wrt (\<lambda>e e'. fst e + 100 \<le> fst e')
     (thr_invoked (throttle_run 100 throttle_init [Call (1::nat), Wait 30, Call 2, Wait 80, Call 3]))"
proof -
  have w: "waits_nonneg [Call (1::nat), Wait 30, Call 2, Wait 80, Call 3]"
    by (auto simp: waits_nonneg_def)
  have r: "thr_invoked (throttle_run 100 throttle_init [Call (1::nat), Wait 30, Call 2, Wait 80, Call 3]) =
     [(0, 1), (110, 3)]"
    by (simp add: throttle_init_def throttle_call_def throttle_wait_def Let_def)
  show ?thesis
    using throttle_spacing [OF _ w, of 100] w r by simp
qed

theorem throttle_drops_calls_witness:
  "inThrottle (throttle_run 100 throttle_init [Call (1::nat)]) \<and>
   thr_invoked (throttle_run 100 (throttle_run 100 throttle_init [Call (1::nat)]) [Call 2, Wait 500]) =
     [(0, 1)]"
proof -
  have i: "inThrottle (throttle_run 100 throttle_init [Call (1::nat)])"
    by (simp add: throttle_init_def throttle_call_def)
  have v: "thr_invoked (throttle_run 100 throttle_init [Call (1::nat)]) = [(0, 1)]"
    by (simp add: throttle_init_def throttle_call_def)
  show ?thesis
    using throttle_drops_calls [OF i, of "[Wait 500]" 100 2] i v by simp
qed

end
