(* ===== verification/PySim.thy ===== *)
theory PySim
  imports Hamming
begin

text \<open>
  The Python reference simulator printed in the white paper
  (\<open>src/unnamed/part_000\<close>): appendix B.1 (\<open>RetrocausalSimulator\<close> with
  \<open>hamming_encode\<close>, \<open>hamming_decode\<close>, \<open>fixed_point_solver\<close>), appendix B.2
  (\<open>run_convergence_analysis\<close>), and the fragments of section 6.2 (the
  generic fixed-point loop) and 6.3 (syndrome and correction). Python ints are
  \<open>int\<close> (\<open>%\<close> by a positive modulus is HOL's \<open>mod\<close>, \<open>^\<close> is \<open>XOR\<close>); a
  raised exception is a value of \<open>py_exception\<close>. The helpers the fragments
  call but the paper never defines are given their classical reading:
  \<open>measure_parity\<close> is the XOR of the listed bits and \<open>apply_pauli_x\<close> flips
  one bit; \<open>np.random.randint(0, 2)\<close> is one draw of the random source,
  0 below one half and 1 otherwise.
\<close>

datatype py_exception = ValueError | UnboundLocalError | ZeroDivisionError

text \<open>\<open>RetrocausalSimulator.__init__(num_qubits = 7)\<close>.\<close>

record py_simulator =
  num_qubits :: nat
  dimension :: nat

definition simulator_init :: "nat \<Rightarrow> py_simulator" where
  "simulator_init n = \<lparr>num_qubits = n, dimension = 2 ^ n\<rparr>"

definition hamming_encode :: "int list \<Rightarrow> py_exception + int list" where
  "hamming_encode data_bits =
     (if length data_bits \<noteq> 4 then Inl ValueError
      else let d1 = data_bits ! 0; d2 = data_bits ! 1; d3 = data_bits ! 2; d4 = data_bits ! 3;
               p1 = (d1 + d2 + d4) mod 2;
               p2 = (d1 + d3 + d4) mod 2;
               p3 = (d2 + d3 + d4) mod 2
           in Inr [p1, p2, d1, p3, d2, d3, d4])"

definition hamming_decode :: "int list \<Rightarrow> py_exception + int list \<times> int list" where
  "hamming_decode cw =
     (if length cw \<noteq> 7 then Inl ValueError
      else let c = cw;
               s1 = (c ! 0 + c ! 2 + c ! 4 + c ! 6) mod 2;
               s2 = (c ! 1 + c ! 2 + c ! 5 + c ! 6) mod 2;
               s3 = (c ! 3 + c ! 4 + c ! 5 + c ! 6) mod 2;
               synd = s1 + 2 * s2 + 4 * s3;
               c' = (if synd \<noteq> 0 then c[nat (synd - 1) := c ! nat (synd - 1) XOR 1] else c)
           in Inr ([c' ! 2, c' ! 4, c' ! 5, c' ! 6], c'))"

text \<open>
  The loop of \<open>fixed_point_solver\<close>: the argument is the number of iterations
  left, \<open>corrected\<close> the variable \<open>corrected_codeword\<close> (\<open>None\<close> while it is
  unbound). Falling out of the loop reads it: with no iteration run that is an
  \<open>UnboundLocalError\<close>.
\<close>

fun pfp_loop :: "nat \<Rightarrow> int list \<Rightarrow> int list option \<Rightarrow> py_exception + int list \<times> int list \<times> bool" where
  "pfp_loop 0 current corrected =
     (case corrected of None \<Rightarrow> Inl UnboundLocalError | Some cc \<Rightarrow> Inr (current, cc, False))"
| "pfp_loop (Suc n) current corrected =
     (case hamming_encode current of
        Inl e \<Rightarrow> Inl e
      | Inr encoded \<Rightarrow>
          (case hamming_decode encoded of
             Inl e \<Rightarrow> Inl e
           | Inr (decoded, cc) \<Rightarrow>
               if decoded = current then Inr (current, cc, True) else pfp_loop n decoded (Some cc)))"

text \<open>\<open>range(max_iterations)\<close> is empty for a non-positive bound; \<open>tolerance\<close> is never read.\<close>

definition fixed_point_solver :: "int list \<Rightarrow> int \<Rightarrow> real \<Rightarrow> py_exception + int list \<times> int list \<times> bool" where
  "fixed_point_solver initial_data max_iterations tolerance =
     pfp_loop (nat max_iterations) initial_data None"

text \<open>\<open>run_convergence_analysis(num_trials = 1000)\<close> (appendix B.2).\<close>

record analysis_results =
  success_rate :: real
  avg_iterations :: real
  iteration_distribution :: "nat list"
  final_fidelities :: "real list"

definition randint2 :: "rng \<Rightarrow> int \<times> rng" where
  "randint2 g = (case next_random g of (r, g') \<Rightarrow> (if r < 1 / 2 then 0 else 1, g'))"

fun random_data :: "nat \<Rightarrow> rng \<Rightarrow> int list \<times> rng" where
  "random_data 0 g = ([], g)"
| "random_data (Suc k) g =
     (case randint2 g of (b, g1) \<Rightarrow> (case random_data k g1 of (bs, g2) \<Rightarrow> (b # bs, g2)))"

fun run_trials :: "nat \<Rightarrow> nat \<Rightarrow> rng \<Rightarrow> py_exception + nat \<times> rng" where
  "run_trials 0 successes g = Inr (successes, g)"
| "run_trials (Suc k) successes g =
     (case random_data 4 g of
        (data, g1) \<Rightarrow>
          (case fixed_point_solver data 100 (1 / 1000000) of
             Inl e \<Rightarrow> Inl e
           | Inr (final_data, final_codeword, converged) \<Rightarrow>
               run_trials k (if converged then Suc successes else successes) g1))"

definition run_convergence_analysis :: "int \<Rightarrow> rng \<Rightarrow> py_exception + analysis_results \<times> rng" where
  "run_convergence_analysis num_trials g =
     (case run_trials (nat num_trials) 0 g of
        Inl e \<Rightarrow> Inl e
      | Inr (successes, g') \<Rightarrow>
          if num_trials = 0 then Inl ZeroDivisionError
          else Inr (\<lparr>success_rate = real successes / of_int num_trials, avg_iterations = 0,
                     iteration_distribution = [], final_fidelities = []\<rparr>, g'))"

text \<open>Section 6.3: \<open>compute_hamming_syndrome\<close> and \<open>apply_hamming_correction\<close>.\<close>

definition measure_parity :: "nat list \<Rightarrow> int list \<Rightarrow> int" where
  "measure_parity positions state = foldl (\<lambda>p i. p XOR state ! i) 0 positions"

definition compute_hamming_syndrome :: "int list \<Rightarrow> int" where
  "compute_hamming_syndrome codeword_state =
     (let s1 = measure_parity [0, 2, 4, 6] codeword_state;
          s2 = measure_parity [1, 2, 5, 6] codeword_state;
          s3 = measure_parity [3, 4, 5, 6] codeword_state
      in s1 + 2 * s2 + 4 * s3)"

definition apply_pauli_x :: "int list \<Rightarrow> nat \<Rightarrow> int list" where
  "apply_pauli_x state i = state[i := state ! i XOR 1]"

definition apply_hamming_correction :: "int list \<Rightarrow> int \<Rightarrow> int list" where
  "apply_hamming_correction codeword_state synd =
     (if synd = 0 then codeword_state
      else apply_pauli_x codeword_state (nat (synd - 1)))"

text \<open>
  Section 6.2: the generic \<open>fixed_point_solver\<close>, with the evolution and the
  state distance as parameters (the paper leaves them abstract).
\<close>

fun fixed_point_generic :: "('s \<Rightarrow> 's) \<Rightarrow> ('s \<Rightarrow> 's \<Rightarrow> real) \<Rightarrow> real \<Rightarrow> nat \<Rightarrow> 's \<Rightarrow> 's \<times> bool" where
  "fixed_point_generic evolve distance tolerance 0 current = (current, False)"
| "fixed_point_generic evolve distance tolerance (Suc n) current =
     (let evolved = evolve current
      in if distance current evolved < tolerance then (evolved, True)
         else fixed_point_generic evolve distance tolerance n evolved)"

section \<open>Lemmas\<close>

subsection \<open>Parity by sums\<close>

lemma mod2_xor3: "is_bit a \<Longrightarrow> is_bit b \<Longrightarrow> is_bit c \<Longrightarrow> (a + b + c) mod 2 = (a XOR b) XOR c"
  by (auto simp: is_bit_def)

lemma mod2_xor4:
  "is_bit a \<Longrightarrow> is_bit b \<Longrightarrow> is_bit c \<Longrightarrow> is_bit d \<Longrightarrow> (a + b + c + d) mod 2 = ((a XOR b) XOR c) XOR d"
  by (auto simp: is_bit_def)

lemma is_bit_range: "is_bit a \<Longrightarrow> 0 \<le> a \<and> a \<le> 1"
  by (auto simp: is_bit_def)

lemma table_pred: "0 \<le> sv \<Longrightarrow> sv \<le> 7 \<Longrightarrow> syndromeToErrorPosition sv = Some (sv - 1)"
proof -
  assume "0 \<le> sv" "sv \<le> 7"
  then have "sv = 0 \<or> sv = 1 \<or> sv = 2 \<or> sv = 3 \<or> sv = 4 \<or> sv = 5 \<or> sv = 6 \<or> sv = 7" by presburger
  then show ?thesis by (elim disjE) (simp_all add: syndromeToErrorPosition_def)
qed

subsection \<open>Agreement with the engine\<close>

lemma py_encode_engine:
  assumes "validateDataBits d"
  shows "\<exists>c. encode d = Inr c \<and> hamming_encode d = Inr c"
proof -
  obtain a b c e where d: "d = [a, b, c, e]" and bits: "is_bit a" "is_bit b" "is_bit c" "is_bit e"
    and enc: "encode d = Inr [(a XOR b) XOR e, (a XOR c) XOR e, a, (b XOR c) XOR e, b, c, e]"
    using encode_cases [OF assms] by blast
  show ?thesis using bits enc unfolding d by (simp add: hamming_encode_def mod2_xor3)
qed

lemma py_decode_engine:
  assumes "validateCodeword c"
  shows "\<exists>r. decode c = Inr r \<and> hamming_decode c = Inr (dataBits r, correctedCodeword r) \<and>
           compute_hamming_syndrome c = syndromeValue r \<and>
           apply_hamming_correction c (syndromeValue r) = correctedCodeword r"
proof -
  obtain c0 c1 c2 c3 c4 c5 c6 where cw: "c = [c0, c1, c2, c3, c4, c5, c6]"
    and bits: "is_bit c0" "is_bit c1" "is_bit c2" "is_bit c3" "is_bit c4" "is_bit c5" "is_bit c6"
    using assms unfolding validateCodeword_def by (rule bits_of_length_7_cases)
  define s1 where "s1 = ((c0 XOR c2) XOR c4) XOR c6"
  define s2 where "s2 = ((c1 XOR c2) XOR c5) XOR c6"
  define s3 where "s3 = ((c3 XOR c4) XOR c5) XOR c6"
  have sb: "is_bit s1" "is_bit s2" "is_bit s3"
    using bits by (simp_all add: s1_def s2_def s3_def is_bit_xor)
  define sv where "sv = s1 + 2 * s2 + 4 * s3"
  have range: "0 \<le> sv" "sv \<le> 7" using is_bit_range [OF sb(1)] is_bit_range [OF sb(2)] is_bit_range [OF sb(3)]
    by (simp_all add: sv_def)
  have syn: "calculateSyndrome c = [s1, s2, s3]" by (simp add: cw syndrome_bits s1_def s2_def s3_def)
  have svs: "syndromeToInteger [s1, s2, s3] = sv" by (simp add: syndromeToInteger_def sv_def)
  have py: "(c0 + c2 + c4 + c6) mod 2 = s1" "(c1 + c2 + c5 + c6) mod 2 = s2" "(c3 + c4 + c5 + c6) mod 2 = s3"
    using bits by (simp_all add: mod2_xor4 s1_def s2_def s3_def)
  have mp: "compute_hamming_syndrome c = sv"
    by (simp add: compute_hamming_syndrome_def measure_parity_def cw s1_def s2_def s3_def sv_def)
  have det: "(Some (sv - 1) \<noteq> Some (-1)) = (sv \<noteq> 0)" by simp
  let ?cc = "if sv \<noteq> 0 then c[nat (sv - 1) := c ! nat (sv - 1) XOR 1] else c"
  have dec: "decode c = Inr \<lparr>dataBits = [?cc ! 2, ?cc ! 4, ?cc ! 5, ?cc ! 6], correctedCodeword = ?cc,
                 errorDetected = (sv \<noteq> 0), errorPosition = Some (sv - 1), syndrome = [s1, s2, s3],
                 syndromeValue = sv\<rparr>"
    using assms by (simp add: decode_def Let_def syn svs table_pred [OF range] correct_at_def)
  have "hamming_decode c = Inr ([?cc ! 2, ?cc ! 4, ?cc ! 5, ?cc ! 6], ?cc)"
    using py by (simp add: hamming_decode_def Let_def cw sv_def)
  moreover have "apply_hamming_correction c sv = ?cc"
    by (simp add: apply_hamming_correction_def apply_pauli_x_def)
  ultimately show ?thesis using dec mp by simp
qed

subsection \<open>The Python solver\<close>

lemma pfp_first:
  assumes "validateDataBits d" "encode d = Inr c"
  shows "pfp_loop (Suc n) d cc = Inr (d, c, True)"
proof -
  have he: "hamming_encode d = Inr c" using py_encode_engine [OF assms(1)] assms(2) by auto
  have v: "validateCodeword c" and s: "calculateSyndrome c = [0, 0, 0]"
    and data: "[c ! 2, c ! 4, c ! 5, c ! 6] = d"
    using encode_valid [OF assms] by simp_all
  obtain r where r: "decode c = Inr r" and hd: "hamming_decode c = Inr (dataBits r, correctedCodeword r)"
    using py_decode_engine [OF v] by blast
  have "dataBits r = d" "correctedCodeword r = c"
    using decode_clean [OF v s] r data by auto
  with he hd show ?thesis by simp
qed

lemma fixed_point_solver_valid:
  assumes "validateDataBits d" "encode d = Inr c"
  shows "fixed_point_solver d m t = (if m \<le> 0 then Inl UnboundLocalError else Inr (d, c, True))"
proof (cases "m \<le> 0")
  case False
  then obtain k where "nat m = Suc k" by (metis gr0_implies_Suc not_le zero_less_nat_eq)
  then show ?thesis using False pfp_first [OF assms] by (simp add: fixed_point_solver_def)
qed (simp add: fixed_point_solver_def)

lemma random_data_valid: "bits_of_length k (fst (random_data k g))"
  by (induction k g rule: random_data.induct)
     (auto simp: randint2_def next_random_def is_bit_def split: prod.splits)

lemma run_trials_all: "\<exists>g'. run_trials k s g = Inr (s + k, g')"
proof (induction k arbitrary: s g)
  case (Suc k)
  obtain data g1 where rd: "random_data 4 g = (data, g1)" by fastforce
  have v: "validateDataBits data"
    using random_data_valid [of 4 g] rd by (simp add: validateDataBits_def)
  obtain c where "encode data = Inr c" using py_encode_engine [OF v] by blast
  then have "fixed_point_solver data 100 (1 / 1000000) = Inr (data, c, True)"
    using fixed_point_solver_valid [OF v] by simp
  then show ?case using Suc.IH [of "Suc s" g1] rd by simp
qed simp

section \<open>Properties\<close>

text \<open>
  C36. The white paper's Python reference code computes what the JavaScript
  engine computes: on well-formed inputs \<open>hamming_encode\<close> returns the
  engine's codeword, \<open>hamming_decode\<close> its data bits and corrected codeword,
  and the section 6.3 fragments its syndrome value and correction.
\<close>

theorem pysim_engine_equivalence:
  "(validateDataBits d \<longrightarrow> (\<exists>c. encode d = Inr c \<and> hamming_encode d = Inr c)) \<and>
   (validateCodeword w \<longrightarrow>
      (\<exists>r. decode w = Inr r \<and> hamming_decode w = Inr (dataBits r, correctedCodeword r) \<and>
           compute_hamming_syndrome w = syndromeValue r \<and>
           apply_hamming_correction w (syndromeValue r) = correctedCodeword r))"
  using py_encode_engine py_decode_engine by blast

theorem pysim_engine_equivalence_witness:
  "(\<exists>c. encode [1, 0, 1, 1] = Inr c \<and> hamming_encode [1, 0, 1, 1] = Inr c) \<and>
   (\<exists>r. decode [0, 1, 1, 0, 0, 1, 0] = Inr r \<and>
        hamming_decode [0, 1, 1, 0, 0, 1, 0] = Inr (dataBits r, correctedCodeword r) \<and>
        compute_hamming_syndrome [0, 1, 1, 0, 0, 1, 0] = syndromeValue r \<and>
        apply_hamming_correction [0, 1, 1, 0, 0, 1, 0] (syndromeValue r) = correctedCodeword r)"
  using pysim_engine_equivalence [of "[1, 0, 1, 1]" "[0, 1, 1, 0, 0, 1, 0]"]
  by (simp add: validateDataBits_def validateCodeword_def bits_of_length_def is_bit_def)

text \<open>
  C37. Outcomes of the Python solver and of the analysis driver: on a
  well-formed data word \<open>fixed_point_solver\<close> converges in the first
  iteration when \<open>max_iterations \<ge> 1\<close> and raises \<open>UnboundLocalError\<close>
  (the unbound \<open>corrected_codeword\<close>) when \<open>max_iterations \<le> 0\<close>;
  \<open>run_convergence_analysis\<close> reports success rate 1 for any positive
  number of trials and raises \<open>ZeroDivisionError\<close> for 0 trials.
\<close>

theorem pysim_solver_outcomes:
  assumes "validateDataBits d" "0 < n"
  shows "(\<exists>c. encode d = Inr c \<and>
            fixed_point_solver d m t = (if m \<le> 0 then Inl UnboundLocalError else Inr (d, c, True))) \<and>
         run_convergence_analysis 0 g = Inl ZeroDivisionError \<and>
         (\<exists>g'. run_convergence_analysis n g =
                 Inr (\<lparr>success_rate = 1, avg_iterations = 0, iteration_distribution = [],
                       final_fidelities = []\<rparr>, g'))"
proof -
  obtain c where c: "encode d = Inr c" using py_encode_engine [OF assms(1)] by blast
  obtain g' where "run_trials (nat n) 0 g = Inr (nat n, g')" using run_trials_all [of "nat n" 0 g] by auto
  then have "run_convergence_analysis n g =
               Inr (\<lparr>success_rate = 1, avg_iterations = 0, iteration_distribution = [],
                     final_fidelities = []\<rparr>, g')"
    using assms(2) by (simp add: run_convergence_analysis_def)
  then show ?thesis
    using c fixed_point_solver_valid [OF assms(1) c] by (auto simp: run_convergence_analysis_def)
qed

theorem pysim_solver_outcomes_witness:
  "(\<exists>c. encode [1, 0, 1, 1] = Inr c \<and>
      fixed_point_solver [1, 0, 1, 1] 0 (1 / 1000000) = Inl UnboundLocalError) \<and>
   run_convergence_analysis 0 (const_rng 0) = Inl ZeroDivisionError \<and>
   (\<exists>g'. run_convergence_analysis 5 (const_rng 0) =
           Inr (\<lparr>success_rate = 1, avg_iterations = 0, iteration_distribution = [],
                 final_fidelities = []\<rparr>, g'))"
  using pysim_solver_outcomes [of "[1, 0, 1, 1]" 5 0 "1 / 1000000" "const_rng 0"]
  by (simp add: validateDataBits_def bits_of_length_def is_bit_def)

end
