(* ===== verification/Controller.thy ===== *)
theory Controller
  imports Solver
begin

text \<open>
  The application controller, class \<open>RetrocausalSimulatorApp\<close> of
  \<open>src/js/main.js\<close>. Its state is the record \<open>app\<close>: the object's
  \<open>currentState\<close> and \<open>analytics\<close>, the solver object it owns, the random
  source, and the parts of the page the handlers write (status line, input
  read-out, slider labels, error messages). The browser is a step function on
  page events: every listener the constructor registers is a function of the
  state, run to its end or to an uncaught exception, followed by the microtask
  checkpoint. The asynchronous \<open>runCompleteSimulation\<close> is split at its
  \<open>await\<close>s: each pending animation is a timer task in a queue (every
  \<open>sleep(150)\<close> has the same delay, so the timers fire in the order they were
  set), and the code after the animation is a queued continuation. A call of a
  method the class does not define is a \<open>TypeError\<close>, and a handler that
  may throw returns a completion: the state at its end or at the throw, and the
  exception.
\<close>

section \<open>Definitions\<close>

record sim_params =
  prm_errorRate :: real
  prm_maxIterations :: int
  prm_tolerance :: real

record simulation_state =
  isRunning :: bool
  isPaused :: bool
  sim_currentStep :: nat
  sim_results :: "solve_report option"

record tutorial_state =
  tut_isActive :: bool
  tut_currentStep :: nat
  totalSteps :: nat

record current_state =
  inputBits :: "int list"
  sim_parameters :: sim_params
  simulation :: simulation_state
  tutorial :: tutorial_state

record analytics_state =
  userInteractions :: nat
  simulationsRun :: nat
  conceptsExplored :: "string set"
  timeSpent :: int
  startTime :: int

text \<open>
  A run of \<open>runCompleteSimulation\<close> suspended in \<open>sleep(150)\<close> of
  \<open>animateConvergenceProcess\<close> after drawing history entry \<open>i\<close>.
\<close>

datatype run_task = Animating solve_report nat

record app =
  currentState :: current_state
  analytics :: analytics_state
  app_solver :: solver
  app_rng :: rng
  statusText :: string
  errorMessages :: "string list"
  uncaught :: "js_exception list"
  inputInfo :: string
  errorRateLabel :: string
  maxIterationsLabel :: string
  timers :: "run_task list"
  microtasks :: "solve_report list"

text \<open>The outcome of a call that may throw: the state reached, and the exception.\<close>

type_synonym completion = "app \<times> js_exception option"

definition normal :: "app \<Rightarrow> completion" where
  "normal a = (a, None)"

definition bind_c :: "completion \<Rightarrow> (app \<Rightarrow> completion) \<Rightarrow> completion" where
  "bind_c c f = (case c of (a, None) \<Rightarrow> f a | (a, Some e) \<Rightarrow> (a, Some e))"

definition try_catch :: "completion \<Rightarrow> (app \<Rightarrow> app) \<Rightarrow> app" where
  "try_catch c handler = (case c of (a, None) \<Rightarrow> a | (a, Some e) \<Rightarrow> handler a)"

text \<open>\<open>this.m(...)\<close> for a method \<open>m\<close> that the class does not define.\<close>

definition undefined_method :: "app \<Rightarrow> completion" where
  "undefined_method a = (a, Some TypeError)"

text \<open>The constructor's state; \<open>now\<close> is \<open>Date.now()\<close>.\<close>

definition initialParameters :: sim_params where
  "initialParameters = \<lparr>prm_errorRate = 0.05, prm_maxIterations = 100, prm_tolerance = 1 / 1000000\<rparr>"

definition idleSimulation :: simulation_state where
  "idleSimulation = \<lparr>isRunning = False, isPaused = False, sim_currentStep = 0, sim_results = None\<rparr>"

definition newApp :: "int \<Rightarrow> rng \<Rightarrow> app" where
  "newApp now g =
     \<lparr>currentState = \<lparr>inputBits = [0, 0, 0, 0], sim_parameters = initialParameters,
        simulation = idleSimulation,
        tutorial = \<lparr>tut_isActive = False, tut_currentStep = 0, totalSteps = 8\<rparr>\<rparr>,
      analytics = \<lparr>userInteractions = 0, simulationsRun = 0, conceptsExplored = {},
        timeSpent = 0, startTime = now\<rparr>,
      app_solver = new_solver, app_rng = g, statusText = '''', errorMessages = [], uncaught = [],
      inputInfo = '''', errorRateLabel = '''', maxIterationsLabel = '''', timers = [], microtasks = []\<rparr>"

text \<open>
  The parameter object \<open>{errorRate, maxIterations, tolerance}\<close> as the solver
  reads it: \<open>tolerance\<close> is not a key of the solver, which reads
  \<open>convergenceTolerance\<close>.
\<close>

definition solver_params_of_ui :: "sim_params \<Rightarrow> solver_params" where
  "solver_params_of_ui p =
     no_params\<lparr>p_maxIterations := Some (real_of_int (prm_maxIterations p)),
               p_errorRate := Some (prm_errorRate p)\<rparr>"

definition trackInteraction :: "string \<Rightarrow> app \<Rightarrow> app" where
  "trackInteraction type =
     analytics_update (\<lambda>an. an\<lparr>userInteractions := Suc (userInteractions an),
                               conceptsExplored := insert type (conceptsExplored an)\<rparr>)"

definition updateSimulationStatus :: "string \<Rightarrow> app \<Rightarrow> app" where
  "updateSimulationStatus status a = a\<lparr>statusText := status\<rparr>"

definition showErrorMessage :: "string \<Rightarrow> app \<Rightarrow> app" where
  "showErrorMessage message a = a\<lparr>errorMessages := errorMessages a @ [message]\<rparr>"

definition update_sim :: "(simulation_state \<Rightarrow> simulation_state) \<Rightarrow> app \<Rightarrow> app" where
  "update_sim f = currentState_update (simulation_update f)"

definition updateInputDisplay :: "app \<Rightarrow> app" where
  "updateInputDisplay a =
     (let binaryString = concat (map int_to_string (inputBits (currentState a)));
          decimalValue = parseInt2 binaryString
      in a\<lparr>inputInfo := ''Binary: '' @ binaryString @ '', Decimal: '' @ number_string decimalValue\<rparr>)"

text \<open>
  \<open>demonstrateErrorCorrection\<close>: noise at the current error rate, then
  \<open>decode\<close>; a detected error calls the undefined
  \<open>highlightErrorCorrection\<close>.
\<close>

definition demonstrateErrorCorrection :: "int list \<Rightarrow> app \<Rightarrow> completion" where
  "demonstrateErrorCorrection encodedBits a =
     (case injectErrors encodedBits (prm_errorRate (sim_parameters (currentState a))) (app_rng a) of
        (noisyBits, g) \<Rightarrow>
          (let a1 = a\<lparr>app_rng := g\<rparr> in
           case decode noisyBits of
             Inl _ \<Rightarrow> (a1, Some Error)
           | Inr decodingResult \<Rightarrow>
               (if errorDetected decodingResult then undefined_method a1 else normal a1)))"

definition updateSimulation :: "app \<Rightarrow> app" where
  "updateSimulation a =
     try_catch
       (case encode (inputBits (currentState a)) of
          Inl _ \<Rightarrow> (a, Some Error)
        | Inr encodedBits \<Rightarrow> demonstrateErrorCorrection encodedBits (updateInputDisplay a))
       (showErrorMessage ''Error in simulation update. Please check input values.'')"

text \<open>The \<open>finally\<close> of \<open>runCompleteSimulation\<close>, and its \<open>catch\<close> before it.\<close>

definition runFinally :: "app \<Rightarrow> app" where
  "runFinally a = updateSimulationStatus ''Ready'' (update_sim (isRunning_update (\<lambda>_. False)) a)"

definition runFailed :: "app \<Rightarrow> app" where
  "runFailed a = runFinally (showErrorMessage ''Simulation failed. Please check parameters and try again.'' a)"

text \<open>
  The part of \<open>runCompleteSimulation\<close> after \<open>await
  this.animateConvergenceProcess(result)\<close>; \<open>updateVisualizationsWithResults\<close>
  only draws.
\<close>

definition finishRun :: "solve_report \<Rightarrow> app \<Rightarrow> app" where
  "finishRun result a =
     (case undefined_method a of
        (a1, Some _) \<Rightarrow> runFailed a1
      | (a1, None) \<Rightarrow>
          runFinally (analytics_update (simulationsRun_update Suc) a1))"

text \<open>
  \<open>runCompleteSimulation\<close> up to its first \<open>await\<close>: the guard, the solver
  call, and the first frame of the animation, which draws entry 0 and sleeps;
  with no history the animation returns at once and the rest of the run is a
  queued continuation.
\<close>

definition runCompleteSimulation :: "app \<Rightarrow> app" where
  "runCompleteSimulation a =
     (if isRunning (simulation (currentState a)) then a
      else
        (let a1 = updateSimulationStatus ''Running simulation...'' (update_sim (isRunning_update (\<lambda>_. True)) a);
             cs = currentState a1
         in case solveFixedPoint (inputBits cs) (solver_params_of_ui (sim_parameters cs)) (app_solver a1) (app_rng a1) of
              Inl _ \<Rightarrow> runFailed a1
            | Inr (result, st, g) \<Rightarrow>
                (let a2 = update_sim (sim_results_update (\<lambda>_. Some result)) (a1\<lparr>app_solver := st, app_rng := g\<rparr>)
                 in if report_history result = [] then a2\<lparr>microtasks := microtasks a2 @ [result]\<rparr>
                    else a2\<lparr>timers := timers a2 @ [Animating result 0]\<rparr>)))"

text \<open>
  The timer of the earliest pending \<open>sleep(150)\<close> fires: the animation stops
  when \<open>isRunning\<close> has been cleared, draws the next entry and sleeps again,
  or leaves the loop after the last entry.
\<close>

definition resumeAnimation :: "app \<Rightarrow> app" where
  "resumeAnimation a =
     (case timers a of
        [] \<Rightarrow> a
      | Animating result i # rest \<Rightarrow>
          (let a1 = a\<lparr>timers := rest\<rparr> in
           if \<not> isRunning (simulation (currentState a1)) then a1\<lparr>microtasks := microtasks a1 @ [result]\<rparr>
           else if Suc i < length (report_history result) then a1\<lparr>timers := rest @ [Animating result (Suc i)]\<rparr>
           else a1\<lparr>microtasks := microtasks a1 @ [result]\<rparr>))"

text \<open>The microtask checkpoint after a listener or timer callback returns.\<close>

definition runMicrotasks :: "app \<Rightarrow> app" where
  "runMicrotasks a = fold finishRun (microtasks a) (a\<lparr>microtasks := []\<rparr>)"

text \<open>
  \<open>runBenchmarkAnalysis\<close> has no \<open>await\<close> and runs to its end at once; the
  three methods it calls after the analysis are undefined.
\<close>

definition runBenchmarkAnalysis :: "app \<Rightarrow> app" where
  "runBenchmarkAnalysis a =
     (let a1 = updateSimulationStatus ''Running statistical analysis...'' a;
          cs = currentState a1
      in updateSimulationStatus ''Ready''
           (try_catch
              (case runStatisticalAnalysis 50 (solver_params_of_ui (sim_parameters cs)) (app_solver a1) (app_rng a1) of
                 Inl _ \<Rightarrow> (a1, Some Error)
               | Inr (analysisResult, st, g) \<Rightarrow>
                   bind_c (bind_c (undefined_method (a1\<lparr>app_solver := st, app_rng := g\<rparr>)) undefined_method)
                     undefined_method)
              (showErrorMessage ''Analysis failed. Please try again.'')))"

text \<open>
  \<open>stepSimulation\<close>: both branches call a method the class does not define,
  so the interaction is never tracked.
\<close>

definition stepSimulation :: "app \<Rightarrow> completion" where
  "stepSimulation a =
     bind_c (if sim_results (simulation (currentState a)) = None then undefined_method a else undefined_method a)
       (\<lambda>a1. normal (trackInteraction ''step_simulation'' a1))"

definition resetSimulation :: "app \<Rightarrow> app" where
  "resetSimulation a =
     (let a1 = currentState_update (\<lambda>cs. cs\<lparr>inputBits := [0, 0, 0, 0], simulation := idleSimulation\<rparr>) a;
          a2 = updateSimulation a1
      in trackInteraction ''reset_simulation'' (updateSimulationStatus ''Ready'' a2))"

definition startTutorial :: "app \<Rightarrow> app" where
  "startTutorial =
     currentState_update (tutorial_update (\<lambda>t. t\<lparr>tut_isActive := True, tut_currentStep := 0\<rparr>))"

definition handleResourceButtonClick :: "string \<Rightarrow> app \<Rightarrow> completion" where
  "handleResourceButtonClick buttonText a =
     (if buttonText = ''Start Tutorial'' then normal (startTutorial a)
      else if buttonText = ''Explore Math'' then undefined_method a
      else if buttonText = ''Read Paper'' then undefined_method a
      else normal a)"

text \<open>The listeners of \<open>setupEventHandlers\<close>, one per input.\<close>

definition onBitToggle :: "nat \<Rightarrow> bool \<Rightarrow> app \<Rightarrow> app" where
  "onBitToggle index checked a =
     (let a1 = currentState_update (\<lambda>cs. cs\<lparr>inputBits := (inputBits cs)[index := (if checked then 1 else 0)]\<rparr>) a
      in trackInteraction ''bit_toggle'' (updateSimulation a1))"

definition onErrorRateInput :: "real \<Rightarrow> app \<Rightarrow> app" where
  "onErrorRateInput val a =
     (let a1 = currentState_update (sim_parameters_update (prm_errorRate_update (\<lambda>_. val))) a;
          a2 = a1\<lparr>errorRateLabel := int_to_string (js_round (val * 100)) @ ''%''\<rparr>
      in trackInteraction ''parameter_change'' (updateSimulation a2))"

definition onMaxIterationsInput :: "int \<Rightarrow> app \<Rightarrow> app" where
  "onMaxIterationsInput val a =
     (let a1 = currentState_update (sim_parameters_update (prm_maxIterations_update (\<lambda>_. val))) a
      in trackInteraction ''parameter_change'' (a1\<lparr>maxIterationsLabel := int_to_string val\<rparr>))"

definition onToleranceChange :: "real \<Rightarrow> app \<Rightarrow> app" where
  "onToleranceChange val a =
     (let a1 = currentState_update (sim_parameters_update (prm_tolerance_update (\<lambda>_. val))) a
      in trackInteraction ''parameter_change'' (updateSimulation a1))"

text \<open>
  The document click listener of \<open>setupSimulationControls\<close>: four independent
  tests of the target's classes, in order; an exception ends the listener.
\<close>

definition simulationControls :: "string list \<Rightarrow> app \<Rightarrow> completion" where
  "simulationControls classes a =
     (let a1 = (if ''simulate-button'' \<in> set classes
                then trackInteraction ''simulation_run'' (runCompleteSimulation a) else a);
          a2 = (if ''reset-button'' \<in> set classes
                then trackInteraction ''simulation_reset'' (resetSimulation a1) else a1)
      in bind_c
           (if ''step-button'' \<in> set classes
            then bind_c (stepSimulation a2) (\<lambda>a3. normal (trackInteraction ''simulation_step'' a3))
            else normal a2)
           (\<lambda>a3. normal (if ''analysis-button'' \<in> set classes
                         then trackInteraction ''benchmark_run'' (runBenchmarkAnalysis a3) else a3)))"

text \<open>The two click listeners of \<open>setupNavigationControls\<close>.\<close>

definition navigationLink :: "(string \<times> bool) option \<Rightarrow> app \<Rightarrow> app" where
  "navigationLink link a =
     (case link of
        None \<Rightarrow> a
      | Some (targetId, targetExists) \<Rightarrow> (if targetExists then trackInteraction ''navigation'' a else a))"

definition resourceControls :: "string list \<Rightarrow> string \<Rightarrow> app \<Rightarrow> completion" where
  "resourceControls classes buttonText a =
     (if ''resource-button'' \<in> set classes
      then bind_c (handleResourceButtonClick buttonText a)
             (\<lambda>a1. normal (trackInteraction ''resource_access'' a1))
      else normal a)"

text \<open>\<open>String.prototype.toLowerCase\<close> on the ASCII letters.\<close>

definition js_toLowerCase :: "string \<Rightarrow> string" where
  "js_toLowerCase =
     map (\<lambda>c. if (65::nat) \<le> of_char c \<and> of_char c \<le> (90::nat) then char_of (of_char c + (32::nat)) else c)"

definition keyboardShortcuts :: "string \<Rightarrow> string \<Rightarrow> bool \<Rightarrow> bool \<Rightarrow> app \<Rightarrow> completion" where
  "keyboardShortcuts tagName key ctrlKey metaKey a =
     (if tagName = ''INPUT'' \<or> tagName = ''TEXTAREA'' then normal a
      else
        (let k = js_toLowerCase key in
         if k = ''r'' then normal (if ctrlKey \<or> metaKey then runCompleteSimulation a else a)
         else if k = ''space'' then stepSimulation a
         else if k = ''escape'' then normal (resetSimulation a)
         else normal a))"

text \<open>The \<open>setInterval\<close> callback of \<open>startUpdateLoop\<close>; \<open>updateRealtimeDisplays\<close> is empty.\<close>

definition updateLoop :: "int \<Rightarrow> app \<Rightarrow> app" where
  "updateLoop now a =
     analytics_update (\<lambda>an. an\<lparr>timeSpent := now - startTime an\<rparr>) a"

text \<open>The global functions the page's inline handlers call; \<open>app\<close> is set.\<close>

datatype global_call =
  GScrollToSimulator | GUpdateSimulation | GRunSimulation | GResetSimulation | GStepSimulation
| GRunBenchmark | GLoadTutorial | GShowMathematicalFramework | GViewWhitepaper

definition global_function :: "global_call \<Rightarrow> app \<Rightarrow> completion" where
  "global_function f a =
     (case f of
        GScrollToSimulator \<Rightarrow> normal a
      | GUpdateSimulation \<Rightarrow> normal (updateSimulation a)
      | GRunSimulation \<Rightarrow> normal (runCompleteSimulation a)
      | GResetSimulation \<Rightarrow> normal (resetSimulation a)
      | GStepSimulation \<Rightarrow> stepSimulation a
      | GRunBenchmark \<Rightarrow> normal (runBenchmarkAnalysis a)
      | GLoadTutorial \<Rightarrow> normal (startTutorial a)
      | GShowMathematicalFramework \<Rightarrow> normal a
      | GViewWhitepaper \<Rightarrow> normal a)"

text \<open>
  Page events. A click names the target's classes, its text, and, for an
  in-page link, the id it points to and whether that element exists; a key
  press names the target's tag, \<open>e.key\<close> and the two modifiers.
\<close>

datatype ui_event =
  BitToggle nat bool
| ErrorRateInput real
| MaxIterationsInput int
| ToleranceChange real
| Click "string list" string "(string \<times> bool) option"
| KeyDown string string bool bool
| Tick int
| TimerFires
| GlobalCall global_call

text \<open>The end of a callback: an uncaught exception is reported, then the microtask checkpoint.\<close>

definition end_callback :: "completion \<Rightarrow> app" where
  "end_callback c =
     runMicrotasks (case c of (a, None) \<Rightarrow> a | (a, Some e) \<Rightarrow> a\<lparr>uncaught := uncaught a @ [e]\<rparr>)"

definition app_step :: "app \<Rightarrow> ui_event \<Rightarrow> app" where
  "app_step a ev =
     (case ev of
        BitToggle index checked \<Rightarrow> end_callback (normal (onBitToggle index checked a))
      | ErrorRateInput val \<Rightarrow> end_callback (normal (onErrorRateInput val a))
      | MaxIterationsInput val \<Rightarrow> end_callback (normal (onMaxIterationsInput val a))
      | ToleranceChange val \<Rightarrow> end_callback (normal (onToleranceChange val a))
      | Click classes buttonText link \<Rightarrow>
          end_callback (resourceControls classes buttonText
            (end_callback (simulationControls classes
              (end_callback (normal (navigationLink link a))))))
      | KeyDown tagName key ctrlKey metaKey \<Rightarrow> end_callback (keyboardShortcuts tagName key ctrlKey metaKey a)
      | Tick now \<Rightarrow> end_callback (normal (updateLoop now a))
      | TimerFires \<Rightarrow> end_callback (normal (resumeAnimation a))
      | GlobalCall f \<Rightarrow> end_callback (global_function f a))"

text \<open>\<open>new RetrocausalSimulatorApp()\<close> and \<open>initialize()\<close>, whose other calls only touch the page.\<close>

definition initialApp :: "int \<Rightarrow> rng \<Rightarrow> app" where
  "initialApp now g = end_callback (normal (updateSimulation (newApp now g)))"

definition run_events :: "app \<Rightarrow> ui_event list \<Rightarrow> app" where
  "run_events a evs = fold (\<lambda>ev b. app_step b ev) evs a"

text \<open>The page has the four bit check boxes, numbered 0 to 3.\<close>

definition event_ok :: "ui_event \<Rightarrow> bool" where
  "event_ok ev = (case ev of BitToggle index _ \<Rightarrow> index < 4 | _ \<Rightarrow> True)"

definition resets :: "ui_event \<Rightarrow> bool" where
  "resets ev =
     (case ev of
        Click classes _ _ \<Rightarrow> ''reset-button'' \<in> set classes
      | KeyDown tagName key _ _ \<Rightarrow>
          \<not> (tagName = ''INPUT'' \<or> tagName = ''TEXTAREA'') \<and> js_toLowerCase key = ''escape''
      | GlobalCall f \<Rightarrow> f = GResetSimulation
      | _ \<Rightarrow> False)"

inductive app_reach :: "(ui_event \<Rightarrow> bool) \<Rightarrow> app \<Rightarrow> bool" for allowed where
  init: "app_reach allowed (initialApp now g)"
| step: "app_reach allowed a \<Longrightarrow> allowed ev \<Longrightarrow> app_reach allowed (app_step a ev)"

record app_status =
  as_state :: current_state
  as_analytics :: analytics_state
  as_hamming :: code_properties
  as_solver :: solver_status

definition getAppStatus :: "app \<Rightarrow> app_status" where
  "getAppStatus a =
     \<lparr>as_state = currentState a, as_analytics = analytics a, as_hamming = getCodeProperties,
      as_solver = getStatus (app_solver a)\<rparr>"

section \<open>Views and the abstract input register\<close>

text \<open>
  Views of the state that the proofs follow: the run machinery (pending
  animations, queued continuations, the flag), and the fields the invariant
  constrains.
\<close>

definition msg_run :: string where
  "msg_run = ''Simulation failed. Please check parameters and try again.''"

definition run_view :: "app \<Rightarrow> run_task list \<times> solve_report list \<times> bool" where
  "run_view a = (timers a, microtasks a, isRunning (simulation (currentState a)))"

definition run_starts :: "app \<Rightarrow> app \<Rightarrow> bool" where
  "run_starts a b \<longleftrightarrow> run_view b = run_view a \<or>
     (\<not> isRunning (simulation (currentState a)) \<and>
      (run_view b = (timers a, microtasks a, False) \<or>
       (\<exists>t. run_view b = (timers a @ [t], microtasks a, True)) \<or>
       (\<exists>rep. run_view b = (timers a, microtasks a @ [rep], True))))"

definition one_run :: "app \<Rightarrow> bool" where
  "one_run a \<longleftrightarrow>
     (case run_view a of (ts, ms, r) \<Rightarrow> ms = [] \<and> (ts = [] \<or> (\<exists>t. ts = [t] \<and> r)))"

definition inv_view :: "app \<Rightarrow> int list \<times> nat \<times> run_task list" where
  "inv_view a = (inputBits (currentState a), simulationsRun (analytics a), timers a)"

definition task_ok :: "run_task \<Rightarrow> bool" where
  "task_ok t = (case t of Animating result i \<Rightarrow> i < length (report_history result))"

definition ctrl_inv :: "app \<Rightarrow> bool" where
  "ctrl_inv a \<longleftrightarrow>
     (case inv_view a of (bs, n, ts) \<Rightarrow> validateDataBits bs \<and> n = 0 \<and> list_all task_ok ts)"

text \<open>
  The abstract specification of the input panel: a 4-bit register with its
  binary and decimal read-out.
\<close>

definition reg_value :: "int list \<Rightarrow> nat" where
  "reg_value bs = foldl (\<lambda>acc b. 2 * acc + nat b) 0 bs"

definition reg_set :: "nat \<Rightarrow> nat \<Rightarrow> bool \<Rightarrow> nat" where
  "reg_set n i v = (let w = 2 ^ (3 - i) in n - (n div w mod 2) * w + (if v then w else 0))"

definition reg_display :: "nat \<Rightarrow> string" where
  "reg_display n =
     ''Binary: '' @ map (\<lambda>k. if n div 2 ^ (3 - k) mod 2 = 1 then CHR ''1'' else CHR ''0'') [0..<4] @
     '', Decimal: '' @ int_to_string (int n)"

section \<open>Lemmas\<close>

lemmas ctl_simps = normal_def bind_c_def try_catch_def undefined_method_def trackInteraction_def
  updateSimulationStatus_def showErrorMessage_def update_sim_def startTutorial_def updateLoop_def
  runFinally_def runFailed_def

lemma finishRun_fails: "finishRun result a = runFailed a"
  by (simp add: finishRun_def undefined_method_def)

lemma runFailed_eq: "runFailed b = runFinally (b\<lparr>errorMessages := errorMessages b @ [msg_run]\<rparr>)"
  by (simp add: runFailed_def showErrorMessage_def msg_run_def)

lemma runFinally_fields [simp]:
  "errorMessages (runFinally b) = errorMessages b"
  "runFinally ((runFinally b)\<lparr>errorMessages := m\<rparr>) = runFinally (b\<lparr>errorMessages := m\<rparr>)"
  by (simp_all add: runFinally_def updateSimulationStatus_def update_sim_def)

lemma fold_finishRun:
  "fold finishRun rs b =
     (if rs = [] then b
      else runFinally (b\<lparr>errorMessages := errorMessages b @ replicate (length rs) msg_run\<rparr>))"
proof (induction rs arbitrary: b)
  case (Cons r rs)
  have "fold finishRun (r # rs) b = fold finishRun rs (runFailed b)"
    by (simp add: finishRun_fails)
  with Cons.IH [of "runFailed b"] show ?case
    by (cases rs) (simp_all add: runFailed_eq replicate_app_Cons_same)
qed simp

lemma runMicrotasks_eq:
  "runMicrotasks a =
     (if microtasks a = [] then a
      else runFinally (a\<lparr>microtasks := [], errorMessages := errorMessages a @ replicate (length (microtasks a)) msg_run\<rparr>))"
  by (simp add: runMicrotasks_def fold_finishRun)

lemma updateSimulation_frame [simp]:
  "currentState (updateSimulation a) = currentState a \<and> analytics (updateSimulation a) = analytics a \<and>
   app_solver (updateSimulation a) = app_solver a \<and> statusText (updateSimulation a) = statusText a \<and>
   uncaught (updateSimulation a) = uncaught a \<and> errorRateLabel (updateSimulation a) = errorRateLabel a \<and>
   maxIterationsLabel (updateSimulation a) = maxIterationsLabel a \<and> timers (updateSimulation a) = timers a \<and>
   microtasks (updateSimulation a) = microtasks a"
  by (simp add: updateSimulation_def demonstrateErrorCorrection_def updateInputDisplay_def Let_def ctl_simps
      split: sum.split prod.split if_split option.split)

lemma runBenchmarkAnalysis_frame [simp]:
  "currentState (runBenchmarkAnalysis a) = currentState a \<and> analytics (runBenchmarkAnalysis a) = analytics a \<and>
   uncaught (runBenchmarkAnalysis a) = uncaught a \<and> inputInfo (runBenchmarkAnalysis a) = inputInfo a \<and>
   errorRateLabel (runBenchmarkAnalysis a) = errorRateLabel a \<and>
   maxIterationsLabel (runBenchmarkAnalysis a) = maxIterationsLabel a \<and> timers (runBenchmarkAnalysis a) = timers a \<and>
   microtasks (runBenchmarkAnalysis a) = microtasks a"
  by (simp add: runBenchmarkAnalysis_def Let_def ctl_simps split: sum.split prod.split)

lemma run_view_frame [simp]:
  "run_view (trackInteraction s a) = run_view a"
  "run_view (updateSimulationStatus s a) = run_view a"
  "run_view (showErrorMessage s a) = run_view a"
  "run_view (updateSimulation a) = run_view a"
  "run_view (runBenchmarkAnalysis a) = run_view a"
  "run_view (startTutorial a) = run_view a"
  "run_view (updateLoop now a) = run_view a"
  "run_view (navigationLink l a) = run_view a"
  "run_view (onBitToggle i c a) = run_view a"
  "run_view (onErrorRateInput v a) = run_view a"
  "run_view (onMaxIterationsInput n a) = run_view a"
  "run_view (onToleranceChange v a) = run_view a"
  "run_view (a\<lparr>uncaught := u\<rparr>) = run_view a"
  by (simp_all add: run_view_def ctl_simps navigationLink_def onBitToggle_def onErrorRateInput_def
      onMaxIterationsInput_def onToleranceChange_def Let_def split: option.split prod.split)

lemma stepSimulation_throws [simp]: "stepSimulation a = (a, Some TypeError)"
  by (simp add: stepSimulation_def ctl_simps)

lemma handleResourceButtonClick_fst [simp]:
  "fst (handleResourceButtonClick t a) = (if t = ''Start Tutorial'' then startTutorial a else a)"
  by (simp add: handleResourceButtonClick_def ctl_simps)

lemma run_view_runFinally [simp]:
  "run_view (runFinally a) = (timers a, microtasks a, False)"
  by (simp add: run_view_def runFinally_def ctl_simps)

lemma run_view_runMicrotasks:
  "run_view (runMicrotasks a) =
     (if microtasks a = [] then run_view a else (timers a, [], False))"
  by (simp add: runMicrotasks_eq run_view_def runFinally_def ctl_simps)

lemma runCompleteSimulation_running [simp]:
  "isRunning (simulation (currentState a)) \<Longrightarrow> runCompleteSimulation a = a"
  by (simp add: runCompleteSimulation_def)

lemma history_nonempty:
  assumes "validateDataBits d" and "1 \<le> maxIterations (merge_params params)"
    and "solveFixedPoint d params st g = Inr (rep, st', g')"
  shows "report_history rep \<noteq> []"
  using solveFixedPoint_run [OF assms(1) refl, of params st g] assms(2,3)
  by (auto simp: loop_converged_def)

lemma merge_ui_params:
  "merge_params (solver_params_of_ui p) =
     defaultParams\<lparr>maxIterations := real_of_int (prm_maxIterations p), errorRate := prm_errorRate p\<rparr>"
  by (simp add: merge_params_def solver_params_of_ui_def no_params_def defaultParams_def)

lemma runCompleteSimulation_start:
  assumes "validateDataBits (inputBits (currentState a))" and "\<not> isRunning (simulation (currentState a))"
  obtains rep st g where
    "solveFixedPoint (inputBits (currentState a)) (solver_params_of_ui (sim_parameters (currentState a)))
       (app_solver a) (app_rng a) = Inr (rep, st, g)"
    "runCompleteSimulation a =
       (let a2 = update_sim (\<lambda>s. s\<lparr>isRunning := True, sim_results := Some rep\<rparr>)
                   (a\<lparr>statusText := ''Running simulation...'', app_solver := st, app_rng := g\<rparr>)
        in if report_history rep = [] then a2\<lparr>microtasks := microtasks a @ [rep]\<rparr>
           else a2\<lparr>timers := timers a @ [Animating rep 0]\<rparr>)"
    "parameters rep = merge_params (solver_params_of_ui (sim_parameters (currentState a)))"
    "length (report_history rep) \<le> nat (prm_maxIterations (sim_parameters (currentState a)))"
    "totalRuns (statistics st) = Suc (totalRuns (statistics (app_solver a)))"
    "1 \<le> prm_maxIterations (sim_parameters (currentState a)) \<Longrightarrow> report_history rep \<noteq> []"
proof -
  obtain rep st g where sol: "solveFixedPoint (inputBits (currentState a))
       (solver_params_of_ui (sim_parameters (currentState a))) (app_solver a) (app_rng a) = Inr (rep, st, g)"
    and facts: "parameters rep = merge_params (solver_params_of_ui (sim_parameters (currentState a)))"
      "length (report_history rep) \<le> nat (prm_maxIterations (sim_parameters (currentState a)))"
      "totalRuns (statistics st) = Suc (totalRuns (statistics (app_solver a)))"
    using solveFixedPoint_run [OF assms(1) refl] by (fastforce simp: merge_ui_params)
  have ne: "1 \<le> prm_maxIterations (sim_parameters (currentState a)) \<Longrightarrow> report_history rep \<noteq> []"
    using history_nonempty [OF assms(1) _ sol] by (simp add: merge_ui_params)
  show ?thesis
    by (rule that [OF sol _ facts ne]) (simp add: runCompleteSimulation_def assms(2) sol Let_def ctl_simps)
qed

lemma runMicrotasks_idle [simp]: "microtasks a = [] \<Longrightarrow> runMicrotasks a = a"
  by (simp add: runMicrotasks_def)

lemma run_view_end_callback:
  "run_view (end_callback c) = run_view (runMicrotasks (fst c))"
proof -
  have "run_view (runMicrotasks (a\<lparr>uncaught := u\<rparr>)) = run_view (runMicrotasks a)" for a u
    by (simp only: run_view_runMicrotasks) (simp add: run_view_def)
  then show ?thesis
    by (simp add: end_callback_def split: prod.split option.split)
qed

lemma run_starts_refl: "run_starts a a"
  by (simp add: run_starts_def)

lemma run_starts_frame: "run_starts a b \<Longrightarrow> run_view c = run_view b \<Longrightarrow> run_starts a c"
  by (simp add: run_starts_def)

lemma run_starts_run: "run_starts a (runCompleteSimulation a)"
proof (cases "isRunning (simulation (currentState a))")
  case False
  then show ?thesis
    by (auto simp: run_starts_def runCompleteSimulation_def Let_def run_view_def ctl_simps
        split: sum.split prod.split)
qed (simp add: run_starts_refl)

lemma run_starts_simulationControls:
  "''reset-button'' \<notin> set classes \<Longrightarrow> run_starts a (fst (simulationControls classes a))"
proof -
  let ?a1 = "if ''simulate-button'' \<in> set classes
             then trackInteraction ''simulation_run'' (runCompleteSimulation a) else a"
  have "run_starts a ?a1"
    by (simp add: run_starts_refl run_starts_frame [OF run_starts_run])
  then show "''reset-button'' \<notin> set classes \<Longrightarrow> run_starts a (fst (simulationControls classes a))"
    by (auto simp: simulationControls_def Let_def bind_c_def normal_def intro: run_starts_frame)
qed

lemma run_starts_keyboard:
  "\<not> resets (KeyDown tagName key ctrlKey metaKey) \<Longrightarrow>
   run_starts a (fst (keyboardShortcuts tagName key ctrlKey metaKey a))"
  by (auto simp: keyboardShortcuts_def resets_def Let_def normal_def run_starts_refl run_starts_run)

lemma run_starts_global:
  "\<not> resets (GlobalCall f) \<Longrightarrow> run_starts a (fst (global_function f a))"
  by (cases f) (simp_all add: global_function_def resets_def normal_def run_starts_refl run_starts_run
      run_starts_frame [OF run_starts_refl])

lemma bind_c_fst [simp]: "fst (bind_c c f) = (if snd c = None then fst (f (fst c)) else fst c)"
  by (simp add: bind_c_def split: prod.split option.split)

lemma run_view_resourceControls [simp]:
  "run_view (fst (resourceControls classes t a)) = run_view a"
  by (simp add: resourceControls_def normal_def)

lemma one_run_started:
  assumes "one_run a" and "run_starts a b"
  shows "one_run (runMicrotasks b)"
  using assms unfolding one_run_def run_starts_def run_view_runMicrotasks
  by (auto simp: run_view_def)

lemma one_run_micro: "one_run a \<Longrightarrow> microtasks a = []"
  by (simp add: one_run_def run_view_def)

lemma run_view_eqD: "run_view b = run_view a \<Longrightarrow> microtasks b = microtasks a"
  by (simp add: run_view_def)

lemma one_run_resume: "one_run a \<Longrightarrow> one_run (runMicrotasks (resumeAnimation a))"
  unfolding one_run_def run_view_runMicrotasks
  by (auto simp: resumeAnimation_def Let_def run_view_def split: list.split run_task.split)

lemma one_run_end_frame:
  assumes "one_run c" and "run_view (fst x) = run_view c"
  shows "one_run (end_callback x)"
proof -
  have "microtasks (fst x) = []"
    using one_run_micro [OF assms(1)] run_view_eqD [OF assms(2)] by simp
  then show ?thesis
    using assms by (simp add: one_run_def run_view_end_callback)
qed

lemma one_run_step:
  assumes "one_run a" and "\<not> resets ev"
  shows "one_run (app_step a ev)"
proof -
  have frame: "one_run (end_callback (normal b))" if "run_view b = run_view a" for b
    using assms(1) that one_run_micro [OF assms(1)] run_view_eqD [OF that]
    by (simp add: end_callback_def normal_def one_run_def)
  have start: "one_run (end_callback c)" if "run_starts a (fst c)" for c
    using one_run_started [OF assms(1) that] by (simp add: one_run_def run_view_end_callback)
  show ?thesis
  proof (cases ev)
    case (Click classes t link)
    let ?b = "end_callback (normal (navigationLink link a))"
    have rb: "run_view ?b = run_view a"
      using one_run_micro [OF assms(1)] run_view_eqD [OF run_view_frame(8)]
      by (simp add: end_callback_def normal_def)
    then have b: "one_run ?b"
      using assms(1) by (simp add: one_run_def)
    then have "one_run (end_callback (simulationControls classes ?b))"
      using one_run_started [OF b run_starts_simulationControls] assms(2) Click
      by (simp add: resets_def one_run_def run_view_end_callback)
    then show ?thesis
      using Click by (simp add: app_step_def one_run_end_frame)
  next
    case TimerFires
    then show ?thesis
      using one_run_resume [OF assms(1)] by (simp add: app_step_def end_callback_def normal_def)
  qed (use assms(2) in \<open>simp_all add: app_step_def frame start run_starts_keyboard run_starts_global\<close>)
qed

lemma one_run_initial: "one_run (initialApp now g)"
  by (simp add: initialApp_def end_callback_def normal_def one_run_def run_view_def newApp_def
      idleSimulation_def)

text \<open>
  C17. As long as no event resets the simulation (reset button, Escape key or the
  global resetSimulation), at most one animation is pending and a pending
  animation comes with isRunning set: the guard of runCompleteSimulation works.
\<close>

theorem single_run_without_reset:
  assumes "app_reach (\<lambda>ev. event_ok ev \<and> \<not> resets ev) a"
  shows "length (timers a) \<le> 1 \<and> (timers a \<noteq> [] \<longrightarrow> isRunning (simulation (currentState a)))"
proof -
  have "one_run a"
    using assms by induction (simp_all add: one_run_initial one_run_step)
  then show ?thesis
    by (auto simp: one_run_def run_view_def)
qed

lemma inv_view_frame [simp]:
  "inv_view (trackInteraction s a) = inv_view a"
  "inv_view (updateSimulationStatus s a) = inv_view a"
  "inv_view (showErrorMessage s a) = inv_view a"
  "inv_view (updateSimulation a) = inv_view a"
  "inv_view (runBenchmarkAnalysis a) = inv_view a"
  "inv_view (startTutorial a) = inv_view a"
  "inv_view (updateLoop now a) = inv_view a"
  "inv_view (navigationLink l a) = inv_view a"
  "inv_view (onErrorRateInput v a) = inv_view a"
  "inv_view (onMaxIterationsInput n a) = inv_view a"
  "inv_view (onToleranceChange v a) = inv_view a"
  "inv_view (a\<lparr>uncaught := u\<rparr>) = inv_view a"
  "inv_view (runFinally a) = inv_view a"
  "inv_view (runMicrotasks a) = inv_view a"
  by (simp_all add: inv_view_def ctl_simps navigationLink_def onErrorRateInput_def runMicrotasks_eq
      onMaxIterationsInput_def onToleranceChange_def Let_def split: option.split prod.split)

lemma ctrl_inv_view: "inv_view b = inv_view a \<Longrightarrow> ctrl_inv b = ctrl_inv a"
  by (simp add: ctrl_inv_def)

lemma ctrl_inv_run: "ctrl_inv a \<Longrightarrow> ctrl_inv (runCompleteSimulation a)"
  by (auto simp: ctrl_inv_def inv_view_def runCompleteSimulation_def Let_def ctl_simps task_ok_def
      split: sum.split prod.split)

lemma ctrl_inv_resume: "ctrl_inv a \<Longrightarrow> ctrl_inv (resumeAnimation a)"
  by (auto simp: ctrl_inv_def inv_view_def resumeAnimation_def Let_def task_ok_def
      split: list.split run_task.split)

lemma ctrl_inv_reset: "ctrl_inv a \<Longrightarrow> ctrl_inv (resetSimulation a)"
proof -
  have "inv_view (resetSimulation a) =
        inv_view (currentState_update (\<lambda>cs. cs\<lparr>inputBits := [0, 0, 0, 0], simulation := idleSimulation\<rparr>) a)"
    by (simp add: resetSimulation_def Let_def)
  also have "\<dots> = ([0, 0, 0, 0], simulationsRun (analytics a), timers a)"
    by (simp add: inv_view_def)
  finally show "ctrl_inv a \<Longrightarrow> ctrl_inv (resetSimulation a)"
    by (simp add: ctrl_inv_def inv_view_def validateDataBits_def bits_of_length_def is_bit_def)
qed

lemma ctrl_inv_toggle: "ctrl_inv a \<Longrightarrow> ctrl_inv (onBitToggle i c a)"
proof -
  have "inv_view (onBitToggle i c a) =
        inv_view (currentState_update (\<lambda>cs. cs\<lparr>inputBits := (inputBits cs)[i := (if c then 1 else 0)]\<rparr>) a)"
    by (simp add: onBitToggle_def Let_def)
  also have "\<dots> = ((inputBits (currentState a))[i := (if c then 1 else 0)], simulationsRun (analytics a), timers a)"
    by (simp add: inv_view_def)
  finally show "ctrl_inv a \<Longrightarrow> ctrl_inv (onBitToggle i c a)"
    by (simp add: ctrl_inv_def inv_view_def validateDataBits_def bits_of_length_update is_bit_def)
qed

lemma ctrl_inv_frame [simp]:
  "ctrl_inv (trackInteraction s a) = ctrl_inv a"
  "ctrl_inv (updateSimulation a) = ctrl_inv a"
  "ctrl_inv (runBenchmarkAnalysis a) = ctrl_inv a"
  "ctrl_inv (startTutorial a) = ctrl_inv a"
  "ctrl_inv (updateLoop now a) = ctrl_inv a"
  "ctrl_inv (navigationLink l a) = ctrl_inv a"
  "ctrl_inv (onErrorRateInput v a) = ctrl_inv a"
  "ctrl_inv (onMaxIterationsInput n a) = ctrl_inv a"
  "ctrl_inv (onToleranceChange v a) = ctrl_inv a"
  "ctrl_inv (a\<lparr>uncaught := u\<rparr>) = ctrl_inv a"
  "ctrl_inv (runMicrotasks a) = ctrl_inv a"
  by (simp_all add: ctrl_inv_def)

lemma ctrl_inv_end_callback: "ctrl_inv (fst c) \<Longrightarrow> ctrl_inv (end_callback c)"
  by (cases c) (auto simp: end_callback_def split: option.split)

lemma microtasks_end_callback [simp]: "microtasks (end_callback c) = []"
  by (simp add: end_callback_def runMicrotasks_eq runFinally_def ctl_simps split: prod.split option.split)

lemma ctrl_inv_listeners:
  assumes "ctrl_inv a"
  shows "ctrl_inv (fst (simulationControls classes a))"
    and "ctrl_inv (fst (resourceControls classes t a))"
    and "ctrl_inv (fst (keyboardShortcuts tagName key ctrlKey metaKey a))"
    and "ctrl_inv (fst (global_function f a))"
  using assms
  by (simp_all add: simulationControls_def resourceControls_def keyboardShortcuts_def Let_def normal_def
      ctrl_inv_run ctrl_inv_reset global_function_def split: global_call.split)

lemma ctrl_inv_step: "ctrl_inv a \<Longrightarrow> event_ok ev \<Longrightarrow> ctrl_inv (app_step a ev)"
  by (cases ev) (simp_all add: app_step_def ctrl_inv_end_callback normal_def ctrl_inv_toggle
      ctrl_inv_resume ctrl_inv_listeners)

lemma ctrl_inv_initial: "ctrl_inv (initialApp now g)"
  unfolding initialApp_def
  by (rule ctrl_inv_end_callback)
    (simp add: normal_def ctrl_inv_def inv_view_def newApp_def validateDataBits_def bits_of_length_def
      is_bit_def)

lemma app_reach_ctrl_inv:
  assumes "app_reach allowed a" and "\<And>ev. allowed ev \<Longrightarrow> event_ok ev"
  shows "ctrl_inv a \<and> microtasks a = []"
  using assms(1)
proof induction
  case (init now g)
  then show ?case using ctrl_inv_initial [of now g] by (simp add: initialApp_def)
next
  case (step a ev)
  have "ctrl_inv (app_step a ev)"
    using step ctrl_inv_step assms(2) by blast
  moreover have "microtasks (app_step a ev) = []"
    by (simp add: app_step_def split: ui_event.split)
  ultimately show ?case by simp
qed

lemma run_events_simps [simp]:
  "run_events a [] = a"
  "run_events a (ev # evs) = run_events (app_step a ev) evs"
  by (simp_all add: run_events_def)

lemma microtasks_runMicrotasks [simp]: "microtasks (runMicrotasks a) = []"
  by (simp add: runMicrotasks_eq runFinally_def ctl_simps)

lemma timer_fires:
  "app_step b TimerFires = runMicrotasks (resumeAnimation b)"
  by (simp add: app_step_def end_callback_def normal_def)

lemma animation_fires:
  assumes "timers b = [Animating rep i]" and "isRunning (simulation (currentState b))"
    and "microtasks b = []" and "Suc (i + k) = length (report_history rep)"
  shows "run_events b (replicate (Suc k) TimerFires) =
           runFinally (b\<lparr>timers := [], microtasks := [], errorMessages := errorMessages b @ [msg_run]\<rparr>)"
  using assms
proof (induction k arbitrary: i b)
  case 0
  then show ?case
    by (simp add: timer_fires resumeAnimation_def runMicrotasks_eq)
next
  case (Suc k)
  let ?b = "b\<lparr>timers := [Animating rep (Suc i)]\<rparr>"
  have len: "Suc (Suc i + k) = length (report_history rep)"
    using Suc.prems(4) by arith
  have "app_step b TimerFires = ?b"
    using Suc.prems by (simp add: timer_fires resumeAnimation_def)
  moreover have "run_events ?b (replicate (Suc k) TimerFires) =
      runFinally (?b\<lparr>timers := [], microtasks := [], errorMessages := errorMessages ?b @ [msg_run]\<rparr>)"
    using Suc.prems len by (intro Suc.IH [where i = "Suc i"]) simp_all
  ultimately show ?case
    by simp
qed

lemma click_simulate:
  "microtasks a = [] \<Longrightarrow>
   app_step a (Click [''simulate-button''] t None) =
     runMicrotasks (trackInteraction ''simulation_run'' (runCompleteSimulation a))"
  by (simp add: app_step_def end_callback_def normal_def navigationLink_def simulationControls_def Let_def
      resourceControls_def bind_c_def)

lemma simulate_then_fire:
  assumes mt: "microtasks a = []" and idle: "timers a = []"
    and run: "runCompleteSimulation a =
       (let a2 = update_sim (\<lambda>s. s\<lparr>isRunning := True, sim_results := Some rep\<rparr>)
                   (a\<lparr>statusText := ''Running simulation...'', app_solver := st, app_rng := g\<rparr>)
        in if report_history rep = [] then a2\<lparr>microtasks := microtasks a @ [rep]\<rparr>
           else a2\<lparr>timers := timers a @ [Animating rep 0]\<rparr>)"
    and tot: "totalRuns (statistics st) = Suc (totalRuns (statistics (app_solver a)))"
  shows "let b = run_events a (Click [''simulate-button''] t None # replicate (length (report_history rep)) TimerFires)
    in sim_results (simulation (currentState b)) = Some rep \<and> timers b = [] \<and>
       \<not> isRunning (simulation (currentState b)) \<and> statusText b = ''Ready'' \<and>
       errorMessages b = errorMessages a @ [msg_run] \<and>
       simulationsRun (analytics b) = simulationsRun (analytics a) \<and>
       userInteractions (analytics b) = Suc (userInteractions (analytics a)) \<and>
       totalRuns (statistics (app_solver b)) = Suc (totalRuns (statistics (app_solver a)))"
proof -
  define b1 where "b1 = trackInteraction ''simulation_run'' (runCompleteSimulation a)"
  have click: "app_step a (Click [''simulate-button''] t None) = runMicrotasks b1"
    unfolding b1_def by (rule click_simulate [OF mt])
  show ?thesis
  proof (cases "report_history rep")
    case Nil
    then show ?thesis
      using run mt tot idle
      by (simp add: click b1_def runMicrotasks_eq runFinally_def ctl_simps Let_def)
  next
    case (Cons e es)
    have fires: "run_events b1 (replicate (Suc (length es)) TimerFires) =
        runFinally (b1\<lparr>timers := [], microtasks := [], errorMessages := errorMessages b1 @ [msg_run]\<rparr>)"
      using run mt idle Cons
      by (intro animation_fires [where rep = rep and i = 0]) (simp_all add: b1_def ctl_simps Let_def)
    have "runMicrotasks b1 = b1"
      using run mt Cons by (simp add: b1_def ctl_simps Let_def)
    then show ?thesis
      using run mt tot idle Cons fires
      by (simp add: click b1_def runFinally_def ctl_simps Let_def)
  qed
qed

text \<open>
  C15. From a reachable idle page with no pending animation, a click on the
  simulate button followed by one timer firing per history entry of the run
  (at most maxIterations of them) ends the run: the result is stored, the
  status is Ready, isRunning is cleared, and the run reports the failure
  message, because updatePerformanceMetrics is undefined; simulationsRun is
  unchanged. The solver ran with the page's iteration limit and error rate and
  the default tolerance 1e-6, whatever the tolerance control says.
\<close>

theorem runCompleteSimulation_completes:
  assumes "app_reach event_ok a" and "\<not> isRunning (simulation (currentState a))" and "timers a = []"
  shows "\<exists>rep. let p = sim_parameters (currentState a);
      b = run_events a (Click [''simulate-button''] t None # replicate (length (report_history rep)) TimerFires)
    in sim_results (simulation (currentState b)) = Some rep \<and>
       parameters rep = defaultParams\<lparr>maxIterations := real_of_int (prm_maxIterations p),
                                      errorRate := prm_errorRate p\<rparr> \<and>
       length (report_history rep) \<le> nat (prm_maxIterations p) \<and>
       timers b = [] \<and> \<not> isRunning (simulation (currentState b)) \<and> statusText b = ''Ready'' \<and>
       errorMessages b = errorMessages a @ [''Simulation failed. Please check parameters and try again.''] \<and>
       simulationsRun (analytics b) = simulationsRun (analytics a) \<and>
       userInteractions (analytics b) = Suc (userInteractions (analytics a)) \<and>
       totalRuns (statistics (app_solver b)) = Suc (totalRuns (statistics (app_solver a)))"
proof -
  have inv: "ctrl_inv a" and mt: "microtasks a = []"
    using app_reach_ctrl_inv [OF assms(1)] by simp_all
  then have valid: "validateDataBits (inputBits (currentState a))"
    by (simp add: ctrl_inv_def inv_view_def)
  obtain rep st g where
    run: "runCompleteSimulation a =
       (let a2 = update_sim (\<lambda>s. s\<lparr>isRunning := True, sim_results := Some rep\<rparr>)
                   (a\<lparr>statusText := ''Running simulation...'', app_solver := st, app_rng := g\<rparr>)
        in if report_history rep = [] then a2\<lparr>microtasks := microtasks a @ [rep]\<rparr>
           else a2\<lparr>timers := timers a @ [Animating rep 0]\<rparr>)"
    and par: "parameters rep = merge_params (solver_params_of_ui (sim_parameters (currentState a)))"
    and len: "length (report_history rep) \<le> nat (prm_maxIterations (sim_parameters (currentState a)))"
    and tot: "totalRuns (statistics st) = Suc (totalRuns (statistics (app_solver a)))"
    by (rule runCompleteSimulation_start [OF valid assms(2)])
  have "let b = run_events a (Click [''simulate-button''] t None # replicate (length (report_history rep)) TimerFires)
    in sim_results (simulation (currentState b)) = Some rep \<and> timers b = [] \<and>
       \<not> isRunning (simulation (currentState b)) \<and> statusText b = ''Ready'' \<and>
       errorMessages b = errorMessages a @ [msg_run] \<and>
       simulationsRun (analytics b) = simulationsRun (analytics a) \<and>
       userInteractions (analytics b) = Suc (userInteractions (analytics a)) \<and>
       totalRuns (statistics (app_solver b)) = Suc (totalRuns (statistics (app_solver a)))"
    by (rule simulate_then_fire [OF mt assms(3) run tot])
  then show ?thesis
    using par len by (intro exI [of _ rep]) (simp add: merge_ui_params msg_run_def Let_def)
qed

lemma run_start_timer:
  assumes "validateDataBits (inputBits (currentState a))" and "\<not> isRunning (simulation (currentState a))"
    and "1 \<le> prm_maxIterations (sim_parameters (currentState a))"
  shows "\<exists>t. timers (runCompleteSimulation a) = timers a @ [t] \<and>
     microtasks (runCompleteSimulation a) = microtasks a \<and>
     isRunning (simulation (currentState (runCompleteSimulation a))) \<and>
     sim_parameters (currentState (runCompleteSimulation a)) = sim_parameters (currentState a) \<and>
     inputBits (currentState (runCompleteSimulation a)) = inputBits (currentState a)"
proof -
  obtain rep st g where
    run: "runCompleteSimulation a =
       (let a2 = update_sim (\<lambda>s. s\<lparr>isRunning := True, sim_results := Some rep\<rparr>)
                   (a\<lparr>statusText := ''Running simulation...'', app_solver := st, app_rng := g\<rparr>)
        in if report_history rep = [] then a2\<lparr>microtasks := microtasks a @ [rep]\<rparr>
           else a2\<lparr>timers := timers a @ [Animating rep 0]\<rparr>)"
    and ne: "1 \<le> prm_maxIterations (sim_parameters (currentState a)) \<Longrightarrow> report_history rep \<noteq> []"
    by (rule runCompleteSimulation_start [OF assms(1,2)]) blast
  show ?thesis
    using run ne [OF assms(3)] by (simp add: update_sim_def Let_def)
qed

lemma reset_fields:
  "timers (resetSimulation a) = timers a \<and> microtasks (resetSimulation a) = microtasks a \<and>
   \<not> isRunning (simulation (currentState (resetSimulation a))) \<and>
   sim_parameters (currentState (resetSimulation a)) = sim_parameters (currentState a) \<and>
   inputBits (currentState (resetSimulation a)) = [0, 0, 0, 0]"
  by (simp add: resetSimulation_def Let_def idleSimulation_def ctl_simps)

lemma click_reset:
  "microtasks a = [] \<Longrightarrow>
   app_step a (Click [''reset-button''] t None) = trackInteraction ''simulation_reset'' (resetSimulation a)"
  using reset_fields [of a]
  by (simp add: app_step_def end_callback_def normal_def navigationLink_def simulationControls_def Let_def
      resourceControls_def bind_c_def ctl_simps)

lemma app_reach_run_events:
  "app_reach allowed a \<Longrightarrow> list_all allowed evs \<Longrightarrow> app_reach allowed (run_events a evs)"
  by (induction evs arbitrary: a) (simp_all add: app_reach.step)

lemma initial_fields:
  "timers (initialApp now g) = [] \<and> microtasks (initialApp now g) = [] \<and>
   \<not> isRunning (simulation (currentState (initialApp now g))) \<and>
   sim_parameters (currentState (initialApp now g)) = initialParameters \<and>
   inputBits (currentState (initialApp now g)) = [0, 0, 0, 0]"
  by (simp add: initialApp_def end_callback_def normal_def newApp_def idleSimulation_def)

text \<open>
  C16. The isRunning guard does not prevent two runs at once: simulate, reset,
  simulate from the initial page leaves two animations pending with
  isRunning set, because resetSimulation clears the flag without stopping the
  first animation, which resumes when the flag is set again.
\<close>

theorem reset_allows_concurrent_runs:
  "let a = run_events (initialApp now g)
             [Click [''simulate-button''] '''' None, Click [''reset-button''] '''' None,
              Click [''simulate-button''] '''' None]
   in app_reach event_ok a \<and> length (timers a) = 2 \<and> isRunning (simulation (currentState a))"
proof -
  let ?a0 = "initialApp now g"
  have v0: "validateDataBits [0, 0, 0, 0]"
    by (simp add: validateDataBits_def bits_of_length_def is_bit_def)
  have m: "1 \<le> prm_maxIterations initialParameters"
    by (simp add: initialParameters_def)
  obtain t1 where r1: "timers (runCompleteSimulation ?a0) = [t1]"
      "microtasks (runCompleteSimulation ?a0) = []"
      "sim_parameters (currentState (runCompleteSimulation ?a0)) = initialParameters"
    using run_start_timer [of ?a0] initial_fields [of now g] v0 m by auto
  define a1 where "a1 = app_step ?a0 (Click [''simulate-button''] '''' None)"
  have a1: "a1 = trackInteraction ''simulation_run'' (runCompleteSimulation ?a0)"
    using r1 initial_fields [of now g] by (simp add: a1_def click_simulate ctl_simps)
  define a2 where "a2 = app_step a1 (Click [''reset-button''] '''' None)"
  have a2: "a2 = trackInteraction ''simulation_reset'' (resetSimulation a1)"
    using r1 by (simp add: a2_def a1 click_reset ctl_simps)
  have f2: "timers a2 = [t1]" "microtasks a2 = []" "\<not> isRunning (simulation (currentState a2))"
      "sim_parameters (currentState a2) = initialParameters" "inputBits (currentState a2) = [0, 0, 0, 0]"
    using r1 reset_fields [of a1] by (simp_all add: a2 a1 ctl_simps)
  obtain t2 where r2: "timers (runCompleteSimulation a2) = [t1, t2]"
      "microtasks (runCompleteSimulation a2) = []"
      "isRunning (simulation (currentState (runCompleteSimulation a2)))"
    using run_start_timer [of a2] f2 v0 m by auto
  have a3: "app_step a2 (Click [''simulate-button''] '''' None) =
      trackInteraction ''simulation_run'' (runCompleteSimulation a2)"
    using r2 f2 by (simp add: click_simulate ctl_simps)
  have reach: "app_reach event_ok (run_events ?a0
      [Click [''simulate-button''] '''' None, Click [''reset-button''] '''' None,
       Click [''simulate-button''] '''' None])"
    by (intro app_reach_run_events app_reach.init) (simp add: event_ok_def)
  show ?thesis
    using reach r2 a3 by (simp add: a1_def [symmetric] a2_def [symmetric] ctl_simps)
qed

text \<open>
  C14. In every state the page reaches from the constructor by page events, the
  input bits are a well-formed 4-bit word, no continuation is left queued
  between callbacks, every pending animation points inside its run's history,
  and the counter simulationsRun is still 0: no run ever gets past the call of
  the undefined updatePerformanceMetrics.
\<close>

theorem app_reach_invariant:
  assumes "app_reach event_ok a"
  shows "validateDataBits (inputBits (currentState a)) \<and> microtasks a = [] \<and>
     simulationsRun (analytics a) = 0 \<and>
     (\<forall>t \<in> set (timers a). case t of Animating result i \<Rightarrow> i < length (report_history result))"
  using app_reach_ctrl_inv [OF assms]
  by (simp add: ctrl_inv_def inv_view_def task_ok_def list_all_iff)

lemma lower_case_keys:
  "js_toLowerCase '' '' = '' '' \<and> js_toLowerCase ''r'' = ''r'' \<and> js_toLowerCase ''R'' = ''r''"
  by code_simp

text \<open>
  The space bar does not step the simulation: its e.key is a blank, which the
  shortcut switch compares with 'space'; likewise r and R without Ctrl or Meta
  leave the page unchanged.
\<close>

theorem keys_without_shortcut:
  assumes "microtasks a = []"
  shows "app_step a (KeyDown tagName '' '' ctrlKey metaKey) = a \<and>
         app_step a (KeyDown tagName ''r'' False False) = a \<and>
         app_step a (KeyDown tagName ''R'' False False) = a"
  using assms
  by (simp add: app_step_def end_callback_def keyboardShortcuts_def lower_case_keys normal_def Let_def)

text \<open>
  The step button and the global stepSimulation always throw TypeError (both
  branches of stepSimulation call undefined methods) and change nothing else:
  the interaction is not even counted.
\<close>

theorem step_controls_throw:
  assumes "microtasks a = []"
  shows "app_step a (Click [''step-button''] t None) = a\<lparr>uncaught := uncaught a @ [TypeError]\<rparr> \<and>
         app_step a (GlobalCall GStepSimulation) = a\<lparr>uncaught := uncaught a @ [TypeError]\<rparr>"
  using assms
  by (simp add: app_step_def end_callback_def normal_def navigationLink_def simulationControls_def Let_def
      resourceControls_def bind_c_def global_function_def runMicrotasks_def)

text \<open>
  C19. For a well-formed input, updateSimulation encodes it, injects noise with the
  page's error rate (seven draws) and decodes; it shows the message 'Error in
  simulation update' exactly when the decoder detects an error, because the
  handler for a detected error calls the undefined highlightErrorCorrection.
\<close>

theorem updateSimulation_reports_detected_noise:
  assumes "validateDataBits (inputBits (currentState a))"
  shows "\<exists>c r. encode (inputBits (currentState a)) = Inr c \<and>
     decode (fst (injectErrors c (prm_errorRate (sim_parameters (currentState a))) (app_rng a))) = Inr r \<and>
     app_rng (updateSimulation a) =
       snd (injectErrors c (prm_errorRate (sim_parameters (currentState a))) (app_rng a)) \<and>
     errorMessages (updateSimulation a) =
       errorMessages a @ (if errorDetected r then [''Error in simulation update. Please check input values.'']
                          else []) \<and>
     inputInfo (updateSimulation a) = inputInfo (updateInputDisplay a)"
proof -
  obtain c where enc: "encode (inputBits (currentState a)) = Inr c"
    using assms by (metis encode_cases)
  have vc: "validateCodeword c"
    using encode_valid(1) [OF assms enc] .
  obtain noisy g where inj: "injectErrors c (prm_errorRate (sim_parameters (currentState a))) (app_rng a) = (noisy, g)"
    by fastforce
  have "validateCodeword noisy"
    using injectErrors_valid [OF vc, of "prm_errorRate (sim_parameters (currentState a))" "app_rng a"] inj
    by simp
  then obtain r where dec: "decode noisy = Inr r"
    using decode_data_valid by blast
  show ?thesis
    using enc inj dec
    by (intro exI [of _ c] exI [of _ r])
      (simp add: updateSimulation_def demonstrateErrorCorrection_def updateInputDisplay_def Let_def ctl_simps)
qed

text \<open>
  C20. A click on the analysis button runs the 50 statistical runs on the page's
  parameters, none of which converges (the tolerance the page passes is under
  the wrong key, so every run reports maxIterations + 1 iterations), and then
  always reports 'Analysis failed' because updateAnalysisMetrics is undefined.
\<close>

theorem benchmark_click_reports_failure:
  assumes "microtasks a = []"
  shows "\<exists>res st g. let p = sim_parameters (currentState a) in
     runStatisticalAnalysis 50 (solver_params_of_ui p) (app_solver a) (app_rng a) = Inr (res, st, g) \<and>
     sa_totalRuns res = 50 \<and> length (results res) = 50 \<and>
     list_all (\<lambda>r. \<not> converged r \<and> iterations r = nat (prm_maxIterations p) + 1) (results res) \<and>
     app_step a (Click [''analysis-button''] t None) =
       trackInteraction ''benchmark_run''
         (a\<lparr>app_solver := st, app_rng := g, statusText := ''Ready'',
            errorMessages := errorMessages a @ [''Analysis failed. Please try again.'']\<rparr>)"
proof -
  let ?p = "sim_parameters (currentState a)"
  obtain rs st g where runs: "stat_runs (solver_params_of_ui ?p) 50 (app_solver a) (app_rng a) = Inr (rs, st, g)"
    and len: "length rs = 50"
    and nc: "list_all (\<lambda>r. \<not> converged r \<and>
               iterations r = nat \<lceil>maxIterations (merge_params (solver_params_of_ui ?p))\<rceil> + 1) rs"
    using stat_runs_ok [of "solver_params_of_ui ?p" 50 "app_solver a" "app_rng a"]
    by (auto simp: solver_params_of_ui_def no_params_def)
  have "\<exists>res. runStatisticalAnalysis 50 (solver_params_of_ui ?p) (app_solver a) (app_rng a) =
      Inr (res, st, g) \<and> sa_totalRuns res = 50 \<and> results res = rs"
    using runs by (simp add: runStatisticalAnalysis_def Let_def)
  then obtain res where ana: "runStatisticalAnalysis 50 (solver_params_of_ui ?p) (app_solver a) (app_rng a) =
      Inr (res, st, g)" and res: "sa_totalRuns res = 50" "results res = rs"
    by blast
  have bench: "runBenchmarkAnalysis a =
      a\<lparr>app_solver := st, app_rng := g, statusText := ''Ready'',
        errorMessages := errorMessages a @ [''Analysis failed. Please try again.'']\<rparr>"
    using ana by (simp add: runBenchmarkAnalysis_def Let_def ctl_simps)
  have step: "app_step a (Click [''analysis-button''] t None) =
      trackInteraction ''benchmark_run'' (runBenchmarkAnalysis a)"
    using assms by (simp add: app_step_def end_callback_def normal_def navigationLink_def
        simulationControls_def Let_def resourceControls_def bind_c_def ctl_simps)
  show ?thesis
    using ana res len nc step bench
    by (intro exI [of _ res] exI [of _ st] exI [of _ g]) (simp add: merge_ui_params Let_def)
qed

lemma register_table:
  "list_all (\<lambda>bs. list_all (\<lambda>i. list_all (\<lambda>v.
      reg_value (bs[i := (if v then 1 else 0)]) = reg_set (reg_value bs) i v) [False, True]) [0..<4] \<and>
      ''Binary: '' @ concat (map int_to_string bs) @ '', Decimal: '' @
        number_string (parseInt2 (concat (map int_to_string bs))) = reg_display (reg_value bs) \<and>
      reg_value bs < 16)
    all_data_words"
  by code_simp

lemma updateSimulation_display:
  assumes "validateDataBits (inputBits (currentState a))"
  shows "inputInfo (updateSimulation a) = inputInfo (updateInputDisplay a)"
proof -
  obtain c where enc: "encode (inputBits (currentState a)) = Inr c"
    using assms by (metis encode_cases)
  show ?thesis
    using enc
    by (simp add: updateSimulation_def demonstrateErrorCorrection_def updateInputDisplay_def Let_def ctl_simps
        split: prod.split sum.split)
qed

lemma register_facts:
  assumes "validateDataBits bs" and "i < 4"
  shows "reg_value (bs[i := (if v then 1 else 0)]) = reg_set (reg_value bs) i v"
    and "''Binary: '' @ concat (map int_to_string bs) @ '', Decimal: '' @
           number_string (parseInt2 (concat (map int_to_string bs))) = reg_display (reg_value bs)"
proof -
  have bs: "bs \<in> set all_data_words"
    using assms(1) all_data_words_valid by blast
  have i: "i \<in> set [0..<4]" and v: "v \<in> set [False, True]"
    using assms(2) by auto
  show "reg_value (bs[i := (if v then 1 else 0)]) = reg_set (reg_value bs) i v"
    using register_table bs i v by (simp add: list_all_iff)
  show "''Binary: '' @ concat (map int_to_string bs) @ '', Decimal: '' @
           number_string (parseInt2 (concat (map int_to_string bs))) = reg_display (reg_value bs)"
    using register_table bs by (simp add: list_all_iff)
qed

text \<open>
  C18. Refinement of the input panel: with the bit list read as a 4-bit binary
  number (bit 0 most significant), a change of check box i sets bit 3 - i of
  that number, and the read-out shows the four binary digits and the decimal
  value of the new number; the bits stay well-formed.
\<close>

theorem bit_toggle_refines_register:
  assumes "validateDataBits (inputBits (currentState a))" and "i < 4" and "microtasks a = []"
  shows "let b = app_step a (BitToggle i v); n = reg_value (inputBits (currentState a)) in
     reg_value (inputBits (currentState b)) = reg_set n i v \<and> inputInfo b = reg_display (reg_set n i v) \<and>
     validateDataBits (inputBits (currentState b))"
proof -
  let ?bs = "inputBits (currentState a)"
  let ?bs' = "?bs[i := (if v then 1 else 0)]"
  define a1 where "a1 = currentState_update (\<lambda>cs. cs\<lparr>inputBits := (inputBits cs)[i := (if v then 1 else 0)]\<rparr>) a"
  have v1: "validateDataBits ?bs'"
    using assms(1) by (simp add: validateDataBits_def bits_of_length_update is_bit_def)
  have b1: "inputBits (currentState a1) = ?bs'" and m1: "microtasks a1 = []"
    using assms(3) by (simp_all add: a1_def)
  have step: "app_step a (BitToggle i v) = trackInteraction ''bit_toggle'' (updateSimulation a1)"
    using m1 by (simp add: app_step_def end_callback_def normal_def onBitToggle_def Let_def a1_def [symmetric]
        ctl_simps)
  have info: "inputInfo (updateSimulation a1) = reg_display (reg_value ?bs')"
    using updateSimulation_display [of a1] register_facts(2) [OF v1 assms(2)] v1 b1
    by (simp add: updateInputDisplay_def Let_def)
  show ?thesis
    using step info b1 v1 register_facts(1) [OF assms(1,2)] by (simp add: ctl_simps Let_def)
qed

lemma initial_valid: "validateDataBits (inputBits (currentState (initialApp now g)))"
  using initial_fields [of now g] by (simp add: validateDataBits_def bits_of_length_def is_bit_def)

theorem app_reach_invariant_witness:
  "app_reach event_ok (initialApp 0 (const_rng 0)) \<and>
   simulationsRun (analytics (initialApp 0 (const_rng 0))) = 0 \<and>
   validateDataBits (inputBits (currentState (initialApp 0 (const_rng 0))))"
  using app_reach_invariant [OF app_reach.init [of event_ok 0 "const_rng 0"]] app_reach.init by simp

theorem runCompleteSimulation_completes_witness:
  "app_reach event_ok (initialApp 0 (const_rng 0)) \<and>
   \<not> isRunning (simulation (currentState (initialApp 0 (const_rng 0)))) \<and>
   timers (initialApp 0 (const_rng 0)) = [] \<and>
   (\<exists>rep. let p = sim_parameters (currentState (initialApp 0 (const_rng 0)));
      b = run_events (initialApp 0 (const_rng 0))
            (Click [''simulate-button''] [] None # replicate (length (report_history rep)) TimerFires)
    in sim_results (simulation (currentState b)) = Some rep \<and>
       parameters rep = defaultParams\<lparr>maxIterations := real_of_int (prm_maxIterations p),
                                      errorRate := prm_errorRate p\<rparr> \<and>
       length (report_history rep) \<le> nat (prm_maxIterations p) \<and>
       timers b = [] \<and> \<not> isRunning (simulation (currentState b)) \<and> statusText b = ''Ready'' \<and>
       errorMessages b = errorMessages (initialApp 0 (const_rng 0)) @
         [''Simulation failed. Please check parameters and try again.''] \<and>
       simulationsRun (analytics b) = simulationsRun (analytics (initialApp 0 (const_rng 0))) \<and>
       userInteractions (analytics b) = Suc (userInteractions (analytics (initialApp 0 (const_rng 0)))) \<and>
       totalRuns (statistics (app_solver b)) =
         Suc (totalRuns (statistics (app_solver (initialApp 0 (const_rng 0))))))"
proof -
  have r: "app_reach event_ok (initialApp 0 (const_rng 0))"
    by (rule app_reach.init)
  have idle: "\<not> isRunning (simulation (currentState (initialApp 0 (const_rng 0))))"
    "timers (initialApp 0 (const_rng 0)) = []"
    using initial_fields [of 0 "const_rng 0"] by simp_all
  show ?thesis
    using runCompleteSimulation_completes [OF r idle, of "[]"] r idle by (intro conjI)
qed

theorem single_run_without_reset_witness:
  "app_reach (\<lambda>ev. event_ok ev \<and> \<not> resets ev) (initialApp 0 (const_rng 0)) \<and>
   length (timers (initialApp 0 (const_rng 0))) \<le> 1"
  using single_run_without_reset [OF app_reach.init] app_reach.init by blast

theorem keys_without_shortcut_witness:
  "microtasks (initialApp 0 (const_rng 0)) = [] \<and>
   app_step (initialApp 0 (const_rng 0)) (KeyDown ''BODY'' '' '' False False) = initialApp 0 (const_rng 0)"
  using keys_without_shortcut [of "initialApp 0 (const_rng 0)"] initial_fields [of 0 "const_rng 0"] by simp

theorem step_controls_throw_witness:
  "microtasks (initialApp 0 (const_rng 0)) = [] \<and>
   uncaught (app_step (initialApp 0 (const_rng 0)) (Click [''step-button''] '''' None)) = [TypeError]"
proof -
  have "uncaught (initialApp 0 (const_rng 0)) = []"
    by (simp add: initialApp_def end_callback_def normal_def newApp_def)
  then show ?thesis
    using step_controls_throw [of "initialApp 0 (const_rng 0)" "''''"] initial_fields [of 0 "const_rng 0"]
    by simp
qed

theorem updateSimulation_reports_detected_noise_witness:
  "validateDataBits (inputBits (currentState (initialApp 0 (const_rng 0)))) \<and>
   (\<exists>c r. encode (inputBits (currentState (initialApp 0 (const_rng 0)))) = Inr c \<and>
     decode (fst (injectErrors c (prm_errorRate (sim_parameters (currentState (initialApp 0 (const_rng 0)))))
       (app_rng (initialApp 0 (const_rng 0))))) = Inr r \<and>
     app_rng (updateSimulation (initialApp 0 (const_rng 0))) =
       snd (injectErrors c (prm_errorRate (sim_parameters (currentState (initialApp 0 (const_rng 0)))))
         (app_rng (initialApp 0 (const_rng 0)))) \<and>
     errorMessages (updateSimulation (initialApp 0 (const_rng 0))) =
       errorMessages (initialApp 0 (const_rng 0)) @
         (if errorDetected r then [''Error in simulation update. Please check input values.''] else []) \<and>
     inputInfo (updateSimulation (initialApp 0 (const_rng 0))) =
       inputInfo (updateInputDisplay (initialApp 0 (const_rng 0))))"
  using updateSimulation_reports_detected_noise [OF initial_valid [of 0 "const_rng 0"]]
    initial_valid [of 0 "const_rng 0"]
  by (intro conjI)

theorem bit_toggle_refines_register_witness:
  "validateDataBits (inputBits (currentState (initialApp 0 (const_rng 0)))) \<and> (2::nat) < 4 \<and>
   microtasks (initialApp 0 (const_rng 0)) = [] \<and>
   reg_value (inputBits (currentState (app_step (initialApp 0 (const_rng 0)) (BitToggle 2 True)))) = 2 \<and>
   inputInfo (app_step (initialApp 0 (const_rng 0)) (BitToggle 2 True)) = ''Binary: 0010, Decimal: 2''"
proof -
  have "reg_value (inputBits (currentState (initialApp 0 (const_rng 0)))) = 0"
    using initial_fields [of 0 "const_rng 0"] by (simp add: reg_value_def)
  moreover have "reg_set 0 2 True = 2" and "reg_display 2 = ''Binary: 0010, Decimal: 2''"
    by code_simp+
  ultimately show ?thesis
    using bit_toggle_refines_register [OF initial_valid, of 2 0 "const_rng 0" True]
      initial_fields [of 0 "const_rng 0"] initial_valid [of 0 "const_rng 0"]
    by (simp add: Let_def del: validateDataBits_def)
qed

theorem benchmark_click_reports_failure_witness:
  "microtasks (initialApp 0 (const_rng 0)) = [] \<and>
   statusText (app_step (initialApp 0 (const_rng 0)) (Click [''analysis-button''] '''' None)) = ''Ready''"
  using benchmark_click_reports_failure [of "initialApp 0 (const_rng 0)" "''''"] initial_fields [of 0 "const_rng 0"]
  by (auto simp: Let_def ctl_simps)

end
