(* ===== verification/Visualizer.thy ===== *)
theory Visualizer
  imports Solver UtilsFormat
begin

text \<open>
  The visualiser, class \<open>RetrocausalVisualizer\<close> of
  \<open>src/unnamed/part_001\<close>. Drawing on a canvas and building DOM nodes have
  no effect on the program's state; what the class computes is modelled as the
  data it puts on the page: the registered canvases and animation flags, the
  bit elements and parity highlights of the encoding chain, the numbers of the
  explanation text, the coordinates and axis labels of the convergence plot,
  the statistics read-out, the spin chain, and the points of the error
  correction chart. The page elements the methods look up are taken to be
  present, except the canvas element whose absence \<open>setupCanvas\<close> tests.
  The errors plotted are \<open>convergenceHistory.map(h => h.convergenceError)\<close>;
  the solver only records finite errors (lemma \<open>history_errors_finite\<close>).
\<close>

section \<open>Definitions\<close>

subsection \<open>Object state\<close>

record anim_state =
  playing :: bool
  frame :: nat
  speed :: real

record visualizer =
  canvases :: "string list"
  animationStates :: "string \<rightharpoonup> anim_state"

definition idle_animation :: anim_state where
  "idle_animation = \<lparr>playing = False, frame = 0, speed = 1.0\<rparr>"

definition vis_colors :: "(string \<times> string) list" where
  "vis_colors =
     [(''dataBit'', ''#4CAF50''), (''parityBit'', ''#2196F3''), (''errorBit'', ''#F44336''),
      (''correctedBit'', ''#FF9800''), (''spinUp'', ''#00BCD4''), (''spinDown'', ''#E91E63''),
      (''mixedState'', ''#9C27B0''), (''convergence'', ''#4CAF50''), (''iteration'', ''#FFC107''),
      (''background'', ''#F5F5F5''), (''text'', ''#212121'')]"

definition new_visualizer :: visualizer where
  "new_visualizer =
     \<lparr>canvases = [],
      animationStates = [''hammingEncoding'' \<mapsto> idle_animation, ''convergenceProcess'' \<mapsto> idle_animation,
                         ''spinEvolution'' \<mapsto> idle_animation]\<rparr>"

text \<open>\<open>setupCanvas\<close>: a missing element returns early; otherwise the canvas is stored under its id.\<close>

definition setupCanvas :: "string \<Rightarrow> bool \<Rightarrow> visualizer \<Rightarrow> visualizer" where
  "setupCanvas canvasId present v =
     (if \<not> present then v
      else v\<lparr>canvases := (if canvasId \<in> set (canvases v) then canvases v else canvases v @ [canvasId])\<rparr>)"

definition initializeCanvases :: "bool \<Rightarrow> visualizer \<Rightarrow> visualizer" where
  "initializeCanvases present v = setupCanvas ''convergence-canvas'' present v"

definition startAnimation :: "string \<Rightarrow> visualizer \<Rightarrow> visualizer" where
  "startAnimation animationType v =
     (case animationStates v animationType of
        None \<Rightarrow> v
      | Some s \<Rightarrow> v\<lparr>animationStates := (animationStates v)(animationType \<mapsto> s\<lparr>playing := True\<rparr>)\<rparr>)"

definition stopAnimation :: "string \<Rightarrow> visualizer \<Rightarrow> visualizer" where
  "stopAnimation animationType v =
     (case animationStates v animationType of
        None \<Rightarrow> v
      | Some s \<Rightarrow> v\<lparr>animationStates := (animationStates v)(animationType \<mapsto> s\<lparr>playing := False\<rparr>)\<rparr>)"

definition getVisualizationState ::
  "visualizer \<Rightarrow> string list \<times> (string \<rightharpoonup> anim_state) \<times> (string \<times> string) list" where
  "getVisualizationState v = (canvases v, animationStates v, vis_colors)"

subsection \<open>The encoding chain\<close>

record bit_position =
  bp_index :: nat
  bp_type :: string
  bp_label :: string

definition bitPositions :: "bit_position list" where
  "bitPositions =
     [\<lparr>bp_index = 0, bp_type = ''parity'', bp_label = ''P1''\<rparr>,
      \<lparr>bp_index = 1, bp_type = ''parity'', bp_label = ''P2''\<rparr>,
      \<lparr>bp_index = 2, bp_type = ''data'', bp_label = ''D1''\<rparr>,
      \<lparr>bp_index = 3, bp_type = ''parity'', bp_label = ''P3''\<rparr>,
      \<lparr>bp_index = 4, bp_type = ''data'', bp_label = ''D2''\<rparr>,
      \<lparr>bp_index = 5, bp_type = ''data'', bp_label = ''D3''\<rparr>,
      \<lparr>bp_index = 6, bp_type = ''data'', bp_label = ''D4''\<rparr>]"

record bit_element =
  be_class :: string
  be_value :: string
  be_label :: string
  be_position :: string

definition createBitElement :: "bit_position \<Rightarrow> int \<Rightarrow> bit_element" where
  "createBitElement position val =
     \<lparr>be_class = ''bit-element '' @ bp_type position @ ''-bit'', be_value = int_to_string val,
      be_label = bp_label position, be_position = ''Pos '' @ int_to_string (int (bp_index position + 1))\<rparr>"

definition parityRelations :: "nat \<rightharpoonup> nat list" where
  "parityRelations = [0 \<mapsto> [2, 4, 6], 1 \<mapsto> [2, 5, 6], 3 \<mapsto> [4, 5, 6]]"

text \<open>The positions \<open>highlightParityCalculation\<close> marks as related (none for a data bit).\<close>

definition highlightParityCalculation :: "bit_position \<Rightarrow> nat \<Rightarrow> nat list" where
  "highlightParityCalculation position index =
     (if bp_type position \<noteq> ''parity'' then []
      else case parityRelations index of None \<Rightarrow> [] | Some relatedPositions \<Rightarrow> relatedPositions)"

text \<open>
  The values \<open>updateEncodingExplanation\<close> interpolates: the data string and
  its \<open>parseInt(.., 2)\<close>, the codeword joined by blanks, and for each parity
  line the three data bits and the parity bit shown.
\<close>

record explanation =
  ex_data :: string
  ex_decimal :: js_real
  ex_code :: string
  ex_parity :: "(int \<times> int \<times> int \<times> int) list"

definition updateEncodingExplanation :: "int list \<Rightarrow> int list \<Rightarrow> explanation" where
  "updateEncodingExplanation dbits cw =
     (let dataString = concat (map int_to_string dbits)
      in \<lparr>ex_data = dataString, ex_decimal = parseInt2 dataString,
          ex_code = js_join '' '' (map int_to_string cw),
          ex_parity = [(dbits ! 0, dbits ! 1, dbits ! 3, cw ! 0),
                       (dbits ! 0, dbits ! 2, dbits ! 3, cw ! 1),
                       (dbits ! 1, dbits ! 2, dbits ! 3, cw ! 3)]\<rparr>)"

record encoding_view =
  ev_elements :: "bit_element list"
  ev_highlights :: "(nat \<times> nat list) list"
  ev_explanation :: explanation

text \<open>
  \<open>visualizeHammingEncoding\<close>: one element per position; with animation, the
  highlight of position \<open>i\<close> is scheduled after \<open>i * 150\<close> ms.
\<close>

definition visualizeHammingEncoding :: "int list \<Rightarrow> int list \<Rightarrow> bool \<Rightarrow> encoding_view" where
  "visualizeHammingEncoding dbits cw animate =
     \<lparr>ev_elements = map (\<lambda>pos. createBitElement pos (cw ! bp_index pos)) bitPositions,
      ev_highlights = (if animate then map (\<lambda>pos. (bp_index pos * 150,
                          highlightParityCalculation pos (bp_index pos))) bitPositions else []),
      ev_explanation = updateEncodingExplanation dbits cw\<rparr>"

subsection \<open>The convergence plot\<close>

text \<open>
  \<open>visualizeFixedPointConvergence\<close> on the 600 x 300 canvas with margins
  top 20, right 50, bottom 40, left 60: plot width 490 and height 240. Entry
  \<open>i\<close> of \<open>n\<close> is drawn at \<open>xScale i\<close>; an error at \<open>yScale\<close>, which maps
  the least error to the bottom and the greatest to the top, or every error to
  the middle when they are all equal.
\<close>

definition conv_xScale :: "nat \<Rightarrow> nat \<Rightarrow> real" where
  "conv_xScale maxIters iteration = 60 + (real iteration / real maxIters) * 490"

definition conv_yScale :: "real \<Rightarrow> real \<Rightarrow> real \<Rightarrow> real" where
  "conv_yScale maxError minError err =
     (if maxError = minError then 240 / 2 + 20
      else 20 + 240 - ((err - minError) / (maxError - minError)) * 240)"

text \<open>
  \<open>drawConvergenceAxes\<close>: six iteration labels
  \<open>Math.round((i/5) * maxIterations)\<close> and five error labels
  \<open>(i/4) * maxError\<close> (printed with \<open>toFixed(3)\<close>) at evenly spaced heights.
\<close>

definition x_ticks :: "nat \<Rightarrow> (real \<times> int) list" where
  "x_ticks maxIters =
     map (\<lambda>i. (60 + (real i / 5) * 490, js_round ((real i / 5) * real maxIters))) [0..<6]"

definition y_ticks :: "real \<Rightarrow> (real \<times> real) list" where
  "y_ticks maxError = map (\<lambda>i. (20 + 240 - (real i / 4) * 240, (real i / 4) * maxError)) [0..<5]"

record convergence_plot =
  cp_points :: "(real \<times> real) list"
  cp_xticks :: "(real \<times> int) list"
  cp_yticks :: "(real \<times> real) list"

text \<open>
  What the call leaves on the canvas: nothing for an empty history (the
  canvas is cleared and the method returns), the axes with no curve for a
  single entry (\<open>drawConvergenceCurve\<close> returns for fewer than two), and the
  axes and points otherwise. The errors are read as numbers; a history holding
  \<open>Infinity\<close> or \<open>NaN\<close> gives non-finite coordinates, which the model does
  not compute (\<open>NotFinite\<close>).
\<close>

datatype plot_outcome = Cleared | Drawn convergence_plot | NotFinite

definition finite_errors :: "history_entry list \<Rightarrow> real list option" where
  "finite_errors hs =
     those (map (\<lambda>h. case h_convergenceError h of JNum r \<Rightarrow> Some r | _ \<Rightarrow> None) hs)"

definition convergence_plot_of :: "real list \<Rightarrow> convergence_plot" where
  "convergence_plot_of errors =
     (let maxIters = length errors; maxError = Max (set errors); minError = Min (set errors)
      in \<lparr>cp_points = (if maxIters < 2 then []
                       else map (\<lambda>i. (conv_xScale maxIters i, conv_yScale maxError minError (errors ! i)))
                              [0..<maxIters]),
          cp_xticks = x_ticks maxIters, cp_yticks = y_ticks maxError\<rparr>)"

definition visualizeFixedPointConvergence :: "history_entry list \<Rightarrow> plot_outcome" where
  "visualizeFixedPointConvergence history =
     (if history = [] then Cleared
      else case finite_errors history of
             None \<Rightarrow> NotFinite
           | Some errors \<Rightarrow> Drawn (convergence_plot_of errors))"

text \<open>
  \<open>updateConvergenceStatistics\<close>: the latest entry's iteration, its error with
  \<open>toExponential(3)\<close>, and the status, \<open>Converged\<close> below 1e-6.
\<close>

record convergence_stats =
  cs_iteration :: string
  cs_error :: "js_exception + string"
  cs_status :: string

definition js_exponential_3 :: "js_real \<Rightarrow> js_exception + string" where
  "js_exponential_3 x =
     (case x of JNum r \<Rightarrow> js_toExponential 3 r | JPosInf \<Rightarrow> Inr ''Infinity''
      | JNegInf \<Rightarrow> Inr ''-Infinity'' | JNaN \<Rightarrow> Inr ''NaN'')"

definition below :: "js_real \<Rightarrow> real \<Rightarrow> bool" where
  "below x bound = (case x of JNum r \<Rightarrow> r < bound | JNegInf \<Rightarrow> True | _ \<Rightarrow> False)"

definition updateConvergenceStatistics :: "history_entry list \<Rightarrow> convergence_stats option" where
  "updateConvergenceStatistics history =
     (if history = [] then None
      else
        (let latest = last history
         in Some \<lparr>cs_iteration = int_to_string (int (h_iteration latest)),
                  cs_error = js_exponential_3 (h_convergenceError latest),
                  cs_status = (if below (h_convergenceError latest) (1 / 1000000) then ''Converged''
                               else ''Iterating'')\<rparr>))"

subsection \<open>Spin chain and error chart\<close>

text \<open>
  \<open>createSpinStateDisplay\<close>: each bit becomes a spin, up exactly when the bit
  is 0 (any other value, not only 1, is drawn down); \<open>visualizeSpinEvolution\<close>
  shows the initial state, the transmitted state when there is one, and the
  final state, and schedules the highlight of a corrected position unless it is -1.
\<close>

definition createSpinStateDisplay :: "int list \<Rightarrow> string \<Rightarrow> string \<times> (bool \<times> nat) list" where
  "createSpinStateDisplay state label = (label, map (\<lambda>(bit, index). (bit = 0, index + 1)) (zip state [0..<length state]))"

definition highlightErrorCorrection :: "int option \<Rightarrow> int option" where
  "highlightErrorCorrection errPos =
     (case errPos of Some p \<Rightarrow> (if p = -1 then None else Some p) | None \<Rightarrow> None)"

definition visualizeSpinEvolution ::
  "int list \<Rightarrow> int list \<Rightarrow> int list option \<Rightarrow> bool \<Rightarrow> int option \<Rightarrow>
   (string \<times> (bool \<times> nat) list) list \<times> int option" where
  "visualizeSpinEvolution initial final transmitted corrected errPos =
     ([createSpinStateDisplay initial ''Initial State''] @
      (case transmitted of Some t \<Rightarrow> [createSpinStateDisplay t ''After Transmission''] | None \<Rightarrow> []) @
      [createSpinStateDisplay final ''After Correction''],
      (if corrected then highlightErrorCorrection errPos else None))"

text \<open>
  \<open>setupErrorAnalysisChart\<close>: rates 0, 0.05, ..., 0.25 (the loop's float
  increments reach 0.25 up to rounding, as exact reals do) with the accuracies
  the code makes up; \<open>createErrorCorrectionChart\<close> scales them into a canvas
  of the given size with margins 20, 40, 40, 50.
\<close>

record perf_point =
  pp_errorRate :: real
  correctedAccuracy :: real
  uncorrectedAccuracy :: real

definition setupErrorAnalysisData :: "perf_point list" where
  "setupErrorAnalysisData =
     map (\<lambda>k. let errorRate = real k * 0.05 in
              \<lparr>pp_errorRate = errorRate, correctedAccuracy = max 0.9 (1 - errorRate * 0.5),
               uncorrectedAccuracy = max 0.3 (1 - errorRate * 4)\<rparr>) [0..<6]"

text \<open>
  \<open>drawPerformanceCurve\<close>: one polyline through the points in order, reading
  the accuracy under the key \<open>type + 'Accuracy'\<close>; a key the points lack
  reads \<open>undefined\<close> and gives no drawable point (\<open>None\<close>).
\<close>

definition perf_accuracy :: "string \<Rightarrow> perf_point \<Rightarrow> real option" where
  "perf_accuracy key point =
     (if key = ''correctedAccuracy'' then Some (correctedAccuracy point)
      else if key = ''uncorrectedAccuracy'' then Some (uncorrectedAccuracy point) else None)"

definition drawPerformanceCurve ::
  "perf_point list \<Rightarrow> (real \<Rightarrow> real) \<Rightarrow> (real \<Rightarrow> real) \<Rightarrow> string \<Rightarrow> (real \<times> real) list option" where
  "drawPerformanceCurve data xScale yScale type =
     those (map (\<lambda>point. map_option (\<lambda>acc. (xScale (pp_errorRate point), yScale acc))
                           (perf_accuracy (type @ ''Accuracy'') point)) data)"

definition createErrorCorrectionChart ::
  "real \<Rightarrow> real \<Rightarrow> perf_point list \<Rightarrow> (real \<times> real) list option \<times> (real \<times> real) list option" where
  "createErrorCorrectionChart width height performanceData =
     (let chartWidth = width - 50 - 40; chartHeight = height - 20 - 40;
          maxErrorRate = Max (set (map pp_errorRate performanceData));
          xScale = (\<lambda>errorRate. 50 + (errorRate / maxErrorRate) * chartWidth);
          yScale = (\<lambda>accuracy. 20 + chartHeight - accuracy * chartHeight)
      in (drawPerformanceCurve performanceData xScale yScale ''corrected'',
          drawPerformanceCurve performanceData xScale yScale ''uncorrected''))"

text \<open>
  A history of three iterations with errors 1/2, 1/4 and 1/2, used by the
  examples of the plot lemmas.
\<close>

definition plot_example :: "history_entry list" where
  "plot_example =
     map (\<lambda>(i, r). \<lparr>h_iteration = i, h_state = [1, 0, 1, 1], h_convergenceError = JNum r,
                    h_errorsCorrected = False, h_errorPosition = Some (-1),
                    h_encodedState = [0, 1, 1, 0, 0, 1, 1], h_transmittedState = [0, 1, 1, 0, 0, 1, 1]\<rparr>)
       [(0, 1 / 2), (1, 1 / 4), (2, 1 / 2)]"

section \<open>Lemmas\<close>

lemma encode_inr_valid: "encode d = Inr cw \<Longrightarrow> validateDataBits d"
  by (auto simp: encode_def split: if_splits)

lemma encode_shape:
  assumes "encode d = Inr cw"
  obtains a b c e where "d = [a, b, c, e]"
    and "cw = [(a XOR b) XOR e, (a XOR c) XOR e, a, (b XOR c) XOR e, b, c, e]"
proof -
  from encode_inr_valid [OF assms] obtain a b c e where d: "d = [a, b, c, e]"
    and enc: "encode d = Inr [(a XOR b) XOR e, (a XOR c) XOR e, a, (b XOR c) XOR e, b, c, e]"
    by (rule encode_cases)
  from enc assms show ?thesis
    by (intro that [OF d]) simp
qed

lemma explanation_parity:
  "encode d = Inr cw \<Longrightarrow>
     list_all (\<lambda>(x, y, z, p). p = (x XOR y) XOR z) (ex_parity (updateEncodingExplanation d cw))"
  by (erule encode_shape) (simp add: updateEncodingExplanation_def Let_def xor_ac)

lemma visualizeHammingEncoding_fields [simp]:
  "ev_elements (visualizeHammingEncoding d cw anim) =
     map (\<lambda>pos. createBitElement pos (cw ! bp_index pos)) bitPositions"
  "ev_explanation (visualizeHammingEncoding d cw anim) = updateEncodingExplanation d cw"
  by (simp_all add: visualizeHammingEncoding_def)

text \<open>The solver records only errors that are multiples of a quarter in [0, 1].\<close>

lemma entry_error_values:
  "entry_ok e \<Longrightarrow> \<exists>r \<in> {0, 1 / 4, 1 / 2, 3 / 4, 1}. h_convergenceError e = JNum r"
  using conv_error_values [of "h_state e" "codeword_data (h_encodedState e)"]
  by (auto simp: entry_ok_def validateDataBits_def bits_of_length_def)

lemma history_errors_finite:
  assumes "list_all entry_ok hs"
  shows "\<exists>es. finite_errors hs = Some es \<and> length es = length hs \<and> set es \<subseteq> {0, 1 / 4, 1 / 2, 3 / 4, 1}"
  using assms
proof (induction hs)
  case Nil
  then show ?case by (simp add: finite_errors_def)
next
  case (Cons e hs)
  then obtain es where es: "finite_errors hs = Some es" "length es = length hs"
      "set es \<subseteq> {0, 1 / 4, 1 / 2, 3 / 4, 1}"
    by auto
  from Cons.prems have "entry_ok e" by simp
  then obtain r where r: "r \<in> {0, 1 / 4, 1 / 2, 3 / 4, 1}" "h_convergenceError e = JNum r"
    by (blast dest: entry_error_values)
  from es r show ?case
    by (intro exI [of _ "r # es"]) (auto simp: finite_errors_def)
qed

lemma conv_yScale_range:
  assumes "minError \<le> err" "err \<le> maxError"
  shows "20 \<le> conv_yScale maxError minError err \<and> conv_yScale maxError minError err \<le> 260"
proof (cases "maxError = minError")
  case True
  then show ?thesis by (simp add: conv_yScale_def)
next
  case False
  with assms have pos: "0 < maxError - minError" by simp
  define t where "t = (err - minError) / (maxError - minError)"
  have "0 \<le> t"
    using assms pos by (simp add: t_def)
  moreover have "t \<le> 1"
    using assms pos by (simp add: t_def divide_le_eq_1)
  moreover have "conv_yScale maxError minError err = 260 - t * 240"
    using False by (simp add: conv_yScale_def t_def)
  ultimately show ?thesis
    by linarith
qed

lemma conv_xScale_range:
  assumes "i < n"
  shows "60 \<le> conv_xScale n i \<and> conv_xScale n i < 550"
proof -
  have "real i / real n < 1" "0 \<le> real i / real n"
    using assms by simp_all
  moreover have "\<And>t :: real. 0 \<le> t \<Longrightarrow> t < 1 \<Longrightarrow> 60 \<le> 60 + t * 490 \<and> 60 + t * 490 < 550"
    by linarith
  ultimately show ?thesis
    unfolding conv_xScale_def by blast
qed

text \<open>
  A tick label against the curve: the value printed at a tick's height is the
  error the curve draws at that height exactly when the least error is 0 or
  the tick is the top one.
\<close>

lemma tick_label_yScale:
  assumes "maxError \<noteq> minError" and "(ty, tv) \<in> set (y_ticks maxError)"
  shows "conv_yScale maxError minError tv = ty \<longleftrightarrow> minError = 0 \<or> ty = 20"
proof -
  have d: "maxError - minError \<noteq> 0" using assms(1) by simp
  from assms(2) obtain i :: nat where i: "i < 5" "ty = 20 + 240 - (real i / 4) * 240"
      "tv = (real i / 4) * maxError"
    by (auto simp: y_ticks_def)
  define q where "q = real i / 4"
  have y: "conv_yScale maxError minError tv = 260 - (q * maxError - minError) / (maxError - minError) * 240"
    using assms(1) i(3) by (simp add: conv_yScale_def q_def mult.commute)
  have t: "ty = 260 - q * 240"
    using i(2) by (simp add: q_def)
  have "conv_yScale maxError minError tv = ty \<longleftrightarrow>
          (q * maxError - minError) / (maxError - minError) * 240 = q * 240"
    unfolding y t by linarith
  also have "\<dots> \<longleftrightarrow> q * maxError - minError = q * (maxError - minError)"
    using d by (simp add: field_simps)
  also have "\<dots> \<longleftrightarrow> minError * (1 - q) = 0"
    by (simp add: algebra_simps)
  also have "\<dots> \<longleftrightarrow> minError = 0 \<or> ty = 20"
    using i by (auto simp: q_def)
  finally show ?thesis .
qed

lemma plot_example_errors:
  "finite_errors plot_example = Some [1 / 2, 1 / 4, 1 / 2]"
  "Max (set [1 / 2, 1 / 4, 1 / 2 :: real]) = 1 / 2"
  "Min (set [1 / 2, 1 / 4, 1 / 2 :: real]) = 1 / 4"
  by (simp_all add: plot_example_def finite_errors_def)

lemma plot_example_drawn:
  "visualizeFixedPointConvergence plot_example = Drawn (convergence_plot_of [1 / 2, 1 / 4, 1 / 2])"
  by (simp add: visualizeFixedPointConvergence_def plot_example_errors(1)) (simp add: plot_example_def)

lemma plot_of_points:
  assumes "2 \<le> length es"
  shows "cp_points (convergence_plot_of es) =
           map (\<lambda>i. (conv_xScale (length es) i, conv_yScale (Max (set es)) (Min (set es)) (es ! i)))
             [0..<length es]"
  using assms by (simp add: convergence_plot_of_def Let_def)

lemma drawn_plot:
  assumes "visualizeFixedPointConvergence hs = Drawn p"
  obtains es where "finite_errors hs = Some es" "p = convergence_plot_of es"
  using assms by (auto simp: visualizeFixedPointConvergence_def split: if_splits option.splits)

lemma drawPerformanceCurve_known:
  "type \<in> {''corrected'', ''uncorrected''} \<Longrightarrow>
     drawPerformanceCurve data xScale yScale type =
       Some (map (\<lambda>point. (xScale (pp_errorRate point),
                            yScale (the (perf_accuracy (type @ ''Accuracy'') point)))) data)"
  by (induction data) (auto simp: drawPerformanceCurve_def perf_accuracy_def)

text \<open>
  The two curves of the analysis chart: six points each, from rate 0 at the
  left margin to rate 0.25 at the right end of the chart.
\<close>

lemma error_chart_curves:
  "\<exists>c u. createErrorCorrectionChart width height setupErrorAnalysisData = (Some c, Some u) \<and>
     length c = 6 \<and> length u = 6 \<and> fst (hd c) = 50 \<and> fst (last c) = width - 40"
proof -
  have m: "Max (set (map pp_errorRate setupErrorAnalysisData)) = 1 / 4"
    by (simp add: setupErrorAnalysisData_def upt_rec)
  show ?thesis
    by (simp add: createErrorCorrectionChart_def Let_def drawPerformanceCurve_known m)
      (simp add: setupErrorAnalysisData_def upt_rec field_simps)
qed

section \<open>Properties\<close>

text \<open>
  C29. The encoding panel agrees with the engine: for the codeword \<open>encode\<close>
  returns, each parity line of the explanation shows a parity bit equal to the
  XOR of the three data bits it lists, each parity position is the XOR of the
  positions \<open>highlightParityCalculation\<close> marks, the bit elements show the
  codeword, and the data string is the codeword's data bits.
\<close>

theorem encoding_view_consistent:
  assumes "encode d = Inr cw"
  shows "list_all (\<lambda>(x, y, z, p). p = (x XOR y) XOR z)
           (ex_parity (ev_explanation (visualizeHammingEncoding d cw anim))) \<and>
         map (\<lambda>pos. cw ! bp_index pos) (filter (\<lambda>pos. bp_type pos = ''parity'') bitPositions) =
           map (\<lambda>pos. foldl (\<lambda>b j. b XOR cw ! j) 0 (highlightParityCalculation pos (bp_index pos)))
             (filter (\<lambda>pos. bp_type pos = ''parity'') bitPositions) \<and>
         map be_value (ev_elements (visualizeHammingEncoding d cw anim)) = map int_to_string cw \<and>
         ex_data (ev_explanation (visualizeHammingEncoding d cw anim)) =
           concat (map int_to_string [cw ! 2, cw ! 4, cw ! 5, cw ! 6])"
proof -
  from assms obtain a b c e where d: "d = [a, b, c, e]"
    and cw: "cw = [(a XOR b) XOR e, (a XOR c) XOR e, a, (b XOR c) XOR e, b, c, e]"
    by (rule encode_shape)
  show ?thesis
    using explanation_parity [OF assms]
    by (simp add: cw d updateEncodingExplanation_def Let_def bitPositions_def createBitElement_def
        highlightParityCalculation_def parityRelations_def xor_ac)
qed

theorem encoding_view_consistent_witness:
  "encode [1, 0, 1, 1] = Inr [0, 1, 1, 0, 0, 1, 1] \<and>
   list_all (\<lambda>(x, y, z, p). p = (x XOR y) XOR z)
     (ex_parity (ev_explanation (visualizeHammingEncoding [1, 0, 1, 1] [0, 1, 1, 0, 0, 1, 1] True))) \<and>
   map be_value (ev_elements (visualizeHammingEncoding [1, 0, 1, 1] [0, 1, 1, 0, 0, 1, 1] True)) =
     [''0'', ''1'', ''1'', ''0'', ''0'', ''1'', ''1'']"
proof -
  have enc: "encode [1, 0, 1, 1] = Inr [0, 1, 1, 0, 0, 1, 1]"
    by code_simp
  show ?thesis
    using encoding_view_consistent [OF enc, of True] enc by simp
qed

text \<open>
  C30. Every point of the convergence curve lies inside the plot area of the
  canvas: x in [60, 550) and y in [20, 260].
\<close>

theorem convergence_points_in_plot:
  assumes "visualizeFixedPointConvergence hs = Drawn p" and "(x, y) \<in> set (cp_points p)"
  shows "60 \<le> x \<and> x < 550 \<and> 20 \<le> y \<and> y \<le> 260"
proof -
  from assms(1) obtain es where p: "p = convergence_plot_of es"
    by (rule drawn_plot)
  from assms(2) obtain i where i: "i < length es" "x = conv_xScale (length es) i"
      "y = conv_yScale (Max (set es)) (Min (set es)) (es ! i)"
    by (auto simp: p convergence_plot_of_def Let_def split: if_splits)
  then have "es ! i \<in> set es"
    by simp
  then have "Min (set es) \<le> es ! i" "es ! i \<le> Max (set es)"
    by simp_all
  then show ?thesis
    using i conv_xScale_range [OF i(1)] conv_yScale_range by simp
qed

theorem convergence_points_in_plot_witness:
  "visualizeFixedPointConvergence plot_example = Drawn (convergence_plot_of [1 / 2, 1 / 4, 1 / 2]) \<and>
   (conv_xScale 3 1, 260) \<in> set (cp_points (convergence_plot_of [1 / 2, 1 / 4, 1 / 2])) \<and>
   60 \<le> conv_xScale 3 1 \<and> conv_xScale 3 1 < 550"
proof -
  have pt: "(conv_xScale 3 1, 260) \<in> set (cp_points (convergence_plot_of [1 / 2, 1 / 4, 1 / 2]))"
    by (simp add: plot_of_points plot_example_errors(2,3) conv_yScale_def numeral_3_eq_3)
  show ?thesis
    using convergence_points_in_plot [OF plot_example_drawn pt] plot_example_drawn pt by simp
qed

text \<open>
  C31. The y-axis tick labels misreport the curve: \<open>drawConvergenceAxes\<close>
  prints the labels from 0 at the bottom to the greatest error at the top,
  while \<open>yScale\<close> puts the least error at the bottom. When the errors
  differ, a tick label is the error the curve draws at its height exactly when
  the least error is 0 or the tick is the top one.
\<close>

theorem y_labels_misread:
  assumes "visualizeFixedPointConvergence hs = Drawn p" and "finite_errors hs = Some es"
    and "Min (set es) \<noteq> Max (set es)" and "(ty, tv) \<in> set (cp_yticks p)"
  shows "conv_yScale (Max (set es)) (Min (set es)) tv = ty \<longleftrightarrow> Min (set es) = 0 \<or> ty = 20"
proof -
  from assms(1) obtain es' where "finite_errors hs = Some es'" and p: "p = convergence_plot_of es'"
    by (rule drawn_plot)
  with assms(2) have "cp_yticks p = y_ticks (Max (set es))"
    by (simp add: convergence_plot_of_def Let_def)
  with assms(4) have "(ty, tv) \<in> set (y_ticks (Max (set es)))"
    by simp
  with assms(3) show ?thesis
    by (intro tick_label_yScale) simp_all
qed

theorem y_labels_misread_witness:
  "visualizeFixedPointConvergence plot_example = Drawn (convergence_plot_of [1 / 2, 1 / 4, 1 / 2]) \<and>
   (200, 1 / 8) \<in> set (cp_yticks (convergence_plot_of [1 / 2, 1 / 4, 1 / 2])) \<and>
   conv_yScale (1 / 2) (1 / 4) (1 / 8) \<noteq> 200"
proof -
  have t: "(200, 1 / 8) \<in> set (cp_yticks (convergence_plot_of [1 / 2, 1 / 4, 1 / 2]))"
    by (simp add: convergence_plot_of_def Let_def y_ticks_def plot_example_errors(2) upt_rec)
  show ?thesis
    using y_labels_misread [OF plot_example_drawn plot_example_errors(1) _ t] plot_example_drawn t
    by (simp add: plot_example_errors(2,3))
qed

text \<open>
  The solver's history always plots: in every solver state satisfying
  the solver invariant (so in every state \<open>solveFixedPoint\<close> reaches), a
  non-empty \<open>convergenceHistory\<close> is drawn with one point per iteration, from
  errors that are multiples of 1/4 in [0, 1]; the \<open>NotFinite\<close> case never
  arises from the solver.
\<close>

theorem solver_history_plots:
  assumes "solver_inv st" and "convergenceHistory st \<noteq> []"
  shows "\<exists>es. visualizeFixedPointConvergence (convergenceHistory st) = Drawn (convergence_plot_of es) \<and>
              length es = length (convergenceHistory st) \<and> set es \<subseteq> {0, 1 / 4, 1 / 2, 3 / 4, 1}"
proof -
  from assms(1) have "list_all entry_ok (convergenceHistory st)"
    by (simp add: solver_inv_def)
  then obtain es where "finite_errors (convergenceHistory st) = Some es"
      "length es = length (convergenceHistory st)" "set es \<subseteq> {0, 1 / 4, 1 / 2, 3 / 4, 1}"
    by (blast dest: history_errors_finite)
  with assms(2) show ?thesis
    by (auto simp: visualizeFixedPointConvergence_def)
qed

theorem solver_history_plots_witness:
  "solver_inv (new_solver\<lparr>convergenceHistory := [hd plot_example\<lparr>h_convergenceError := JNum 0\<rparr>]\<rparr>) \<and>
   (\<exists>es. visualizeFixedPointConvergence [hd plot_example\<lparr>h_convergenceError := JNum 0\<rparr>] =
          Drawn (convergence_plot_of es) \<and> length es = 1 \<and> set es \<subseteq> {0, 1 / 4, 1 / 2, 3 / 4, 1})"
proof -
  have inv: "solver_inv (new_solver\<lparr>convergenceHistory := [hd plot_example\<lparr>h_convergenceError := JNum 0\<rparr>]\<rparr>)"
    by code_simp
  show ?thesis
    using solver_history_plots [OF inv] inv by simp
qed

end
