(* ===== verification/Page.thy ===== *)
theory Page
  imports Controller Visualizer
begin

text \<open>
  What the controller draws. The drawing calls of \<open>src/js/main.js\<close> change
  no state of \<open>Controller\<close>; here they are the visualiser data (theory
  \<open>Visualizer\<close>) computed from the controller's state and the solver's
  report, so that properties can span the three components: the encoding
  panel of \<open>updateSimulation\<close>, the frames of
  \<open>animateConvergenceProcess\<close>, the final views of
  \<open>updateVisualizationsWithResults\<close> and the text of
  \<open>explainSimulationResults\<close>.
\<close>

section \<open>Definitions\<close>

text \<open>
  \<open>updateSimulation\<close>, steps 1 and 2: encode the input bits and draw the
  encoding chain with animation; an input \<open>encode\<close> rejects draws nothing.
\<close>

definition encoding_panel :: "app \<Rightarrow> encoding_view option" where
  "encoding_panel a =
     (case encode (inputBits (currentState a)) of
        Inl _ \<Rightarrow> None
      | Inr encodedBits \<Rightarrow> Some (visualizeHammingEncoding (inputBits (currentState a)) encodedBits True))"

type_synonym spin_view = "(string \<times> (bool \<times> nat) list) list \<times> int option"

text \<open>
  One pass of the loop of \<open>animateConvergenceProcess\<close>: the curve of the
  first \<open>i + 1\<close> entries, and the spin chain of entry \<open>i\<close> from its
  encoded word to its decoded state. The guard
  \<open>history[i].encodedState && history[i].transmittedState\<close> tests two
  arrays, which are always truthy, so the chain is always drawn.
\<close>

definition animation_frame :: "solve_report \<Rightarrow> nat \<Rightarrow> plot_outcome \<times> spin_view" where
  "animation_frame result i =
     (let history = report_history result
      in (visualizeFixedPointConvergence (take (Suc i) history),
          visualizeSpinEvolution (h_encodedState (history ! i)) (h_state (history ! i))
            (Some (h_transmittedState (history ! i))) (h_errorsCorrected (history ! i))
            (h_errorPosition (history ! i))))"

text \<open>
  \<open>updateVisualizationsWithResults\<close>: the whole curve, and, when there is a
  last entry, the chain from the first entry's state to the final state with
  the last entry's transmission.
\<close>

definition updateVisualizationsWithResults :: "solve_report \<Rightarrow> plot_outcome \<times> spin_view option" where
  "updateVisualizationsWithResults result =
     (let history = report_history result
      in (visualizeFixedPointConvergence history,
          if history = [] then None
          else Some (visualizeSpinEvolution (h_state (history ! 0)) (finalState result)
                       (Some (h_transmittedState (last history))) (h_errorsCorrected (last history))
                       (h_errorPosition (last history)))))"

text \<open>
  \<open>explainSimulationResults\<close>: the values its two texts interpolate. It
  would only run after \<open>updatePerformanceMetrics\<close>, which is undefined
  (\<open>finishRun\<close>), so no run reaches it.
\<close>

datatype explanation_text =
    ConvergedText nat int "js_exception + string"
  | NotConvergedText

definition explainSimulationResults :: "solve_report \<Rightarrow> explanation_text" where
  "explainSimulationResults result =
     (if converged result
      then ConvergedText (iterations result)
             (js_round (correctionEfficiency (errorCorrectionStats result) * 100))
             (case finalError result of JNum r \<Rightarrow> js_toExponential 2 r | JPosInf \<Rightarrow> Inr ''Infinity''
              | JNegInf \<Rightarrow> Inr ''-Infinity'' | JNaN \<Rightarrow> Inr ''NaN'')
      else NotConvergedText)"

section \<open>Lemmas\<close>

lemma take_entries_ok: "list_all entry_ok hs \<Longrightarrow> list_all entry_ok (take n hs)"
  by (induction hs arbitrary: n) (auto simp: take_Cons split: nat.splits)

lemma entry_lengths:
  assumes "entry_ok e"
  shows "length (h_encodedState e) = 7 \<and> length (h_transmittedState e) = 7 \<and> length (h_state e) = 4"
proof -
  from assms have enc: "encode (codeword_data (h_encodedState e)) = Inr (h_encodedState e)"
    by (simp add: entry_ok_def)
  from enc obtain a b c d where "h_encodedState e = [(a XOR b) XOR d, (a XOR c) XOR d, a, (b XOR c) XOR d, b, c, d]"
    by (rule encode_shape) blast
  with assms show ?thesis
    by (simp add: entry_ok_def validity_defs bits_of_length_def)
qed

lemma spin_lengths:
  "map (length \<circ> snd) (fst (visualizeSpinEvolution s f (Some t) c p)) = [length s, length t, length f]"
  by (simp add: visualizeSpinEvolution_def createSpinStateDisplay_def)

section \<open>Properties\<close>

text \<open>
  C28. The animation of a run draws what the solver computed: for a run of
  \<open>solveFixedPoint\<close> on a 4-bit input (the call of
  \<open>runCompleteSimulation\<close>), frame \<open>i\<close> of \<open>animateConvergenceProcess\<close>
  draws a curve of exactly \<open>i + 1\<close> finite errors, each a multiple of 1/4 in
  [0, 1], and a spin chain whose three rows have 7, 7 and 4 spins: the
  "After Correction" row shows the decoded 4-bit state under the 7-bit
  codewords.
\<close>

theorem animation_frames_drawn:
  assumes "validateDataBits d" and "solveFixedPoint d params st g = Inr (rep, st', g')"
    and "i < length (report_history rep)"
  shows "(\<exists>es. fst (animation_frame rep i) = Drawn (convergence_plot_of es) \<and> length es = Suc i \<and>
               set es \<subseteq> {0, 1 / 4, 1 / 2, 3 / 4, 1}) \<and>
         map (length \<circ> snd) (fst (snd (animation_frame rep i))) = [7, 7, 4]"
proof -
  have ok: "list_all entry_ok (report_history rep)"
    using solveFixedPoint_run [OF assms(1) refl, of params st g] assms(2) by auto
  then obtain es where es: "finite_errors (take (Suc i) (report_history rep)) = Some es"
      "length es = Suc i" "set es \<subseteq> {0, 1 / 4, 1 / 2, 3 / 4, 1}"
    using history_errors_finite [OF take_entries_ok [OF ok, of "Suc i"]] assms(3) by auto
  have "take (Suc i) (report_history rep) \<noteq> []"
    using assms(3) by (cases "report_history rep") simp_all
  with es have plot: "fst (animation_frame rep i) = Drawn (convergence_plot_of es)"
    by (simp add: animation_frame_def visualizeFixedPointConvergence_def Let_def)
  have "entry_ok (report_history rep ! i)"
    using ok assms(3) by (simp add: list_all_length)
  then have "map (length \<circ> snd) (fst (snd (animation_frame rep i))) = [7, 7, 4]"
    using entry_lengths by (simp add: animation_frame_def Let_def spin_lengths)
  with plot es show ?thesis
    by blast
qed

theorem animation_frames_drawn_witness:
  "validateDataBits [1, 0, 1, 1] \<and>
   (\<exists>rep st' g'. solveFixedPoint [1, 0, 1, 1] example_params new_solver (const_rng 0) = Inr (rep, st', g') \<and>
      0 < length (report_history rep) \<and>
      map (length \<circ> snd) (fst (snd (animation_frame rep 0))) = [7, 7, 4])"
proof -
  have v: "validateDataBits [1, 0, 1, 1]"
    by (simp add: example_simps)
  obtain rep st' g' where sol: "solveFixedPoint [1, 0, 1, 1] example_params new_solver (const_rng 0) =
      Inr (rep, st', g')" and conv: "converged rep"
    using zero_noise_run [OF v, where g = "const_rng 0" and params = example_params
        and t = "1 / 1000000" and st = new_solver]
    by (auto simp: example_simps valid_const_rng)
  have pos: "0 < length (report_history rep)"
    using solveFixedPoint_run [OF v refl, of example_params new_solver "const_rng 0"] sol conv
    by (auto simp: loop_converged_def)
  have f: "map (length \<circ> snd) (fst (snd (animation_frame rep 0))) = [7, 7, 4]"
    using animation_frames_drawn [OF v sol pos] by blast
  show ?thesis
    by (rule conjI [OF v], rule exI [of _ rep], rule exI [of _ st'], rule exI [of _ g'])
      (intro conjI sol pos f)
qed

end
