(* ===== verification/Auth.thy ===== *)
theory Auth
  imports Prelude "HOL-Library.Word"
begin

text \<open>
  The PIN login back end in \<open>src/src/main/java/com/safe4all/servlets/PIPServlet.java\<close>:
  servlet \<open>PIPServlet\<close> (lines 1-67), service \<open>AuthenticationService\<close>
  (lines 68-161) and the bean \<open>AuthResponse\<close>
  (\<open>src/src/main/java/com/safe4all/models/AuthResponse.java\<close>). A Java
  \<open>String\<close> that may be \<open>null\<close> is a \<open>string option\<close>; a Java \<open>byte\<close> is an
  \<open>8 word\<close>. \<open>MessageDigest.getInstance("SHA-256")\<close> composed with
  \<open>pin.getBytes()\<close> is a parameter of the model (\<open>message_digest\<close>),
  \<open>None\<close> when the platform has no SHA-256; the hex loop around it is modelled
  exactly. The servlet container is a record of live sessions, each a map of
  attributes, and a counter for fresh session ids.
\<close>

unbundle bit_operations_syntax

section \<open>Definitions\<close>

subsection \<open>The response bean\<close>

record auth_output =
  out_code :: "string option"
  out_message :: "string option"

record auth_response =
  success :: bool
  ar_code :: "string option"
  ar_message :: "string option"
  ar_userId :: "string option"
  ar_output :: "auth_output option"

text \<open>The two constructors of \<open>AuthResponse\<close>; the first leaves \<open>userId\<close> null.\<close>

definition AuthResponse3 :: "bool \<Rightarrow> string \<Rightarrow> string \<Rightarrow> auth_response" where
  "AuthResponse3 ok code message =
     \<lparr>success = ok, ar_code = Some code, ar_message = Some message, ar_userId = None,
      ar_output = Some \<lparr>out_code = Some code, out_message = Some message\<rparr>\<rparr>"

definition AuthResponse4 :: "bool \<Rightarrow> string \<Rightarrow> string \<Rightarrow> string \<Rightarrow> auth_response" where
  "AuthResponse4 ok userId code message =
     \<lparr>success = ok, ar_code = Some code, ar_message = Some message, ar_userId = Some userId,
      ar_output = Some \<lparr>out_code = Some code, out_message = Some message\<rparr>\<rparr>"

subsection \<open>The PIN hash\<close>

type_synonym message_digest = "string \<Rightarrow> 8 word list"

text \<open>
  \<open>Integer.toHexString(0xff & b)\<close>: the byte is widened to a 32-bit
  \<open>int\<close> with sign extension, masked, and printed in lower-case hex without
  leading zeros.
\<close>

definition toHexString :: "32 word \<Rightarrow> string" where
  "toHexString i = radix_digits 16 (unat i)"

definition hashPin_hex_step :: "string \<Rightarrow> 8 word \<Rightarrow> string" where
  "hashPin_hex_step hexString b =
     (let hex = toHexString (0xff AND scast b)
      in hexString @ (if length hex = 1 then ''0'' else []) @ hex)"

definition hashPin :: "message_digest option \<Rightarrow> string \<Rightarrow> string + string" where
  "hashPin md pin =
     (case md of
        None \<Rightarrow> Inl ''SHA-256 algorithm not available''
      | Some digest \<Rightarrow> Inr (foldl hashPin_hex_step [] (digest pin)))"

subsection \<open>The service\<close>

record user_credentials =
  uc_username :: string
  hashedPin :: string
  uc_role :: string
  uc_userId :: string

record auth_service =
  userDatabase :: "string \<rightharpoonup> user_credentials"
  svc_digest :: message_digest

text \<open>
  The constructor runs \<open>initializeDemoData\<close>, which hashes the two demo
  PINs: without SHA-256 the constructor throws the \<open>RuntimeException\<close>.
\<close>

definition newAuthenticationService :: "message_digest option \<Rightarrow> string + auth_service" where
  "newAuthenticationService md =
     (case (hashPin md ''1234'', hashPin md ''5678'') of
        (Inr h1, Inr h2) \<Rightarrow>
          Inr \<lparr>userDatabase =
                 [''caregiver1'' \<mapsto> \<lparr>uc_username = ''caregiver1'', hashedPin = h1,
                                    uc_role = ''SuperCaregiver'', uc_userId = ''user-001''\<rparr>,
                  ''client1'' \<mapsto> \<lparr>uc_username = ''client1'', hashedPin = h2,
                                 uc_role = ''Client'', uc_userId = ''user-002''\<rparr>],
               svc_digest = the md\<rparr>
      | (Inl e, _) \<Rightarrow> Inl e
      | (_, Inl e) \<Rightarrow> Inl e)"

text \<open>
  \<open>authenticate\<close>, branch by branch. Its \<open>hashPin\<close> call finds the same
  digest the constructor found, so it cannot throw on a constructed service.
\<close>

definition authenticate ::
  "auth_service \<Rightarrow> string option \<Rightarrow> string option \<Rightarrow> string option \<Rightarrow> string option \<Rightarrow> auth_response" where
  "authenticate svc username pin role deviceId =
     (case (username, pin, role) of
        (Some u, Some p, Some r) \<Rightarrow>
          (case userDatabase svc u of
             None \<Rightarrow> AuthResponse3 False ''002'' ''User not found''
           | Some user \<Rightarrow>
               (if hashPin (Some (svc_digest svc)) p \<noteq> Inr (hashedPin user)
                then AuthResponse3 False ''001'' ''Invalid PIN''
                else if uc_role user \<noteq> r then AuthResponse3 False ''003'' ''Role mismatch''
                else AuthResponse4 True (uc_userId user) ''000'' ''Authentication successful''))
      | _ \<Rightarrow> AuthResponse3 False ''001'' ''Missing required parameters'')"

subsection \<open>The servlet\<close>

type_synonym session = "string \<rightharpoonup> string"

record container =
  sessions :: "nat \<rightharpoonup> session"
  next_session :: nat

record http_request =
  req_params :: "string \<rightharpoonup> string"
  req_session :: "nat option"

record http_response =
  status :: nat
  body :: auth_response
  resp_session :: "nat option"

text \<open>
  \<open>request.getSession(true)\<close>: the request's session if it is live,
  otherwise a new one under a fresh id.
\<close>

definition getSession :: "container \<Rightarrow> http_request \<Rightarrow> nat \<times> container" where
  "getSession c req =
     (case req_session req of
        Some sid \<Rightarrow> (if sid \<in> dom (sessions c) then (sid, c)
                     else (next_session c, c\<lparr>sessions := (sessions c)(next_session c \<mapsto> Map.empty),
                                             next_session := Suc (next_session c)\<rparr>))
      | None \<Rightarrow> (next_session c, c\<lparr>sessions := (sessions c)(next_session c \<mapsto> Map.empty),
                                   next_session := Suc (next_session c)\<rparr>))"

text \<open>\<open>HttpSession.setAttribute\<close>: a \<open>null\<close> value removes the attribute.\<close>

definition setAttribute :: "session \<Rightarrow> string \<Rightarrow> string option \<Rightarrow> session" where
  "setAttribute s name v = s(name := v)"

text \<open>
  \<open>init\<close> constructs the service; its exception makes the servlet unavailable.
  In \<open>doPost\<close> no statement of the \<open>try\<close> block throws once the service
  exists (\<open>authenticate\<close> is total, the bean serialises), so the \<open>catch\<close>
  block is not a branch of the model. The body is the serialised bean.
\<close>

definition init :: "message_digest option \<Rightarrow> string + auth_service" where
  "init md = newAuthenticationService md"

definition doPost :: "auth_service \<Rightarrow> container \<Rightarrow> http_request \<Rightarrow> container \<times> http_response" where
  "doPost svc c req =
     (let username = req_params req ''username''; pin = req_params req ''pin'';
          role = req_params req ''role''; deviceId = req_params req ''deviceId'';
          authResponse = authenticate svc username pin role deviceId
      in if success authResponse then
           (let (sid, c1) = getSession c req;
                s = the (sessions c1 sid);
                s1 = setAttribute (setAttribute (setAttribute s ''userId'' (ar_userId authResponse))
                       ''role'' role) ''deviceId'' deviceId
            in (c1\<lparr>sessions := (sessions c1)(sid \<mapsto> s1)\<rparr>,
                \<lparr>status = 200, body = authResponse, resp_session = Some sid\<rparr>))
         else (c, \<lparr>status = 401, body = authResponse, resp_session = req_session req\<rparr>))"

subsection \<open>Specification\<close>

text \<open>
  The accounts the demo data promises: user name, PIN, role and user id.
  Reading a hex string back into bytes, the inverse of the hash loop.
\<close>

definition demo_accounts :: "(string \<times> string \<times> string \<times> string) list" where
  "demo_accounts =
     [(''caregiver1'', ''1234'', ''SuperCaregiver'', ''user-001''),
      (''client1'', ''5678'', ''Client'', ''user-002'')]"

fun hex_decode :: "string \<Rightarrow> 8 word list option" where
  "hex_decode [] = Some []"
| "hex_decode (h # l # rest) =
     (case (digit_value h, digit_value l, hex_decode rest) of
        (Some a, Some b, Some bs) \<Rightarrow> Some (word_of_nat (16 * a + b) # bs)
      | _ \<Rightarrow> None)"
| "hex_decode [_] = None"

text \<open>
  A digest for the examples: each character's code as one byte (an injective
  stand-in for SHA-256 on the strings of the examples).
\<close>

definition example_digest :: message_digest where
  "example_digest s = map (\<lambda>c. word_of_nat (of_char c)) s"

section \<open>Lemmas\<close>

text \<open>Masking the sign-extended byte with \<open>0xff\<close> gives back its unsigned value.\<close>

lemma mask_is_take_bit: "(0xff :: 32 word) AND x = take_bit 8 x"
  by (simp add: take_bit_eq_mask mask_eq_exp_minus_1 and.commute)

lemma take_bit_scast_byte: "take_bit 8 (scast b :: 32 word) = ucast (b :: 8 word)"
proof (rule bit_word_eqI)
  fix n :: nat
  show "bit (take_bit 8 (scast b :: 32 word)) n = bit (ucast b :: 32 word) n"
  proof (cases "n < 8")
    case True
    then have "min 7 n = n" by simp
    with True show ?thesis by (simp add: bit_take_bit_iff bit_signed_iff bit_unsigned_iff)
  next
    case False
    then show ?thesis by (auto simp: bit_take_bit_iff bit_unsigned_iff dest: bit_imp_le_length)
  qed
qed

lemma unat_byte_less: "unat (b :: 8 word) < 256"
  using unsigned_less [of b] by simp

lemma mask_scast_byte: "unat (0xff AND (scast b :: 32 word)) = unat (b :: 8 word)"
  using unat_byte_less [of b]
  by (simp add: mask_is_take_bit take_bit_scast_byte unsigned_ucast_eq take_bit_nat_eq_self_iff)

lemma char_zero: "char_of (48 :: nat) = CHR ''0''"
  by code_simp

lemma radix_digits_16_byte:
  assumes "n < 256"
  shows "(if length (radix_digits 16 n) = 1 then ''0'' else []) @ radix_digits 16 n =
           [digit_char (n div 16), digit_char (n mod 16)]"
proof (cases "n < 16")
  case True
  then show ?thesis
    by (simp add: radix_digits.simps digit_char_def char_zero)
next
  case False
  with assms have "n div 16 < 16" "\<not> n div 16 < 16 \<longrightarrow> False"
    by simp_all
  with False show ?thesis
    by (simp add: radix_digits.simps [of 16 n] radix_digits.simps [of 16 "n div 16"])
qed

lemma hex_byte_digits:
  "hashPin_hex_step acc b = acc @ [digit_char (unat b div 16), digit_char (unat b mod 16)]"
  using radix_digits_16_byte [of "unat b"] unat_byte_less [of b]
  by (simp add: hashPin_hex_step_def toHexString_def mask_scast_byte Let_def)

lemma foldl_hex_byte:
  "foldl hashPin_hex_step acc bs = acc @ concat (map (\<lambda>b. [digit_char (unat b div 16), digit_char (unat b mod 16)]) bs)"
  by (induction bs arbitrary: acc) (simp_all add: hex_byte_digits)

lemma hex_decode_hex:
  "hex_decode (concat (map (\<lambda>b. [digit_char (unat b div 16), digit_char (unat b mod 16)]) bs)) = Some bs"
proof (induction bs)
  case Nil
  then show ?case by simp
next
  case (Cons b bs)
  have "unat b < 256"
    by (rule unat_byte_less)
  then have "unat b div 16 < 36" "unat b mod 16 < 36" "16 * (unat b div 16) + unat b mod 16 = unat b"
    by simp_all
  with Cons show ?case
    by (simp add: digit_value_char)
qed

lemma hashPin_digits:
  "hashPin (Some digest) pin =
     Inr (concat (map (\<lambda>b. [digit_char (unat b div 16), digit_char (unat b mod 16)]) (digest pin)))"
  by (simp add: hashPin_def foldl_hex_byte)

lemma hashPin_inj:
  assumes "inj digest"
  shows "hashPin (Some digest) p = hashPin (Some digest) q \<longleftrightarrow> p = q"
proof
  assume "hashPin (Some digest) p = hashPin (Some digest) q"
  then have "hex_decode (projr (hashPin (Some digest) p)) = hex_decode (projr (hashPin (Some digest) q))"
    by simp
  then have "digest p = digest q"
    by (simp add: hashPin_digits hex_decode_hex)
  with assms show "p = q"
    by (rule injD)
qed simp

lemma hex_digit_chars: "d < 16 \<Longrightarrow> digit_char d \<in> set ''0123456789abcdef''"
proof -
  assume "d < 16"
  then have "digit_char d \<in> set (map digit_char [0..<16])"
    by simp
  also have "set (map digit_char [0..<16]) = set ''0123456789abcdef''"
    by code_simp
  finally show ?thesis .
qed

lemma init_demo:
  "init (Some digest) =
     Inr \<lparr>userDatabase =
            [''caregiver1'' \<mapsto> \<lparr>uc_username = ''caregiver1'', hashedPin = projr (hashPin (Some digest) ''1234''),
                               uc_role = ''SuperCaregiver'', uc_userId = ''user-001''\<rparr>,
             ''client1'' \<mapsto> \<lparr>uc_username = ''client1'', hashedPin = projr (hashPin (Some digest) ''5678''),
                            uc_role = ''Client'', uc_userId = ''user-002''\<rparr>],
          svc_digest = digest\<rparr>"
  by (simp add: init_def newAuthenticationService_def hashPin_def)

lemma hashPin_Inr: "hashPin (Some digest) p = Inr (projr (hashPin (Some digest) p))"
  by (simp add: hashPin_def)

lemma example_digest_inj: "inj example_digest"
proof -
  have "inj (\<lambda>c :: char. (word_of_nat (of_char c) :: 8 word))"
  proof (rule injI)
    fix c d :: char
    assume eq: "(word_of_nat (of_char c) :: 8 word) = word_of_nat (of_char d)"
    have "of_char c < (256 :: nat)" "of_char d < (256 :: nat)"
      by (simp_all add: nat_of_char_less_256)
    with eq have "(of_char c :: nat) = of_char d"
      by (simp add: word_of_nat_eq_iff take_bit_nat_eq_self)
    then show "c = d"
      by (metis char_of_char)
  qed
  then show ?thesis
    unfolding example_digest_def by (rule inj_mapI)
qed

section \<open>Properties\<close>

text \<open>
  C34. The hash loop is a faithful hex encoding: for every digest, the PIN's
  hash is two lower-case hex digits per digest byte and reads back to the
  digest bytes (the \<open>0xff\<close> mask undoes the sign extension of negative bytes,
  the \<open>'0'\<close> pads the bytes below 16).
\<close>

theorem hashPin_hex_roundtrip:
  "\<exists>h. hashPin (Some digest) pin = Inr h \<and> hex_decode h = Some (digest pin) \<and>
       length h = 2 * length (digest pin) \<and> set h \<subseteq> set ''0123456789abcdef''"
proof -
  define S where "S = set ''0123456789abcdef''"
  have d: "digit_char (unat b div 16) \<in> S \<and> digit_char (unat b mod 16) \<in> S" for b :: "8 word"
    using unat_byte_less [of b] hex_digit_chars [of "unat b div 16"] hex_digit_chars [of "unat b mod 16"]
    unfolding S_def by simp
  have "set (concat (map (\<lambda>b. [digit_char (unat b div 16), digit_char (unat b mod 16)]) (digest pin))) \<subseteq> S"
    using d by auto
  then have "set (concat (map (\<lambda>b. [digit_char (unat b div 16), digit_char (unat b mod 16)]) (digest pin)))
               \<subseteq> set ''0123456789abcdef''"
    by (simp only: S_def)
  moreover have "length (concat (map (\<lambda>b. [digit_char (unat b div 16), digit_char (unat b mod 16)]) bs)) =
                   2 * length bs" for bs :: "8 word list"
    by (induction bs) simp_all
  ultimately show ?thesis
    by (simp add: hashPin_digits hex_decode_hex)
qed

text \<open>
  C32. With an injective digest the service implements the demo accounts:
  construction succeeds, and a request with all parameters present succeeds,
  with a given user id, exactly when user name, PIN, role and id form one of
  the two demo accounts.
\<close>

theorem authenticate_refines_accounts:
  assumes "inj digest"
  shows "\<not> isl (init (Some digest)) \<and>
         (authenticate (projr (init (Some digest))) (Some u) (Some p) (Some r) d =
            AuthResponse4 True uid ''000'' ''Authentication successful'' \<longleftrightarrow>
          (u, p, r, uid) \<in> set demo_accounts)"
proof -
  have h: "hashPin (Some digest) p' = Inr (projr (hashPin (Some digest) q)) \<longleftrightarrow> p' = q" for p' q
    using hashPin_inj [OF assms, of p' q] hashPin_Inr [of digest q] by simp
  show ?thesis
    by (auto simp: init_demo authenticate_def demo_accounts_def h AuthResponse3_def AuthResponse4_def)
qed

theorem authenticate_refines_accounts_witness:
  "inj example_digest \<and>
   authenticate (projr (init (Some example_digest))) (Some ''client1'') (Some ''5678'') (Some ''Client'') None =
     AuthResponse4 True ''user-002'' ''000'' ''Authentication successful''"
  using authenticate_refines_accounts [OF example_digest_inj, of "''client1''" "''5678''" "''Client''" None "''user-002''"]
    example_digest_inj
  by (simp add: demo_accounts_def)

text \<open>
  C35. The response tells whether a user name exists: whatever the PIN and
  role, the code is 002 exactly when the name is not one of the two accounts,
  while a wrong PIN for an existing name gives 001.
\<close>

theorem authenticate_user_enumeration:
  "ar_code (authenticate (projr (init (Some digest))) (Some u) (Some p) (Some r) d) = Some ''002'' \<longleftrightarrow>
     u \<notin> {''caregiver1'', ''client1''}"
  by (simp add: init_demo authenticate_def AuthResponse3_def AuthResponse4_def)

text \<open>
  C33. \<open>doPost\<close> writes a session only on success: a failed login answers 401
  and leaves every session as it was; a successful one answers 200 and stores
  the user id, role and device id in the session the request already had when
  that session is live (the session id is not renewed at login), and in a
  fresh session otherwise.
\<close>

theorem doPost_sessions:
  assumes "doPost svc c req = (c', resp)"
  shows "(\<not> success (body resp) \<longrightarrow> c' = c \<and> status resp = 401) \<and>
         (success (body resp) \<longrightarrow>
            status resp = 200 \<and>
            resp_session resp = Some (fst (getSession c req)) \<and>
            sessions c' (fst (getSession c req)) =
              Some ((the (sessions (snd (getSession c req)) (fst (getSession c req))))
                      (''userId'' := ar_userId (body resp), ''role'' := req_params req ''role'',
                       ''deviceId'' := req_params req ''deviceId'')) \<and>
            (\<forall>sid \<in> dom (sessions c). req_session req = Some sid \<longrightarrow> fst (getSession c req) = sid))"
  using assms
  by (auto simp: doPost_def Let_def setAttribute_def getSession_def split: prod.splits if_splits)

theorem doPost_sessions_witness:
  "status (snd (doPost (projr (init (Some example_digest))) \<lparr>sessions = [0 \<mapsto> Map.empty], next_session = 1\<rparr>
            \<lparr>req_params = [''username'' \<mapsto> ''client1'', ''pin'' \<mapsto> ''5678'', ''role'' \<mapsto> ''Client''],
             req_session = Some 0\<rparr>)) = 200 \<and>
   resp_session (snd (doPost (projr (init (Some example_digest))) \<lparr>sessions = [0 \<mapsto> Map.empty], next_session = 1\<rparr>
            \<lparr>req_params = [''username'' \<mapsto> ''client1'', ''pin'' \<mapsto> ''5678'', ''role'' \<mapsto> ''Client''],
             req_session = Some 0\<rparr>)) = Some 0"
proof -
  have ok: "success (authenticate (projr (init (Some example_digest)))
              (Some ''client1'') (Some ''5678'') (Some ''Client'') None)"
    using hashPin_Inr [of example_digest "''5678''"]
    by (simp add: init_demo authenticate_def AuthResponse4_def)
  show ?thesis
    using doPost_sessions [of "projr (init (Some example_digest))" "\<lparr>sessions = [0 \<mapsto> Map.empty], next_session = 1\<rparr>"
        "\<lparr>req_params = [''username'' \<mapsto> ''client1'', ''pin'' \<mapsto> ''5678'', ''role'' \<mapsto> ''Client''],
          req_session = Some 0\<rparr>"]
      ok
    by (simp add: doPost_def Let_def getSession_def split: prod.splits)
qed

end
