(* ===== verification/Spec2Isabelle.thy ===== *)
theory Spec2Isabelle
  imports UtilsStats UtilsValidation UtilsEvents UtilsFormat UtilsColors UtilsPerformance PySim Controller Visualizer Page Auth
begin

text \<open>
  \<^bold>\<open>A verification model of the retrocausal_spin simulator.\<close>

  \<^emph>\<open>The program.\<close> The repository is an educational web application. A
  Hamming(7,4) block code (\<open>src/js/hamming.js\<close>, class \<open>HammingCode\<close>) is
  driven by an iterative "encode, corrupt, decode" consistency solver (class
  \<open>RetrocausalFixedPointSolver\<close>, whose \<open>js/fixedpoint.js\<close> listing is
  carried by \<open>src/theory_guide.md\<close>, lines 352-844). The page controller
  (\<open>src/js/main.js\<close>, class \<open>RetrocausalSimulatorApp\<close>) owns one engine
  and one solver and calls them from its event listeners. \<open>src/js/utils.js\<close>
  (\<open>RetrocausalUtils\<close>) holds helpers: math, validation, statistics, number
  formats, colours and an event dispatcher. The white paper
  (\<open>src/unnamed/part_000\<close>) prints a Python reference simulator. The canvas
  visualiser (\<open>src/unnamed/part_001\<close>) draws the encoding, the solver's
  convergence history and the spin chain. A Java PIN login servlet, unrelated
  to the simulator, is also in the repository.

  \<^emph>\<open>Conventions (theory \<open>Prelude\<close>).\<close>
  \<^item> Bit arrays are \<open>int list\<close>, so malformed input is representable.
  \<^item> An engine error is \<open>Inl InvalidInput\<close> or \<open>Inl InvalidParameter\<close>
    of a sum type. A JavaScript runtime exception (\<open>RangeError\<close>,
    \<open>TypeError\<close>, a plain \<open>Error\<close>) is a \<open>js_exception\<close>.
  \<^item> Numbers are exact reals. A number that may be infinite or \<open>NaN\<close> is a
    \<open>js_real\<close>. Rounding of IEEE doubles is not modelled, so no claim is
    stated where it matters (for instance \<open>binomialCoefficient\<close>, whose
    product loop leaves the exact integers above \<open>2^53\<close>).
  \<^item> \<open>Math.random\<close> is an explicit random source (record \<open>rng\<close>: draws and
    a cursor). Every drawing function takes it and returns it advanced, so the
    order of draws is part of the model. \<open>valid_rng\<close> (draws in [0, 1)) is a
    hypothesis where it is needed.
  \<^item> Strings are \<open>char list\<close>. Number-to-string conversion is
    \<open>int_to_string\<close>, built on \<open>radix_digits\<close>.

  \<^emph>\<open>Engine (theory \<open>Hamming\<close>).\<close> One definition per method, with the
  constructor's tables. The nested loops are \<open>gf2_dot\<close>, \<open>codebook_from\<close>
  and \<open>min_pair_distance\<close>. The lemmas give closed forms of encoding and
  syndromes, and how a bit flip changes the syndrome. The claims show:
  \<^item> the round trip and single-error correction with the exact position;
  \<^item> minimum distance 3 between codewords, and the input errors;
  \<^item> well-formed decoding results and draw-by-draw noise injection;
  \<^item> detection of double errors, and agreement of \<open>getCodeProperties\<close>
    with the computed code.

  \<^emph>\<open>Solver (theory \<open>Solver\<close>).\<close> The solver object is the record
  \<open>solver\<close>, and parameters are merged over \<open>defaultParams\<close> key by key.
  The \<open>for\<close> loop is \<open>solve_loop\<close>, with \<open>ceil(maxIterations)\<close> as its
  structural bound; that bound is the loop's exact iteration count, so
  termination is a theorem and not a fuel assumption. \<open>solver_reach\<close> is the
  inductive set of solver states reachable by \<open>solveFixedPoint\<close> calls.
  \<open>runStatisticalAnalysis\<close> is \<open>stat_runs\<close> plus its reductions. The claims
  show:
  \<^item> termination, with the reported \<open>maxIterations + 1\<close>;
  \<^item> the outcome and convergence test;
  \<^item> convergence at once without noise;
  \<^item> the only error being encode's;
  \<^item> the solver invariant, the history entries and the fixed-point property of
    a converged run;
  \<^item> damping, and the batch statistics (which never converge without a base
    tolerance).

  \<^emph>\<open>Controller (theory \<open>Controller\<close>).\<close> The app object plus the page parts
  its handlers write form the record \<open>app\<close>. The browser is
  \<open>app_step\<close>, a step function on page events (\<open>ui_event\<close>): check boxes,
  sliders, clicks, keys, the 100 ms tick, timer firings and the global
  functions. Each listener runs to its end or to an uncaught exception (a
  \<open>completion\<close>), then the microtask checkpoint runs.

  \<open>runCompleteSimulation\<close> is split at its \<open>await\<close>s. Each pending
  \<open>sleep(150)\<close> is a \<open>run_task\<close> in a FIFO timer queue; all sleeps share one
  delay, so they fire in the order they were set. The rest of a run is a queued
  continuation. \<open>app_reach\<close> is the set of states reachable from the
  constructor by events a predicate allows. The claims show:
  \<^item> the reachable-state invariant (well-formed input, no queued continuation,
    \<open>simulationsRun\<close> always 0);
  \<^item> liveness: a run ends after one timer firing per history entry, always with
    the failure message, since \<open>updatePerformanceMetrics\<close> is undefined;
  \<^item> safety of the \<open>isRunning\<close> guard without reset events, and a reachable
    state with two concurrent runs after a reset;
  \<^item> refinement of the input panel by an abstract 4-bit register and its
    read-out;
  \<^item> the spurious update error, the always-failing benchmark, the throwing
    step controls, and the dead space-bar shortcut.

  \<^emph>\<open>Utilities.\<close>
  \<^item> \<open>UtilsMath\<close>: distance, binomial coefficient, moving average, random
    bits, entropy.
  \<^item> \<open>UtilsStats\<close>: descriptive statistics, correlation, regression,
    confidence interval, t table, normal inverse.
  \<^item> \<open>UtilsValidation\<close>: bit-array and parameter validators, and the
    sanitiser with its entity round trip.
  \<^item> \<open>UtilsEvents\<close>: the dispatcher, whose \<open>emit\<close> loop over the live
    array skips the listener after a \<open>once\<close> listener, for every array of
    plain listeners around it.
  \<^item> \<open>UtilsFormat\<close>: \<open>toFixed\<close> and \<open>toExponential\<close> on exact reals, and
    the file-size loop.
  \<^item> \<open>UtilsColors\<close>: hex colours and palette interpolation; the scheme
    lookup includes the names inherited from \<open>Object.prototype\<close>.
  \<^item> \<open>UtilsPerformance\<close>: the named timer, with clock readings as
    arguments.
  \<^item> \<open>UtilsPerformance\<close>: \<open>estimateMemoryUsage\<close> over an explicit heap,
    with the \<open>WeakSet\<close> as a set of addresses. Its recursion depth has fuel,
    one unit per object entered; the entry point gives one unit more than the
    heap has objects. That is enough because each level marks a new object, so
    the estimate terminates on every heap, cyclic ones included.
  \<^item> \<open>UtilsPerformance\<close>: \<open>debounce\<close> and \<open>throttle\<close> as state machines
    stepped by calls and waits. Claims: debounce liveness and burst safety,
    throttle spacing, and the throttle dropping calls.

  \<^emph>\<open>Python simulator (theory \<open>PySim\<close>).\<close> Appendix B.1 and B.2 and the
  section 6.2 and 6.3 fragments. Claims: equivalence with the JavaScript engine
  on well-formed inputs, and the solver's failure cases.

  \<^emph>\<open>Visualiser (theory \<open>Visualizer\<close>).\<close> Class
  \<open>RetrocausalVisualizer\<close> of \<open>src/unnamed/part_001\<close>. Its own state (the
  registered canvases and the animation flags) is the record
  \<open>visualizer\<close>; every drawing method is modelled as the data it puts on the
  page: bit elements and parity highlights (\<open>visualizeHammingEncoding\<close>),
  the explanation numbers, the curve points and axis labels
  (\<open>visualizeFixedPointConvergence\<close>, result \<open>plot_outcome\<close>), the
  statistics read-out, the spin chain and the error-chart points. The claims
  show:
  \<^item> the encoding panel agrees with the engine's \<open>encode\<close>;
  \<^item> every curve point lies inside the plot area;
  \<^item> the y tick labels run from 0 while the curve starts at the least error,
    so a label is the error drawn at its height only when that error is 0 or
    the tick is the top one;

  \<^emph>\<open>What the page draws (theory \<open>Page\<close>).\<close> The drawing calls of
  \<open>main.js\<close> as visualiser data computed from the controller's state and the
  solver's report: the encoding panel of \<open>updateSimulation\<close>, each frame of
  \<open>animateConvergenceProcess\<close>, the views of
  \<open>updateVisualizationsWithResults\<close>, and the text of
  \<open>explainSimulationResults\<close> (which no run reaches). The claim spans the
  three components: every animation frame of a solver run draws a finite
  curve of the right length and a spin chain of 7, 7 and 4 spins.

  \<^emph>\<open>PIN login (theory \<open>Auth\<close>).\<close> \<open>PIPServlet\<close>,
  \<open>AuthenticationService\<close> and the \<open>AuthResponse\<close> bean
  (\<open>src/src/main/java/com/safe4all\<close>). Nullable strings are options, bytes
  are \<open>8 word\<close>; SHA-256 with \<open>getBytes\<close> is a parameter
  (\<open>message_digest\<close>, absent when the platform lacks it), the hex loop
  around it is exact, and the servlet container is a record of sessions. The
  claims show:
  \<^item> the hex loop is an injective, two-digits-per-byte encoding (the
    \<open>0xff\<close> mask undoes Java's sign extension);
  \<^item> refinement: with an injective digest the service accepts exactly the two
    demo accounts;
  \<^item> the response code reveals whether a user name exists;
  \<^item> \<open>doPost\<close> writes a session only on success and keeps the session id
    the client brought.

  \<^emph>\<open>Not modelled.\<close>
  \<^item> Pixel output: canvas strokes, fonts, colours and CSS classes of
    \<open>part_001\<close> beyond the modelled coordinates and labels, the pulsing
    indicator (which reads the wall clock) and \<open>handleResize\<close> (a log
    call); in \<open>main.js\<close> the drawing calls, check-box sync, welcome message,
    alerts and scrolling. None of them changes modelled state.
  \<^item> The wall clock, except as event data.
  \<^item> The quantum-state classes of the white paper, which call undefined
    helpers.
  \<^item> SHA-256 itself (a parameter of \<open>Auth\<close>); the login page
    \<open>index.jsp\<close>, static markup whose scripts are not in the repository; the
    prose of the documents.
  \<^item> The page's four check boxes are an assumption (\<open>event_ok\<close>): an index
    past the array, which JavaScript would extend with holes, is not an event of
    the model.
\<close>

end
